(* ===== verification/Prelude.thy ===== *)
theory Prelude
  imports Complex_Main "HOL-Library.Word" "HOL-Library.Code_Target_Nat"
begin

text \<open>
  Shared foundations of the development.

  The services of the repository are asynchronous Rust programs whose functions return
  \<open>Result<T, E>\<close>, mutate rows of a database and call remote parties.  They are modelled as
  state transformers \<open>'s \<Rightarrow> ('e + 'a) \<times> 's\<close>: the left summand is Rust's \<open>Err\<close>, the right
  summand its \<open>Ok\<close>, and the new state is returned in both cases, because an early return
  keeps the effects done before it.  \<open>rbind\<close> is the \<open>?\<close> operator, \<open>attempt\<close> turns a call
  into a value so that a \<open>match\<close> on its result can be written as a \<open>case\<close>.

  Remote parties (RPC nodes, Postgres failures, random generators, clocks) answer through
  functions of a call number: every call increments the counter \<open>calls\<close> of the state and
  hands its old value to the party, so that two calls may be answered differently and
  every sequence of answers is an instance.

  The locale \<open>state_rel\<close> is the interface used for all preservation proofs: a reflexive
  and transitive relation between the states before and after a computation.
\<close>

named_theorems rt_simps \<open>unfolding equations of the effect combinators\<close>
named_theorems word_facts \<open>unsigned values of the word operations used by the code\<close>

section \<open>Effects\<close>

type_synonym ('s, 'e, 'a) rt = "'s \<Rightarrow> ('e + 'a) \<times> 's"

definition ret :: "'a \<Rightarrow> ('s, 'e, 'a) rt" where
  [rt_simps]: "ret x = (\<lambda>s. (Inr x, s))"

definition fail :: "'e \<Rightarrow> ('s, 'e, 'a) rt" where
  [rt_simps]: "fail e = (\<lambda>s. (Inl e, s))"

definition rbind :: "('s, 'e, 'a) rt \<Rightarrow> ('a \<Rightarrow> ('s, 'e, 'b) rt) \<Rightarrow> ('s, 'e, 'b) rt" where
  [rt_simps]: "rbind m f = (\<lambda>s. case m s of (Inl e, s') \<Rightarrow> (Inl e, s') | (Inr x, s') \<Rightarrow> f x s')"

definition attempt :: "('s, 'e, 'a) rt \<Rightarrow> ('s, 'f, 'e + 'a) rt" where
  [rt_simps]: "attempt m = (\<lambda>s. case m s of (r, s') \<Rightarrow> (Inr r, s'))"

definition map_err :: "('e \<Rightarrow> 'f) \<Rightarrow> ('s, 'e, 'a) rt \<Rightarrow> ('s, 'f, 'a) rt" where
  [rt_simps]: "map_err g m =
     (\<lambda>s. case m s of (Inl e, s') \<Rightarrow> (Inl (g e), s') | (Inr x, s') \<Rightarrow> (Inr x, s'))"

definition gets :: "('s \<Rightarrow> 'a) \<Rightarrow> ('s, 'e, 'a) rt" where
  [rt_simps]: "gets f = (\<lambda>s. (Inr (f s), s))"

definition modify :: "('s \<Rightarrow> 's) \<Rightarrow> ('s, 'e, unit) rt" where
  [rt_simps]: "modify f = (\<lambda>s. (Inr (), f s))"

definition of_result :: "'e + 'a \<Rightarrow> ('s, 'e, 'a) rt" where
  [rt_simps]: "of_result r = (\<lambda>s. (r, s))"

definition ok_or :: "'e \<Rightarrow> 'a option \<Rightarrow> 'e + 'a" where
  [rt_simps]: "ok_or e x = (case x of None \<Rightarrow> Inl e | Some v \<Rightarrow> Inr v)"

text \<open>A \<open>for\<close> loop whose body may leave the function with \<open>?\<close>.\<close>

fun for_each :: "'x list \<Rightarrow> ('x \<Rightarrow> ('s, 'e, unit) rt) \<Rightarrow> ('s, 'e, unit) rt" where
  "for_each [] body = ret ()"
| "for_each (x # xs) body = rbind (body x) (\<lambda>_. for_each xs body)"

text \<open>States of a service: the counter of remote calls, extended by each service.\<close>

record rt_state =
  calls :: nat

definition ask :: "(nat \<Rightarrow> 'e + 'a) \<Rightarrow> ('z rt_state_scheme, 'e, 'a) rt" where
  [rt_simps]: "ask f = (\<lambda>s. (f (calls s), s\<lparr>calls := Suc (calls s)\<rparr>))"

subsection \<open>Inversion of successful and failed runs\<close>

lemma rbind_Inr_iff:
  "rbind m f s = (Inr y, t) \<longleftrightarrow> (\<exists>x s'. m s = (Inr x, s') \<and> f x s' = (Inr y, t))"
  by (auto simp: rbind_def split: prod.splits sum.splits)

lemma rbind_Inl_iff:
  "rbind m f s = (Inl e, t) \<longleftrightarrow>
     m s = (Inl e, t) \<or> (\<exists>x s'. m s = (Inr x, s') \<and> f x s' = (Inl e, t))"
  by (auto simp: rbind_def split: prod.splits sum.splits)

lemma ret_iff [simp]: "ret x s = (r, t) \<longleftrightarrow> r = Inr x \<and> t = s"
  by (auto simp: ret_def)

lemma fail_iff [simp]: "fail e s = (r, t) \<longleftrightarrow> r = Inl e \<and> t = s"
  by (auto simp: fail_def)

lemma gets_iff [simp]: "gets f s = (r, t) \<longleftrightarrow> r = Inr (f s) \<and> t = s"
  by (auto simp: gets_def)

lemma modify_iff [simp]: "modify f s = (r, t) \<longleftrightarrow> r = Inr () \<and> t = f s"
  by (auto simp: modify_def)

lemma of_result_iff [simp]: "of_result x s = (r, t) \<longleftrightarrow> x = r \<and> t = s"
  by (auto simp: of_result_def)

lemma attempt_iff: "attempt m s = (r, t) \<longleftrightarrow> (\<exists>x. r = Inr x \<and> m s = (x, t))"
  by (auto simp: attempt_def split: prod.splits)

lemma ask_iff: "ask f s = (r, t) \<longleftrightarrow> r = f (calls s) \<and> t = s\<lparr>calls := Suc (calls s)\<rparr>"
  by (auto simp: ask_def)

lemma ok_or_Inr [simp]: "ok_or e x = Inr v \<longleftrightarrow> x = Some v"
  by (auto simp: ok_or_def split: option.splits)

lemma ok_or_Inl [simp]: "ok_or e x = Inl e' \<longleftrightarrow> x = None \<and> e' = e"
  by (auto simp: ok_or_def split: option.splits)

lemma Inr_ok_or [simp]: "Inr v = ok_or e x \<longleftrightarrow> x = Some v"
  by (auto simp: ok_or_def split: option.splits)

lemma Inl_ok_or [simp]: "Inl e' = ok_or e x \<longleftrightarrow> x = None \<and> e' = e"
  by (auto simp: ok_or_def split: option.splits)

lemmas rt_inversions =
  rbind_Inr_iff rbind_Inl_iff attempt_iff ask_iff

subsection \<open>Relations kept by a computation\<close>

definition keeps :: "('s \<Rightarrow> 's \<Rightarrow> bool) \<Rightarrow> ('s, 'e, 'a) rt \<Rightarrow> bool" where
  "keeps R m \<longleftrightarrow> (\<forall>s r t. m s = (r, t) \<longrightarrow> R s t)"

lemma keepsD: "keeps R m \<Longrightarrow> m s = (r, t) \<Longrightarrow> R s t"
  by (auto simp: keeps_def)

lemma keeps_snd: "keeps R m \<Longrightarrow> R s (snd (m s))"
  by (cases "m s") (auto simp: keeps_def)

text \<open>What a successful computation returns.\<close>

definition yields :: "('a \<Rightarrow> bool) \<Rightarrow> ('s, 'e, 'a) rt \<Rightarrow> bool" where
  "yields P m \<longleftrightarrow> (\<forall>s x t. m s = (Inr x, t) \<longrightarrow> P x)"

lemma yieldsD: "yields P m \<Longrightarrow> m s = (Inr x, t) \<Longrightarrow> P x"
  unfolding yields_def by blast

lemma yields_ret: "P x \<Longrightarrow> yields P (ret x)"
  by (simp add: yields_def)

lemma yields_fail: "yields P (fail e)"
  by (simp add: yields_def)

lemma yields_of_result: "(\<And>x. r = Inr x \<Longrightarrow> P x) \<Longrightarrow> yields P (of_result r)"
  by (simp add: yields_def)

lemma yields_gets: "(\<And>s. P (f s)) \<Longrightarrow> yields P (gets f)"
  by (simp add: yields_def)

lemma yields_map_err: "yields P m \<Longrightarrow> yields P (map_err g m)"
  by (auto simp: yields_def map_err_def split: prod.splits sum.splits)

lemma yields_attempt: "yields (\<lambda>r. \<forall>x. r = Inr x \<longrightarrow> P x) (attempt m) \<longleftrightarrow> yields P m"
  unfolding yields_def attempt_iff by blast

lemma yields_rbind: "(\<And>x. yields P (f x)) \<Longrightarrow> yields P (rbind m f)"
  unfolding yields_def rbind_Inr_iff by blast

lemma yields_rbind_dep: "yields Q m \<Longrightarrow> (\<And>x. Q x \<Longrightarrow> yields P (f x)) \<Longrightarrow> yields P (rbind m f)"
  unfolding yields_def rbind_Inr_iff by blast

lemma yields_mono: "yields Q m \<Longrightarrow> (\<And>x. Q x \<Longrightarrow> P x) \<Longrightarrow> yields P m"
  unfolding yields_def by blast

lemma yields_if: "(b \<Longrightarrow> yields P m) \<Longrightarrow> (\<not> b \<Longrightarrow> yields P m') \<Longrightarrow> yields P (if b then m else m')"
  by simp

locale state_rel =
  fixes R :: "'s \<Rightarrow> 's \<Rightarrow> bool"
  assumes rel_refl: "R s s"
    and rel_trans: "R s t \<Longrightarrow> R t u \<Longrightarrow> R s u"
begin

lemma keeps_ret: "keeps R (ret x)"
  by (simp add: keeps_def rel_refl)

lemma keeps_fail: "keeps R (fail e)"
  by (simp add: keeps_def rel_refl)

lemma keeps_gets: "keeps R (gets f)"
  by (simp add: keeps_def rel_refl)

lemma keeps_of_result: "keeps R (of_result r)"
  by (simp add: keeps_def rel_refl)

lemma keeps_modify: "(\<And>s. R s (f s)) \<Longrightarrow> keeps R (modify f)"
  by (simp add: keeps_def)

lemma keeps_rbind: "keeps R m \<Longrightarrow> (\<And>x. keeps R (f x)) \<Longrightarrow> keeps R (rbind m f)"
  unfolding keeps_def
proof (intro allI impI)
  fix s r t
  assume m: "\<forall>s r t. m s = (r, t) \<longrightarrow> R s t"
    and f: "\<And>x. \<forall>s r t. f x s = (r, t) \<longrightarrow> R s t"
    and run: "rbind m f s = (r, t)"
  show "R s t"
  proof (cases r)
    case (Inl e)
    with run have "m s = (Inl e, t) \<or> (\<exists>x s'. m s = (Inr x, s') \<and> f x s' = (Inl e, t))"
      by (simp add: rbind_Inl_iff)
    with m f show ?thesis by (blast intro: rel_trans)
  next
    case (Inr y)
    with run obtain x s' where "m s = (Inr x, s')" "f x s' = (Inr y, t)"
      by (auto simp: rbind_Inr_iff)
    with m f show ?thesis by (blast intro: rel_trans)
  qed
qed

lemma keeps_rbind_yields:
  assumes "keeps R m" "yields P m" "\<And>x. P x \<Longrightarrow> keeps R (f x)"
  shows "keeps R (rbind m f)"
proof -
  have "keeps R (rbind m (\<lambda>x. if P x then f x else ret undefined))"
    using assms by (intro keeps_rbind) (auto intro: keeps_ret)
  moreover have "rbind m (\<lambda>x. if P x then f x else ret undefined) = rbind m f"
    using assms(2) by (auto simp: fun_eq_iff rbind_def yields_def split: prod.splits sum.splits)
  ultimately show ?thesis by simp
qed

lemma keeps_attempt: "keeps R m \<Longrightarrow> keeps R (attempt m)"
  by (auto simp: keeps_def attempt_def split: prod.splits)

lemma keeps_map_err: "keeps R m \<Longrightarrow> keeps R (map_err g m)"
  by (auto simp: keeps_def map_err_def split: prod.splits sum.splits)

lemma keeps_for_each: "(\<And>x. x \<in> set xs \<Longrightarrow> keeps R (body x)) \<Longrightarrow> keeps R (for_each xs body)"
  by (induction xs) (auto intro!: keeps_ret keeps_rbind)

lemma keeps_if: "(b \<Longrightarrow> keeps R m) \<Longrightarrow> (\<not> b \<Longrightarrow> keeps R m') \<Longrightarrow> keeps R (if b then m else m')"
  by simp

lemma keeps_case_option:
  "(x = None \<Longrightarrow> keeps R m) \<Longrightarrow> (\<And>v. x = Some v \<Longrightarrow> keeps R (f v)) \<Longrightarrow>
    keeps R (case x of None \<Rightarrow> m | Some v \<Rightarrow> f v)"
  by (simp split: option.splits)

lemma keeps_case_sum:
  "(\<And>e. x = Inl e \<Longrightarrow> keeps R (g e)) \<Longrightarrow> (\<And>v. x = Inr v \<Longrightarrow> keeps R (f v)) \<Longrightarrow>
    keeps R (case x of Inl e \<Rightarrow> g e | Inr v \<Rightarrow> f v)"
  by (simp split: sum.splits)

lemma keeps_case_prod: "(\<And>a b. x = (a, b) \<Longrightarrow> keeps R (f a b)) \<Longrightarrow> keeps R (case x of (a, b) \<Rightarrow> f a b)"
  by (simp split: prod.splits)

lemma keeps_Let: "(\<And>y. y = x \<Longrightarrow> keeps R (f y)) \<Longrightarrow> keeps R (let y = x in f y)"
  by simp

lemmas keeps_intros =
  keeps_ret keeps_fail keeps_gets keeps_of_result keeps_rbind keeps_attempt keeps_map_err
  keeps_for_each keeps_if keeps_case_option keeps_case_sum keeps_case_prod keeps_Let

end

text \<open>A relation of service states that ignores the counter of remote calls.\<close>

locale call_rel = state_rel R for R :: "'z rt_state_scheme \<Rightarrow> 'z rt_state_scheme \<Rightarrow> bool" +
  assumes rel_calls: "R s (s\<lparr>calls := n\<rparr>)"
begin

lemma keeps_ask: "keeps R (ask f)"
  by (auto simp: keeps_def ask_def rel_calls)

lemmas keeps_rules = keeps_ask keeps_intros

end

section \<open>Key-value caches\<close>

text \<open>
  Four components keep a \<open>HashMap\<close> (or \<open>DashMap\<close>, or Redis) as a cache.  The interface is
  a lookup and an insertion; the laws are those of a finite map.
\<close>

locale kv_cache =
  fixes look :: "'m \<Rightarrow> 'k \<Rightarrow> 'v option"
    and put :: "'m \<Rightarrow> 'k \<Rightarrow> 'v \<Rightarrow> 'm"
    and same :: "'k \<Rightarrow> 'k \<Rightarrow> bool"
  assumes look_put_same: "same k k' \<Longrightarrow> look (put m k v) k' = Some v"
    and look_put_other: "\<not> same k k' \<Longrightarrow> look (put m k v) k' = look m k'"
    and same_refl: "same k k"
begin

lemma look_put: "look (put m k v) k' = (if same k k' then Some v else look m k')"
  by (simp add: look_put_same look_put_other)

lemma look_put_eq: "look (put m k v) k = Some v"
  by (simp add: look_put_same same_refl)

lemma look_put_put: "look (put (put m k v) k w) k' = look (put m k w) k'"
  by (simp add: look_put)

lemma look_put_swap: "\<not> same k j \<Longrightarrow> \<not> same j k \<Longrightarrow> look (put (put m k v) j w) k = Some v"
  by (simp add: look_put same_refl)

lemma look_fold_put_notin:
  "\<forall>kv \<in> set kvs. \<not> same (fst kv) k' \<Longrightarrow>
    look (fold (\<lambda>(k, v) m. put m k v) kvs m) k' = look m k'"
  by (induction kvs arbitrary: m) (auto simp: look_put)

lemma look_fold_put_cases:
  "look (fold (\<lambda>(k, v) m. put m k v) kvs m) k' = look m k' \<or>
    (\<exists>k v. (k, v) \<in> set kvs \<and> same k k' \<and>
       look (fold (\<lambda>(k, v) m. put m k v) kvs m) k' = Some v)"
proof (induction kvs arbitrary: m)
  case Nil
  show ?case by simp
next
  case (Cons kv kvs)
  obtain k v where kv: "kv = (k, v)" by (cases kv)
  from Cons.IH [of "put m k v"] show ?case
    by (cases "same k k'") (auto simp: kv look_put)
qed

end

section \<open>Lists\<close>

lemma find_Some_in: "find P xs = Some x \<Longrightarrow> x \<in> set xs \<and> P x"
  by (auto simp: find_Some_iff)

lemma find_unique:
  assumes "x \<in> set xs" "P x" "\<And>y. y \<in> set xs \<Longrightarrow> P y \<Longrightarrow> y = x"
  shows "find P xs = Some x"
proof (cases "find P xs")
  case None
  with assms(1,2) show ?thesis unfolding find_None_iff by blast
next
  case (Some z)
  with find_Some_in [OF Some] assms(3) [of z] show ?thesis by blast
qed

lemma find_None_all: "find P xs = None \<longleftrightarrow> (\<forall>x \<in> set xs. \<not> P x)"
  by (auto simp: find_None_iff)

section \<open>Powers of two\<close>

text \<open>By repeated squaring, so that the truncations of wide words evaluate quickly.\<close>

definition two_pow :: "nat \<Rightarrow> int" where
  "two_pow k = 2 ^ k"

lemma two_pow_code [code]:
  "two_pow k =
     (if k = 0 then 1
      else let h = two_pow (k div 2) in if even k then h * h else 2 * (h * h))"
proof (cases "k = 0")
  case False
  have "two_pow (k div 2) * two_pow (k div 2) = 2 ^ (2 * (k div 2))"
    by (simp add: two_pow_def power_mult power2_eq_square power_mult_distrib mult_2 power_add)
  moreover have "k = 2 * (k div 2) + (if even k then 0 else 1)"
    by (simp add: odd_two_times_div_two_nat)
  ultimately show ?thesis
    using False by (auto simp: two_pow_def Let_def simp flip: power_Suc)
qed (simp add: two_pow_def)

lemma int_of_integer_num [code]:
  "int_of_integer 0 = 0" "int_of_integer (Code_Numeral.Pos n) = Int.Pos n"
  "int_of_integer (Code_Numeral.Neg n) = Int.Neg n"
  by (simp_all add: Code_Numeral.Pos_def Code_Numeral.Neg_def)

lemma integer_of_int_num [code]:
  "integer_of_int 0 = 0" "integer_of_int (Int.Pos n) = Code_Numeral.Pos n"
  "integer_of_int (Int.Neg n) = Code_Numeral.Neg n"
  by (simp_all add: Code_Numeral.Pos_def Code_Numeral.Neg_def)

lemma word_of_nat_code [code_unfold]:
  "(of_nat :: nat \<Rightarrow> 'l::len word) = (\<lambda>n. word_of_int (int n))"
  by (simp add: fun_eq_iff)

lemma take_bit_code [code]: "take_bit n (k :: int) = k mod two_pow n"
  by (simp add: two_pow_def take_bit_eq_mod)

section \<open>Unsigned words\<close>

type_synonym u256 = "256 word"
type_synonym u64 = "64 word"
type_synonym u32 = "32 word"
type_synonym addr = "160 word"

definition u256_max :: u256 where
  "u256_max = - 1"

text \<open>Rust's \<open>saturating_add\<close>, \<open>saturating_sub\<close>, \<open>saturating_mul\<close> on unsigned words.\<close>

definition sat_add :: "'l::len word \<Rightarrow> 'l word \<Rightarrow> 'l word" where
  "sat_add a b = (if unat a + unat b < 2 ^ LENGTH('l) then a + b else - 1)"

definition sat_sub :: "'l::len word \<Rightarrow> 'l word \<Rightarrow> 'l word" where
  "sat_sub a b = (if b \<le> a then a - b else 0)"

definition sat_mul :: "'l::len word \<Rightarrow> 'l word \<Rightarrow> 'l word" where
  "sat_mul a b = (if unat a * unat b < 2 ^ LENGTH('l) then a * b else - 1)"

lemma unat_max_word: "unat (- 1 :: 'l::len word) = 2 ^ LENGTH('l) - 1"
  by (simp add: unsigned_minus_1_eq_mask mask_eq_exp_minus_1)

lemma unat_sat_add [word_facts]:
  "unat (sat_add a b) = min (unat a + unat b) (2 ^ LENGTH('l) - 1)" for a b :: "'l::len word"
  by (auto simp: sat_add_def unat_word_ariths unat_max_word min_def)

lemma unat_sat_sub [word_facts]: "unat (sat_sub a b) = unat a - unat b"
  by (auto simp: sat_sub_def unat_sub word_le_nat_alt)

lemma unat_sat_mul [word_facts]:
  "unat (sat_mul a b) = min (unat a * unat b) (2 ^ LENGTH('l) - 1)" for a b :: "'l::len word"
  by (cases "unat a * unat b < 2 ^ LENGTH('l)")
    (simp_all add: sat_mul_def unat_word_ariths unat_max_word min_absorb1 min_absorb2)

lemma sat_sub_le: "sat_sub a b \<le> a"
  by (simp add: word_le_nat_alt unat_sat_sub)

lemma sat_sub_zero_iff: "sat_sub a b = 0 \<longleftrightarrow> a \<le> b"
  by (metis diff_is_0_eq unat_sat_sub unat_eq_zero word_le_nat_alt)

lemma unat_mult_small: "unat a * unat b < 2 ^ LENGTH('l) \<Longrightarrow> unat (a * b) = unat a * unat b"
  for a b :: "'l::len word"
  by (simp add: unat_word_ariths)

lemma unat_add_small: "unat a + unat b < 2 ^ LENGTH('l) \<Longrightarrow> unat (a + b) = unat a + unat b"
  for a b :: "'l::len word"
  by (simp add: unat_word_ariths)

lemma word_neq_0_unat: "(a :: 'l::len word) \<noteq> 0 \<longleftrightarrow> 0 < unat a"
  by (simp add: unat_gt_0)

lemma unat_min_word: "unat (min a b) = min (unat a) (unat b)" for a b :: "'l::len word"
  by (simp add: min_def word_le_nat_alt)

end
