(* ===== verification/F64.thy ===== *)
theory F64
  imports Text
begin

text \<open>
  Rust's \<open>f64\<close>: IEEE-754 binary64 with rounding to nearest, ties to even.  A finite value is
  the rational number it stands for, so every operation is the exact rational operation
  followed by \<open>rnd\<close>, as the standard defines it; overflow gives an infinity, underflow goes
  through the subnormal grid of step \<open>2^-1074\<close>.  The sign of a zero is not represented, because
  no operation of the program can tell the two zeros apart.  The casts \<open>as u64\<close> and \<open>as u32\<close>
  truncate and saturate, and send a NaN to 0.  \<open>powi\<close> is the repeated squaring of the compiler's
  runtime.
\<close>

datatype f64 = NaN | Inf bool | Fin rat

named_theorems f64_simps \<open>evaluation of the operations on finite values\<close>

section \<open>Rounding\<close>

fun ilog2 :: "int \<Rightarrow> int" where
  "ilog2 n = (if n < 2 then 0 else 1 + ilog2 (n div 2))"

declare ilog2.simps [simp del]

definition pow2 :: "int \<Rightarrow> rat" where
  "pow2 e = (if 0 \<le> e then of_int (two_pow (nat e)) else 1 / of_int (two_pow (nat (- e))))"

text \<open>On binary numerals the logarithm is read off the bits, which keeps evaluation linear.\<close>

primrec num_log :: "num \<Rightarrow> int" where
  "num_log num.One = 0"
| "num_log (num.Bit0 n) = 1 + num_log n"
| "num_log (num.Bit1 n) = 1 + num_log n"

lemma ilog2_small: "n < 2 \<Longrightarrow> ilog2 n = 0"
  by (subst ilog2.simps) simp

lemma ilog2_big: "2 \<le> n \<Longrightarrow> ilog2 n = 1 + ilog2 (n div 2)"
  by (subst ilog2.simps) simp

lemma ilog2_numeral: "ilog2 (numeral n) = num_log n"
proof (induction n)
  case One
  show ?case by (simp add: ilog2_small)
next
  case (Bit0 n)
  have "(2::int) \<le> numeral (num.Bit0 n)" by simp
  then show ?case using Bit0 by (simp add: ilog2_big)
next
  case (Bit1 n)
  have "(2::int) \<le> numeral (num.Bit1 n)" by simp
  then show ?case using Bit1 by (simp add: ilog2_big)
qed

lemma ilog2_code [code]:
  "ilog2 0 = 0" "ilog2 (Int.Neg n) = 0" "ilog2 (Int.Pos n) = num_log n"
  by (simp_all add: ilog2_numeral ilog2_small)

definition rat_log2 :: "rat \<Rightarrow> int" where
  "rat_log2 x =
     (let (n, d) = quotient_of x; e = ilog2 n - ilog2 d in if x < pow2 e then e - 1 else e)"

definition round_half_even :: "rat \<Rightarrow> int" where
  "round_half_even x =
     (let f = \<lfloor>x\<rfloor>; r = x - of_int f
      in if r < 1 / 2 then f else if 1 / 2 < r then f + 1 else if even f then f else f + 1)"

definition ulp_exp :: "rat \<Rightarrow> int" where
  "ulp_exp a = max (rat_log2 a - 52) (- 1074)"

definition rnd :: "rat \<Rightarrow> f64" where
  "rnd x =
     (if x = 0 then Fin 0
      else let q = ulp_exp \<bar>x\<bar>; y = of_int (round_half_even (\<bar>x\<bar> / pow2 q)) * pow2 q
           in if 0 < y \<and> 1024 \<le> rat_log2 y then Inf (x < 0) else Fin (if x < 0 then - y else y))"

text \<open>The test for overflow is \<open>2^1024 \<le> y\<close>, see \<open>rat_log2_ge\<close> below.\<close>

section \<open>Operations\<close>

fun f_neg :: "f64 \<Rightarrow> f64" where
  "f_neg NaN = NaN"
| "f_neg (Inf s) = Inf (\<not> s)"
| "f_neg (Fin x) = Fin (- x)"

fun f_add :: "f64 \<Rightarrow> f64 \<Rightarrow> f64" where
  "f_add (Fin x) (Fin y) = rnd (x + y)"
| "f_add NaN b = NaN"
| "f_add a NaN = NaN"
| "f_add (Inf s) (Inf t) = (if s = t then Inf s else NaN)"
| "f_add (Inf s) (Fin y) = Inf s"
| "f_add (Fin x) (Inf t) = Inf t"

definition f_sub :: "f64 \<Rightarrow> f64 \<Rightarrow> f64" where
  "f_sub a b = f_add a (f_neg b)"

fun f_mul :: "f64 \<Rightarrow> f64 \<Rightarrow> f64" where
  "f_mul (Fin x) (Fin y) = rnd (x * y)"
| "f_mul NaN b = NaN"
| "f_mul a NaN = NaN"
| "f_mul (Inf s) (Inf t) = Inf (s \<noteq> t)"
| "f_mul (Inf s) (Fin y) = (if y = 0 then NaN else Inf (s \<noteq> (y < 0)))"
| "f_mul (Fin x) (Inf t) = (if x = 0 then NaN else Inf (t \<noteq> (x < 0)))"

fun f_div :: "f64 \<Rightarrow> f64 \<Rightarrow> f64" where
  "f_div (Fin x) (Fin y) = (if y = 0 then (if x = 0 then NaN else Inf (x < 0)) else rnd (x / y))"
| "f_div NaN b = NaN"
| "f_div a NaN = NaN"
| "f_div (Inf s) (Inf t) = NaN"
| "f_div (Inf s) (Fin y) = Inf (s \<noteq> (y < 0))"
| "f_div (Fin x) (Inf t) = Fin 0"

fun f_lt :: "f64 \<Rightarrow> f64 \<Rightarrow> bool" where
  "f_lt (Fin x) (Fin y) = (x < y)"
| "f_lt NaN b = False"
| "f_lt a NaN = False"
| "f_lt (Inf s) (Inf t) = (s \<and> \<not> t)"
| "f_lt (Inf s) (Fin y) = s"
| "f_lt (Fin x) (Inf t) = (\<not> t)"

definition f_eq :: "f64 \<Rightarrow> f64 \<Rightarrow> bool" where
  "f_eq a b \<longleftrightarrow> a \<noteq> NaN \<and> a = b"

definition f_le :: "f64 \<Rightarrow> f64 \<Rightarrow> bool" where
  "f_le a b \<longleftrightarrow> f_lt a b \<or> f_eq a b"

definition f_max :: "f64 \<Rightarrow> f64 \<Rightarrow> f64" where
  "f_max a b = (if a = NaN then b else if b = NaN then a else if f_lt a b then b else a)"

definition f_min :: "f64 \<Rightarrow> f64 \<Rightarrow> f64" where
  "f_min a b = (if a = NaN then b else if b = NaN then a else if f_lt b a then b else a)"

fun is_finite :: "f64 \<Rightarrow> bool" where
  "is_finite (Fin x) = True"
| "is_finite (Inf s) = False"
| "is_finite NaN = False"

definition f_of_int :: "int \<Rightarrow> f64" where
  "f_of_int i = rnd (of_int i)"

fun f_floor :: "f64 \<Rightarrow> f64" where
  "f_floor (Fin x) = Fin (of_int \<lfloor>x\<rfloor>)"
| "f_floor (Inf s) = Inf s"
| "f_floor NaN = NaN"

text \<open>The cast \<open>as uN\<close>, \<open>bound\<close> being the largest value of the type.\<close>

fun f_to_unsigned :: "nat \<Rightarrow> f64 \<Rightarrow> nat" where
  "f_to_unsigned bound NaN = 0"
| "f_to_unsigned bound (Inf s) = (if s then 0 else bound)"
| "f_to_unsigned bound (Fin x) = min (nat \<lfloor>x\<rfloor>) bound"

definition f_as_u64 :: "f64 \<Rightarrow> u64" where
  "f_as_u64 x = of_nat (f_to_unsigned max_u64 x)"

definition f_as_u32 :: "f64 \<Rightarrow> u32" where
  "f_as_u32 x = of_nat (f_to_unsigned max_u32 x)"

fun powi_loop :: "f64 \<Rightarrow> f64 \<Rightarrow> nat \<Rightarrow> f64" where
  "powi_loop r a b =
     (let r' = (if odd b then f_mul r a else r)
      in if b < 2 then r' else powi_loop r' (f_mul a a) (b div 2))"

declare powi_loop.simps [simp del]

definition f_powi :: "f64 \<Rightarrow> int \<Rightarrow> f64" where
  "f_powi a b =
     (let r = powi_loop (Fin 1) a (nat \<bar>b\<bar>) in if b < 0 then f_div (Fin 1) r else r)"

section \<open>Reading and printing\<close>

definition strip_sign :: "string \<Rightarrow> bool \<times> string" where
  "strip_sign s = (case s of [] \<Rightarrow> (False, [])
     | c # r \<Rightarrow> if c = CHR ''-'' then (True, r) else if c = CHR ''+'' then (False, r) else (False, s))"

definition parse_exponent :: "string \<Rightarrow> int option" where
  "parse_exponent s = (case s of [] \<Rightarrow> Some 0
     | c # r \<Rightarrow>
         if c = CHR ''e'' \<or> c = CHR ''E'' then
           (let (neg, d) = strip_sign r in
            if all_digits d then Some (if neg then - int (digits_val d) else int (digits_val d))
            else None)
         else None)"

definition parse_magnitude :: "string \<Rightarrow> rat option" where
  "parse_magnitude s =
     (let ip = takeWhile is_digit s; r = dropWhile is_digit s;
          (fp, e) = (case r of [] \<Rightarrow> ([], [])
             | c # r' \<Rightarrow> if c = CHR ''.'' then (takeWhile is_digit r', dropWhile is_digit r') else ([], r))
      in if ip @ fp = [] then None
         else case parse_exponent e of None \<Rightarrow> None
           | Some x \<Rightarrow> Some (of_nat (digits_val (ip @ fp)) * power_int 10 (x - int (length fp))))"

definition f_parse :: "string \<Rightarrow> f64 option" where
  "f_parse s =
     (let (neg, r) = strip_sign s in
      if lower r = ''inf'' \<or> lower r = ''infinity'' then Some (Inf neg)
      else if lower r = ''nan'' then Some NaN
      else case parse_magnitude r of None \<Rightarrow> None | Some m \<Rightarrow> Some (rnd (if neg then - m else m)))"

definition pad_left :: "nat \<Rightarrow> string \<Rightarrow> string" where
  "pad_left k s = replicate (k - length s) (CHR ''0'') @ s"

text \<open>\<open>format!("{x:.k}")\<close>: exactly \<open>k\<close> decimals of the exact value, ties to even.\<close>

fun f_show_fixed :: "nat \<Rightarrow> f64 \<Rightarrow> string" where
  "f_show_fixed k NaN = ''NaN''"
| "f_show_fixed k (Inf s) = (if s then ''-inf'' else ''inf'')"
| "f_show_fixed k (Fin x) =
     (let n = nat (round_half_even (\<bar>x\<bar> * 10 ^ k));
          body = (if k = 0 then show_nat n
                  else show_nat (n div 10 ^ k) @ ''.'' @ pad_left k (show_nat (n mod 10 ^ k)))
      in if x < 0 then ''-'' @ body else body)"

section \<open>Powers of two and logarithms\<close>

lemma pow2_power_int: "pow2 e = power_int 2 e"
  by (simp add: pow2_def two_pow_def power_int_def inverse_eq_divide power_one_over)

lemma pow2_pos [simp]: "0 < pow2 e"
  by (simp add: pow2_power_int)

lemma pow2_nonneg [simp]: "0 \<le> pow2 e"
  by (simp add: pow2_power_int)

lemma pow2_ne [simp]: "pow2 e \<noteq> 0"
  by (simp add: pow2_power_int)

lemma pow2_add: "pow2 (a + b) = pow2 a * pow2 b"
  by (simp add: pow2_power_int power_int_add)

lemma pow2_diff: "pow2 (a - b) = pow2 a / pow2 b"
  by (simp add: pow2_power_int power_int_diff)

lemma pow2_succ: "pow2 (a + 1) = 2 * pow2 a"
  by (simp add: pow2_power_int power_int_add)

lemma pow2_mono: "a \<le> b \<Longrightarrow> pow2 a \<le> pow2 b"
  by (simp add: pow2_power_int power_int_increasing)

lemma pow2_less_iff: "pow2 a < pow2 b \<longleftrightarrow> a < b"
  by (metis linorder_not_le pow2_mono pow2_power_int power_int_strict_increasing
      one_less_numeral_iff semiring_norm(76))

lemma pow2_nat: "pow2 (int k) = 2 ^ k"
  by (simp add: pow2_power_int)

lemma ilog2_nonneg: "0 \<le> ilog2 n"
proof (induction n rule: ilog2.induct)
  case (1 n)
  then show ?case by (cases "n < 2") (simp_all add: ilog2_small ilog2_big)
qed

lemma ilog2_bounds: "0 < n \<Longrightarrow> pow2 (ilog2 n) \<le> of_int n \<and> of_int n < pow2 (ilog2 n + 1)"
proof (induction n rule: ilog2.induct)
  case (1 n)
  show ?case
  proof (cases "n < 2")
    case True
    with 1 have "n = 1" by simp
    then show ?thesis by (simp add: ilog2_small pow2_power_int)
  next
    case False
    with 1 have ih: "pow2 (ilog2 (n div 2)) \<le> of_int (n div 2)"
      "of_int (n div 2) < pow2 (ilog2 (n div 2) + 1)" by auto
    have e: "ilog2 n = ilog2 (n div 2) + 1" using False by (simp add: ilog2_big)
    obtain k where k: "ilog2 (n div 2) = int k"
      using ilog2_nonneg by (metis nonneg_int_cases)
    have "pow2 (ilog2 (n div 2)) = of_int (2 ^ k)" "pow2 (ilog2 (n div 2) + 1) = of_int (2 ^ (k + 1))"
      by (simp_all add: k pow2_succ pow2_nat)
    with ih have "(2::int) ^ k \<le> n div 2" "n div 2 < 2 ^ (k + 1)"
      by (simp_all only: of_int_le_iff of_int_less_iff)
    then have "(2::int) ^ (k + 1) \<le> n" "n < 2 ^ (k + 2)"
      by (simp_all add: power_add)
    then have "rat_of_int (2 ^ (k + 1)) \<le> of_int n" "rat_of_int n < of_int (2 ^ (k + 2))"
      by (simp_all only: of_int_le_iff of_int_less_iff)
    moreover have "pow2 (ilog2 n) = of_int (2 ^ (k + 1))" "pow2 (ilog2 n + 1) = of_int (2 ^ (k + 2))"
      using pow2_nat [of "k + 1"] pow2_nat [of "k + 2"] by (simp_all add: e k add.commute)
    ultimately show ?thesis by simp
  qed
qed

lemma rat_log2_bounds:
  assumes "0 < x"
  shows "pow2 (rat_log2 x) \<le> x" "x < pow2 (rat_log2 x + 1)"
proof -
  obtain n d where q: "quotient_of x = (n, d)" by (cases "quotient_of x")
  have x: "x = of_int n / of_int d" and d: "0 < d"
    using quotient_of_div [OF q] quotient_of_denom_pos [OF q] by auto
  have n: "0 < n" using assms x d by (simp add: zero_less_divide_iff)
  define a b where "a = ilog2 n" and "b = ilog2 d"
  have A: "pow2 a \<le> of_int n" "of_int n < pow2 (a + 1)"
    and B: "pow2 b \<le> of_int d" "of_int d < pow2 (b + 1)"
    using ilog2_bounds [OF n] ilog2_bounds [OF d] by (simp_all add: a_def b_def)
  have lo: "pow2 (a - b - 1) < x"
  proof -
    have "pow2 (a - b - 1) * of_int d < pow2 (a - b - 1) * pow2 (b + 1)"
      using B by simp
    also have "\<dots> = pow2 a" by (simp add: pow2_add [symmetric])
    finally show ?thesis using A d by (simp add: x pos_less_divide_eq)
  qed
  have hi: "x < pow2 (a - b + 1)"
  proof -
    have "pow2 (a + 1) = pow2 (a - b + 1) * pow2 b" by (simp add: pow2_add [symmetric])
    also have "\<dots> \<le> pow2 (a - b + 1) * of_int d" using B by simp
    finally show ?thesis using A d by (simp add: x pos_divide_less_eq)
  qed
  have r: "rat_log2 x = (if x < pow2 (a - b) then a - b - 1 else a - b)"
    by (simp add: rat_log2_def q a_def b_def Let_def)
  show "pow2 (rat_log2 x) \<le> x" "x < pow2 (rat_log2 x + 1)"
    using lo hi by (auto simp: r)
qed

lemma rat_log2_ge: "0 < x \<Longrightarrow> e \<le> rat_log2 x \<longleftrightarrow> pow2 e \<le> x"
proof -
  assume x: "0 < x"
  note B = rat_log2_bounds [OF x]
  show ?thesis
  proof
    assume "e \<le> rat_log2 x"
    then show "pow2 e \<le> x" using B(1) pow2_mono order_trans by blast
  next
    assume "pow2 e \<le> x"
    then have "pow2 e < pow2 (rat_log2 x + 1)" using B(2) by (rule le_less_trans)
    then show "e \<le> rat_log2 x" by (simp add: pow2_less_iff)
  qed
qed

section \<open>Accuracy of the rounding\<close>

lemma round_half_even_int [simp]: "round_half_even (of_int i) = i"
  by (simp add: round_half_even_def)

lemma round_half_even_error: "\<bar>of_int (round_half_even x) - x\<bar> \<le> 1 / 2"
proof -
  have "of_int \<lfloor>x\<rfloor> \<le> x" "x < of_int \<lfloor>x\<rfloor> + 1" by linarith+
  then have "x - of_int \<lfloor>x\<rfloor> < 1 / 2 \<Longrightarrow> ?thesis" "1 / 2 < x - of_int \<lfloor>x\<rfloor> \<Longrightarrow> ?thesis"
    "x - of_int \<lfloor>x\<rfloor> = 1 / 2 \<Longrightarrow> ?thesis"
    by (simp_all add: round_half_even_def Let_def abs_le_iff)
  then show ?thesis by (cases "x - of_int \<lfloor>x\<rfloor>" "1 / 2 :: rat" rule: linorder_cases)
qed

lemma rnd_zero [simp]: "rnd 0 = Fin 0"
  by (simp add: rnd_def)

text \<open>Values of the grid are their own rounding: every integer up to \<open>2^53\<close> is exact.\<close>

lemma rnd_grid:
  assumes x: "0 < x" "x < pow2 1024" and m: "x = of_int m * pow2 (ulp_exp x)"
  shows "rnd x = Fin x"
proof -
  let ?q = "ulp_exp x"
  have "x / pow2 ?q = of_int m" by (subst m) simp
  then have "of_int (round_half_even (\<bar>x\<bar> / pow2 ?q)) * pow2 ?q = x"
    using x m by simp
  moreover have "\<not> 1024 \<le> rat_log2 x" using x by (simp add: rat_log2_ge)
  ultimately show ?thesis using x by (simp add: rnd_def Let_def)
qed

lemma rnd_neg: "0 < x \<Longrightarrow> rnd (- x) = f_neg (rnd x)"
  by (simp add: rnd_def Let_def)

lemma rnd_nat_exact:
  assumes n: "0 < n" "n \<le> 2 ^ 53"
  shows "rnd (of_int n) = Fin (of_int n)"
proof (rule rnd_grid)
  let ?x = "rat_of_int n" and ?L = "rat_log2 (rat_of_int n)"
  have le53: "?x \<le> pow2 53"
    using n by (simp add: pow2_power_int)
  also have "\<dots> < pow2 1024" by (simp add: pow2_less_iff)
  finally show "?x < pow2 1024" .
  show "0 < ?x" using n by simp
  note B = rat_log2_bounds [OF \<open>0 < ?x\<close>]
  have L: "?L \<le> 53" using B(1) le53 pow2_less_iff [of 53 ?L] by (meson leD le_less_trans not_le order_trans)
  have "0 \<le> ?L" using n by (simp add: rat_log2_ge pow2_power_int)
  then have q: "ulp_exp ?x = ?L - 52" by (simp add: ulp_exp_def)
  show "?x = of_int (if ?L = 53 then 2 ^ 52 else n * 2 ^ nat (52 - ?L)) * pow2 (ulp_exp ?x)"
  proof (cases "?L = 53")
    case True
    with B(1) le53 have "?x = pow2 53" by simp
    moreover have "ulp_exp ?x = 1" using q True by simp
    ultimately show ?thesis using True by (simp add: pow2_power_int)
  next
    case False
    with L have "?L \<le> 52" by simp
    then obtain k where "52 - ?L = int k" by (metis diff_ge_0_iff_ge nonneg_int_cases)
    then have "ulp_exp ?x = - int k" "nat (52 - ?L) = k" using q by simp_all
    with False show ?thesis by (simp add: pow2_power_int power_int_minus)
  qed
qed

lemma rnd_int_exact: "\<bar>n\<bar> \<le> 2 ^ 53 \<Longrightarrow> rnd (of_int n) = Fin (of_int n)"
proof (cases n "0 :: int" rule: linorder_cases)
  case less
  assume "\<bar>n\<bar> \<le> 2 ^ 53"
  with less show ?thesis using rnd_nat_exact [of "- n"] rnd_neg [of "of_int (- n)"] by simp
qed (auto simp: rnd_nat_exact)

lemma rnd_nat: "n \<le> 2 ^ 53 \<Longrightarrow> rnd (of_nat n) = Fin (of_nat n)"
  using rnd_int_exact [of "int n"] by simp

lemma rnd_numeral: "numeral n \<le> (2 :: int) ^ 53 \<Longrightarrow> rnd (numeral n) = Fin (numeral n)"
  using rnd_int_exact [of "numeral n"] by simp

text \<open>In the normal range the relative error is at most half a unit in the last place.\<close>

lemma rnd_error:
  assumes x: "pow2 (- 1022) \<le> x" "x < pow2 1023"
  obtains y where "rnd x = Fin y" "0 < y" "\<bar>y - x\<bar> \<le> x * pow2 (- 53)"
proof -
  let ?q = "ulp_exp x" and ?L = "rat_log2 x"
  have pos: "0 < x" using x pow2_pos less_le_trans by blast
  note B = rat_log2_bounds [OF pos]
  have "- 1022 \<le> ?L" using x pos by (simp add: rat_log2_ge)
  then have q: "?q = ?L - 52" by (simp add: ulp_exp_def)
  define m where "m = round_half_even (x / pow2 ?q)"
  define y where "y = of_int m * pow2 ?q"
  have "\<bar>of_int m - x / pow2 ?q\<bar> * pow2 ?q \<le> 1 / 2 * pow2 ?q"
    using round_half_even_error [of "x / pow2 ?q"] by (intro mult_right_mono) (simp_all add: m_def)
  moreover have "\<bar>of_int m - x / pow2 ?q\<bar> * pow2 ?q = \<bar>y - x\<bar>"
    by (simp add: y_def abs_mult_pos left_diff_distrib)
  moreover have "1 / 2 * pow2 ?q = pow2 ?L * pow2 (- 53)"
    using pow2_add [of ?q 52] pow2_add [of 52 "- 53"]
    by (simp add: q pow2_power_int power_int_minus)
  moreover have "pow2 ?L * pow2 (- 53) \<le> x * pow2 (- 53)"
    using B by (intro mult_right_mono) simp_all
  ultimately have err: "\<bar>y - x\<bar> \<le> x * pow2 (- 53)" by linarith
  have small: "x * pow2 (- 53) \<le> x * (1 / 2)"
    using pos by (intro mult_left_mono) (simp_all add: pow2_power_int power_int_minus)
  have y0: "0 < y" using err small pos by linarith
  have "y < 2 * x" using err small pos by linarith
  also have "\<dots> < pow2 1024" using x pow2_succ [of 1023] by simp
  finally have "\<not> 1024 \<le> rat_log2 y" using y0 by (simp add: rat_log2_ge)
  then have "rnd x = Fin y"
    using pos by (simp add: rnd_def Let_def y_def m_def)
  from this y0 err show ?thesis by (rule that)
qed

lemma rnd_bounded:
  assumes "\<bar>x\<bar> \<le> pow2 1000"
  shows "\<exists>y. rnd x = Fin y \<and> \<bar>y\<bar> \<le> 2 * \<bar>x\<bar> + 1"
proof (cases "x = 0")
  case False
  define a where "a = \<bar>x\<bar>"
  have a: "0 < a" "a \<le> pow2 1000" using False assms by (simp_all add: a_def)
  let ?q = "ulp_exp a"
  define y where "y = of_int (round_half_even (a / pow2 ?q)) * pow2 ?q"
  have q: "pow2 ?q \<le> a + 1"
  proof (cases "rat_log2 a - 52 \<le> - 1074")
    case True
    then have "pow2 ?q = pow2 (- 1074)" by (simp add: ulp_exp_def)
    also have "\<dots> \<le> 1" by (simp add: pow2_power_int power_int_minus)
    finally show ?thesis using a by linarith
  next
    case False
    then have "?q = rat_log2 a - 52" by (simp add: ulp_exp_def)
    then have "pow2 ?q * pow2 52 = pow2 (rat_log2 a)" by (simp flip: pow2_add)
    moreover have "pow2 (rat_log2 a) \<le> a" using rat_log2_bounds [OF a(1)] by simp
    moreover have "pow2 ?q * 1 \<le> pow2 ?q * pow2 52"
      using pow2_pos [of ?q] by (intro mult_left_mono) (simp_all add: pow2_power_int)
    ultimately show ?thesis using a by linarith
  qed
  have "\<bar>of_int (round_half_even (a / pow2 ?q)) - a / pow2 ?q\<bar> * pow2 ?q \<le> 1 / 2 * pow2 ?q"
    using round_half_even_error [of "a / pow2 ?q"] pow2_pos [of ?q] by (intro mult_right_mono) simp_all
  moreover have "\<bar>of_int (round_half_even (a / pow2 ?q)) - a / pow2 ?q\<bar> * pow2 ?q = \<bar>y - a\<bar>"
    using pow2_pos [of ?q] by (simp add: y_def abs_mult_pos left_diff_distrib)
  ultimately have "\<bar>y - a\<bar> \<le> 1 / 2 * pow2 ?q" by simp
  also have "\<dots> \<le> (a + 1) / 2" using q by simp
  finally have err: "\<bar>y - a\<bar> \<le> (a + 1) / 2" .
  have "0 \<le> y"
  proof -
    have "0 \<le> round_half_even (a / pow2 ?q)"
      using a pow2_pos [of ?q] by (auto simp: round_half_even_def Let_def)
    then show ?thesis using pow2_pos [of ?q] by (simp add: y_def)
  qed
  moreover have y: "y \<le> 2 * a + 1"
  proof -
    have "y - a \<le> (a + 1) / 2" using err abs_le_D1 by blast
    then show ?thesis using a(1) by (simp add: field_simps)
  qed
  moreover have "2 * a + 1 < pow2 1024"
  proof -
    have "2 * a + 1 \<le> 2 * pow2 1000 + 1" using a by simp
    also have "\<dots> < pow2 1024" by (simp add: pow2_power_int)
    finally show ?thesis .
  qed
  ultimately have "0 < y \<Longrightarrow> \<not> 1024 \<le> rat_log2 y" by (simp add: rat_log2_ge)
  then have "rnd x = Fin (if x < 0 then - y else y)"
    using False by (auto simp: rnd_def Let_def y_def a_def)
  then show ?thesis using y \<open>0 \<le> y\<close> by (auto simp: a_def)
qed simp
text \<open>Finite values of bounded magnitude, so that sums and products are known to stay finite.\<close>

definition f_within :: "rat \<Rightarrow> f64 \<Rightarrow> bool" where
  "f_within b x \<longleftrightarrow> (\<exists>y. x = Fin y \<and> \<bar>y\<bar> \<le> b)"

lemma f_within_finite: "f_within b x \<Longrightarrow> is_finite x"
  by (auto simp: f_within_def)

lemma f_within_mono: "f_within b x \<Longrightarrow> b \<le> c \<Longrightarrow> f_within c x"
  unfolding f_within_def by (blast intro: order_trans)

lemma f_within_rnd: "\<bar>x\<bar> \<le> b \<Longrightarrow> b \<le> pow2 1000 \<Longrightarrow> f_within (2 * b + 1) (rnd x)"
  using rnd_bounded [of x] unfolding f_within_def by fastforce

lemma f_within_add: "f_within b x \<Longrightarrow> f_within c y \<Longrightarrow> b + c \<le> pow2 1000 \<Longrightarrow> f_within (2 * (b + c) + 1) (f_add x y)"
proof -
  assume "f_within b x" "f_within c y" and le: "b + c \<le> pow2 1000"
  then obtain p q where "x = Fin p" "y = Fin q" "\<bar>p\<bar> \<le> b" "\<bar>q\<bar> \<le> c" by (auto simp: f_within_def)
  moreover from this have "\<bar>p + q\<bar> \<le> b + c" using abs_triangle_ineq [of p q] by linarith
  ultimately show ?thesis using f_within_rnd [of "p + q" "b + c"] le by simp
qed

lemma f_within_mul: "f_within b x \<Longrightarrow> f_within c y \<Longrightarrow> b * c \<le> pow2 1000 \<Longrightarrow> f_within (2 * (b * c) + 1) (f_mul x y)"
proof -
  assume "f_within b x" "f_within c y" and le: "b * c \<le> pow2 1000"
  then obtain p q where "x = Fin p" "y = Fin q" "\<bar>p\<bar> \<le> b" "\<bar>q\<bar> \<le> c" by (auto simp: f_within_def)
  moreover from this have "\<bar>p * q\<bar> \<le> b * c" by (simp add: abs_mult mult_mono')
  ultimately show ?thesis using f_within_rnd [of "p * q" "b * c"] le by simp
qed

end
