(* ===== verification/Extern.thy ===== *)
theory Extern
  imports Config
begin

text \<open>
  What the program uses of code that is not in the repository.

  \<open>lib\<close> collects the pure functions of third-party crates (alloy addresses and integers, uuid,
  serde_json, hex, AES-GCM, transaction signing, BigDecimal, URL parsing and so on).
  \<open>node\<close> collects the answers of an EVM node: every answer may depend on the number of the
  remote call, so nothing relates two answers.  \<open>env\<close> puts both together with the
  configuration, the behaviour of the database connection, the random generators, the
  clock, the message bus and Redis.  Nothing is assumed about any of these functions here; a theorem that relies on
  documented behaviour of one of them names it as a hypothesis.

  JSON values (\<open>serde_json::Value\<close>) are the datatype \<open>json\<close>; an object is the list of its
  members, found by the first occurrence of a key.
\<close>

section \<open>JSON values\<close>

datatype json =
    JNull
  | JBool bool
  | JPos u64
  | JNeg int
  | JFloat f64
  | JStr string
  | JArr "json list"
  | JObj "(string \<times> json) list"

fun j_get :: "string \<Rightarrow> json \<Rightarrow> json option" where
  "j_get k (JObj ms) = map_of ms k"
| "j_get k j = None"

fun j_array :: "json \<Rightarrow> json list option" where
  "j_array (JArr xs) = Some xs"
| "j_array j = None"

fun j_str :: "json \<Rightarrow> string option" where
  "j_str (JStr s) = Some s"
| "j_str j = None"

fun j_u64 :: "json \<Rightarrow> u64 option" where
  "j_u64 (JPos n) = Some n"
| "j_u64 j = None"

definition opt_bind :: "'a option \<Rightarrow> ('a \<Rightarrow> 'b option) \<Rightarrow> 'b option" where
  [rt_simps]: "opt_bind x f = (case x of None \<Rightarrow> None | Some v \<Rightarrow> f v)"

definition opt_or :: "'a \<Rightarrow> 'a option \<Rightarrow> 'a" where
  [rt_simps]: "opt_or d x = (case x of None \<Rightarrow> d | Some v \<Rightarrow> v)"

definition opt_str :: "string option \<Rightarrow> json" where
  "opt_str x = (case x of None \<Rightarrow> JNull | Some s \<Rightarrow> JStr s)"

lemma opt_bind_Some [simp]: "opt_bind x f = Some v \<longleftrightarrow> (\<exists>u. x = Some u \<and> f u = Some v)"
  by (simp add: opt_bind_def split: option.splits)

lemma opt_or_Some [simp]: "opt_or d (Some v) = v"
  by (simp add: opt_or_def)

lemma opt_or_None [simp]: "opt_or d None = d"
  by (simp add: opt_or_def)

section \<open>Library functions\<close>

type_synonym uuid = "128 word"
type_synonym b256 = "256 word"
type_synonym byte = "8 word"
type_synonym err = string

text \<open>An EIP-155 transaction request, as the engine and the gateway build them.\<close>

record tx_request =
  tx_from :: addr
  tx_to :: addr
  tx_value :: u256
  tx_input :: "byte list"
  tx_nonce :: u64
  tx_chain_id :: u64
  tx_gas_limit :: "u64 option"
  tx_gas_price :: "128 word option"

text \<open>Contract calls whose ABI encoding is generated by the \<open>sol!\<close> macro.\<close>

datatype sol_call =
    Approve addr u256
  | Transfer addr u256
  | SwapExactETHForTokens u256 "addr list" addr u256
  | SwapExactTokensForETH u256 u256 "addr list" addr u256
  | SwapExactTokensForTokens u256 u256 "addr list" addr u256
  | ExactInput "byte list" addr u256 u256 u256

record lib =
  addr_parse :: "string \<Rightarrow> addr option"
  addr_show :: "addr \<Rightarrow> string"
  addr_debug :: "addr \<Rightarrow> string"
  b256_parse :: "string \<Rightarrow> b256 option"
  b256_debug :: "b256 \<Rightarrow> string"
  u256_radix :: "nat \<Rightarrow> string \<Rightarrow> u256 option"
  u256_show :: "u256 \<Rightarrow> string"
  uuid_parse :: "string \<Rightarrow> uuid option"
  uuid_show :: "uuid \<Rightarrow> string"
  json_parse :: "string \<Rightarrow> json option"
  json_show :: "json \<Rightarrow> string"
  decimal_parse :: "string \<Rightarrow> rat option"
  decimal_show :: "rat \<Rightarrow> string"
  url_ok :: "string \<Rightarrow> bool"
  time_show :: "int \<Rightarrow> string"
  hex_encode :: "byte list \<Rightarrow> string"
  hex_decode :: "string \<Rightarrow> byte list option"
  abi_encode :: "sol_call \<Rightarrow> byte list"
  tx_to_json :: "tx_request \<Rightarrow> byte list option"
  tx_of_json :: "byte list \<Rightarrow> tx_request option"
  aead_seal :: "byte list \<Rightarrow> byte list \<Rightarrow> byte list \<Rightarrow> byte list option"
  aead_open :: "byte list \<Rightarrow> byte list \<Rightarrow> byte list \<Rightarrow> byte list option"
  key_ok :: "byte list \<Rightarrow> bool"
  key_addr :: "byte list \<Rightarrow> addr"
  sign_tx :: "byte list \<Rightarrow> tx_request \<Rightarrow> (byte list \<times> b256) option"

section \<open>Answers of an EVM node\<close>

text \<open>A receipt is the JSON value the code inspects; the other answers are typed by the ABI.\<close>

record node =
  rpc_token0 :: "string \<Rightarrow> addr \<Rightarrow> nat \<Rightarrow> err + addr"
  rpc_token1 :: "string \<Rightarrow> addr \<Rightarrow> nat \<Rightarrow> err + addr"
  rpc_reserves :: "string \<Rightarrow> addr \<Rightarrow> nat \<Rightarrow> err + (112 word \<times> 112 word \<times> u32)"
  rpc_liquidity :: "string \<Rightarrow> addr \<Rightarrow> nat \<Rightarrow> err + 128 word"
  rpc_get_pair :: "string \<Rightarrow> addr \<Rightarrow> addr \<Rightarrow> addr \<Rightarrow> nat \<Rightarrow> err + addr"
  rpc_get_pool :: "string \<Rightarrow> addr \<Rightarrow> addr \<Rightarrow> addr \<Rightarrow> u32 \<Rightarrow> nat \<Rightarrow> err + addr"
  rpc_balance_of :: "string \<Rightarrow> addr \<Rightarrow> addr \<Rightarrow> nat \<Rightarrow> err + u256"
  rpc_allowance :: "string \<Rightarrow> addr \<Rightarrow> addr \<Rightarrow> addr \<Rightarrow> nat \<Rightarrow> err + u256"
  rpc_total_supply :: "string \<Rightarrow> addr \<Rightarrow> nat \<Rightarrow> err + u256"
  rpc_decimals :: "string \<Rightarrow> addr \<Rightarrow> nat \<Rightarrow> err + byte"
  rpc_usd_price :: "string \<Rightarrow> addr \<Rightarrow> addr \<Rightarrow> addr \<Rightarrow> byte \<Rightarrow> nat \<Rightarrow> err + u256"
  rpc_amounts_out :: "string \<Rightarrow> addr \<Rightarrow> u256 \<Rightarrow> addr list \<Rightarrow> nat \<Rightarrow> err + u256 list"
  rpc_feed :: "string \<Rightarrow> addr \<Rightarrow> nat \<Rightarrow> err + (byte \<times> int)"
  rpc_native_balance :: "string \<Rightarrow> addr \<Rightarrow> nat \<Rightarrow> err + u256"
  rpc_gas_price :: "string \<Rightarrow> nat \<Rightarrow> err + 128 word"
  rpc_nonce :: "string \<Rightarrow> addr \<Rightarrow> nat \<Rightarrow> err + u64"
  rpc_estimate_gas :: "string \<Rightarrow> tx_request \<Rightarrow> nat \<Rightarrow> err + u64"
  rpc_send_raw :: "string \<Rightarrow> byte list \<Rightarrow> nat \<Rightarrow> err + b256"
  rpc_receipt :: "string \<Rightarrow> b256 \<Rightarrow> nat \<Rightarrow> err + json option"

section \<open>The environment of a service\<close>

text \<open>
  A statement sent to the database either runs and is answered, fails before it runs, or
  runs while its answer is lost.
\<close>

datatype db_reply = Served | Refused err | Lost err

record env =
  cfg :: settings
  lib_of :: lib
  node_of :: node
  db_reply :: "nat \<Rightarrow> db_reply"
  fresh_uuid :: "nat \<Rightarrow> uuid"
  random_bytes :: "nat \<Rightarrow> byte list"
  db_now :: "nat \<Rightarrow> int"
  unix_secs :: "nat \<Rightarrow> u64"
  elapsed_ms :: "nat \<Rightarrow> nat"
  grpc_down :: "nat \<Rightarrow> err option"
  publish_fails :: "nat \<Rightarrow> bool"
  redis_fails :: "nat \<Rightarrow> bool"

end
