(* ===== verification/Schema.thy ===== *)
theory Schema
  imports Extern "HOL-Library.List_Lexorder" "HOL-Library.Char_ord" "HOL-Library.Product_Lexorder"
begin

text \<open>
  The database of \<open>migrations/*.sql\<close> and the world the services share.

  One record per table, enums as datatypes, a table as the list of its rows in insertion
  order.  \<open>world\<close> holds the tables, the NATS messages published, the raw transactions an EVM
  node has accepted, the e-mails handed to the mailer, the keys of the gateway's Redis, and a clock in milliseconds.  \<open>sql\<close>,
  \<open>remote\<close>, \<open>publish\<close> and \<open>sleep_ms\<close> are the only ways in which the services touch it.
  Column types are kept: \<open>NUMERIC(78,0)\<close> is an integer below \<open>10^78\<close>, \<open>NUMERIC(5,2)\<close> a rational
  with two decimals.  Text compares by bytes.
\<close>

section \<open>Enumerations\<close>

datatype session_status = S_Pending | S_Active | S_Paused | S_Completed | S_Cancelled | S_Error

datatype trade_status = T_Submitted | T_Confirmed | T_Failed | T_Routing

datatype user_role = Admin | Common

fun show_session_status :: "session_status \<Rightarrow> string" where
  "show_session_status S_Pending = ''pending''"
| "show_session_status S_Active = ''active''"
| "show_session_status S_Paused = ''paused''"
| "show_session_status S_Completed = ''completed''"
| "show_session_status S_Cancelled = ''cancelled''"
| "show_session_status S_Error = ''error''"

definition session_statuses :: "session_status list" where
  "session_statuses = [S_Pending, S_Active, S_Paused, S_Completed, S_Cancelled, S_Error]"

definition session_status_of :: "string \<Rightarrow> session_status option" where
  "session_status_of s = find (\<lambda>st. show_session_status st = s) session_statuses"

fun show_trade_status :: "trade_status \<Rightarrow> string" where
  "show_trade_status T_Submitted = ''submitted''"
| "show_trade_status T_Confirmed = ''confirmed''"
| "show_trade_status T_Failed = ''failed''"
| "show_trade_status T_Routing = ''routing''"

fun show_role :: "user_role \<Rightarrow> string" where
  "show_role Admin = ''admin''"
| "show_role Common = ''common''"

definition role_of :: "string \<Rightarrow> user_role option" where
  "role_of s = (if s = ''admin'' then Some Admin else if s = ''common'' then Some Common else None)"

definition chain_ids :: "string list" where
  "chain_ids = [''ethereum'', ''base'', ''arbitrum'', ''bsc'', ''polygon'', ''optimism'']"

lemma session_status_of_show [simp]: "session_status_of (show_session_status s) = Some s"
  by (cases s) (simp_all add: session_status_of_def session_statuses_def)

lemma session_status_of_Some: "session_status_of s = Some st \<Longrightarrow> show_session_status st = s"
  by (auto simp: session_status_of_def dest: find_Some_in)

lemma role_of_show [simp]: "role_of (show_role r) = Some r"
  by (cases r) (simp_all add: role_of_def)

text \<open>Pool types sort as their texts do, for the \<open>ORDER BY\<close> of the pool queries.\<close>

instantiation pool_type :: linorder
begin

definition less_eq_pool_type :: "pool_type \<Rightarrow> pool_type \<Rightarrow> bool" where
  "p \<le> q \<longleftrightarrow> p = V2 \<or> q = V3"

definition less_pool_type :: "pool_type \<Rightarrow> pool_type \<Rightarrow> bool" where
  "p < q \<longleftrightarrow> p = V2 \<and> q = V3"

instance
proof
  fix p q r :: pool_type
  show "p < q \<longleftrightarrow> p \<le> q \<and> \<not> q \<le> p"
    by (cases p; cases q) (simp_all add: less_pool_type_def less_eq_pool_type_def)
  show "p \<le> p" by (cases p) (simp_all add: less_eq_pool_type_def)
  show "p \<le> q \<Longrightarrow> q \<le> r \<Longrightarrow> p \<le> r" by (auto simp: less_eq_pool_type_def)
  show "p \<le> q \<Longrightarrow> q \<le> p \<Longrightarrow> p = q" by (auto simp: less_eq_pool_type_def)
  show "p \<le> q \<or> q \<le> p" by (cases p) (auto simp: less_eq_pool_type_def)
qed

end

section \<open>Tables\<close>

record user_row =
  u_id :: uuid
  u_email :: string
  u_password_hash :: string
  u_totp_secret :: "byte list option"
  u_totp_enabled :: bool
  u_created :: int
  u_email_verified :: bool
  u_vtoken :: "string option"
  u_vexpires :: "int option"
  u_role :: user_role
  u_username :: "string option"

record wallet_row =
  w_id :: uuid
  w_user :: uuid
  w_chain :: string
  w_address :: string
  w_key :: "byte list"
  w_nonce :: "byte list"
  w_created :: int

record session_row =
  s_id :: uuid
  s_user :: uuid
  s_wallet :: uuid
  s_chain :: string
  s_status :: session_status
  s_sell_token :: string
  s_sell_symbol :: string
  s_sell_decimals :: "32 word"
  s_target_token :: string
  s_target_symbol :: string
  s_target_decimals :: "32 word"
  s_strategy :: string
  s_total :: int
  s_sold :: int
  s_pov :: rat
  s_impact :: rat
  s_trigger :: rat
  s_mcap :: rat
  s_path :: "json option"
  s_slug :: "string option"
  s_sharing :: bool
  s_created :: int
  s_updated :: int

record session_pool_row =
  sp_session :: uuid
  sp_address :: string
  sp_type :: pool_type
  sp_dex :: string
  sp_token0 :: string
  sp_token1 :: string
  sp_fee :: u32
  sp_path :: "json option"

record trade_row =
  t_id :: uuid
  t_session :: uuid
  t_chain :: string
  t_status :: trade_status
  t_trigger_tx :: string
  t_trigger_pool :: string
  t_trigger_log :: u32
  t_trigger_amount :: int
  t_sell_amount :: int
  t_sell_tx :: "string option"
  t_sell_pool :: string
  t_impact :: u32
  t_mcap :: "rat option"
  t_received :: "int option"
  t_final_token :: "string option"
  t_failure :: "string option"
  t_executed :: "int option"
  t_created :: int

record refund_row =
  r_id :: uuid
  r_user :: uuid
  r_wallet :: uuid
  r_amount :: string
  r_token :: string
  r_symbol :: string
  r_status :: string
  r_note :: "string option"
  r_amount_usd :: "rat option"
  r_destination :: "string option"
  r_vtoken :: "string option"
  r_vexpires :: "int option"
  r_verified :: bool
  r_created :: int
  r_updated :: int

record deposit_row =
  d_id :: uuid
  d_user :: uuid
  d_wallet :: uuid
  d_chain :: string
  d_token :: string
  d_from :: string
  d_amount :: string
  d_tx :: string
  d_block :: int
  d_log :: u32
  d_created :: int

text \<open>A transaction handed to a node: the wallet that signed it, the request and the raw bytes.\<close>

record sent_tx =
  x_wallet :: string
  x_request :: tx_request
  x_raw :: "byte list"

text \<open>An e-mail handed to the mailer, with its plain-text part.\<close>

record mail =
  mail_to :: string
  mail_subject :: string
  mail_text :: string

record world = rt_state +
  users :: "user_row list"
  wallets :: "wallet_row list"
  sessions :: "session_row list"
  session_pools :: "session_pool_row list"
  trades :: "trade_row list"
  refunds :: "refund_row list"
  deposits :: "deposit_row list"
  published :: "(string \<times> json) list"
  sent :: "sent_tx list"
  mails :: "mail list"
  redis_keys :: "(string \<times> string) list"
  clock :: nat

section \<open>Column types\<close>

definition round_half_up :: "rat \<Rightarrow> int" where
  "round_half_up x = (if 0 \<le> x then \<lfloor>x + 1 / 2\<rfloor> else - \<lfloor>1 / 2 - x\<rfloor>)"

definition numeric :: "nat \<Rightarrow> nat \<Rightarrow> rat \<Rightarrow> rat option" where
  "numeric p s x =
     (let y = of_int (round_half_up (x * 10 ^ s)) / 10 ^ s
      in if \<bar>y\<bar> < 10 ^ (p - s) then Some y else None)"

definition numeric78 :: "rat \<Rightarrow> int option" where
  "numeric78 x =
     (let y = round_half_up x in if \<bar>y\<bar> < 10 ^ 78 then Some y else None)"

lemma round_half_up_int [simp]: "round_half_up (of_int i) = i"
proof -
  have "\<lfloor>of_int i + 1 / 2 :: rat\<rfloor> = i" "\<lfloor>1 / 2 - of_int i :: rat\<rfloor> = - i"
    by (simp_all add: floor_unique)
  then show ?thesis by (simp add: round_half_up_def)
qed

lemma numeric78_int: "\<bar>i\<bar> < 10 ^ 78 \<Longrightarrow> numeric78 (of_int i) = Some i"
  by (simp add: numeric78_def)

lemma numeric78_bound: "numeric78 x = Some i \<Longrightarrow> \<bar>i\<bar> < 10 ^ 78"
  by (auto simp: numeric78_def Let_def split: if_splits)

lemma numeric_two_decimals: "numeric p 2 x = Some y \<Longrightarrow> \<exists>k. y = of_int k / 100"
proof -
  assume "numeric p 2 x = Some y"
  then have "y = of_int (round_half_up (x * 10 ^ 2)) / 100"
    by (simp add: numeric_def Let_def split: if_splits)
  then show ?thesis by blast
qed

section \<open>Effects on the world\<close>

text \<open>A statement: it sees the tables and returns an answer and the new tables.\<close>

definition sql :: "env \<Rightarrow> (world \<Rightarrow> (err + 'a) \<times> world) \<Rightarrow> (world, err, 'a) rt" where
  "sql E f = (\<lambda>s.
     let n = calls s; s1 = s\<lparr>calls := Suc n\<rparr> in
     case db_reply E n of
       Served \<Rightarrow> f s1
     | Refused e \<Rightarrow> (Inl e, s1)
     | Lost e \<Rightarrow> (Inl e, snd (f s1)))"

definition query :: "env \<Rightarrow> (world \<Rightarrow> 'a) \<Rightarrow> (world, err, 'a) rt" where
  "query E f = sql E (gets f)"

definition exec :: "env \<Rightarrow> (world \<Rightarrow> world) \<Rightarrow> (world, err, unit) rt" where
  "exec E f = sql E (modify f)"

text \<open>A call of a node takes time.\<close>

definition remote :: "env \<Rightarrow> (nat \<Rightarrow> err + 'a) \<Rightarrow> (world, err, 'a) rt" where
  "remote E f = (\<lambda>s. (f (calls s),
     s\<lparr>calls := Suc (calls s), clock := clock s + elapsed_ms E (calls s)\<rparr>))"

definition slept :: "env \<Rightarrow> nat \<Rightarrow> world \<Rightarrow> world" where
  "slept E d s = s\<lparr>calls := Suc (calls s), clock := clock s + d + elapsed_ms E (calls s)\<rparr>"

definition sleep_ms :: "env \<Rightarrow> nat \<Rightarrow> (world, 'e, unit) rt" where
  "sleep_ms E d = modify (slept E d)"

text \<open>Publishing to NATS; the callers discard the outcome.\<close>

definition publish :: "env \<Rightarrow> string \<Rightarrow> json \<Rightarrow> (world, 'e, unit) rt" where
  "publish E subject payload = (\<lambda>s. (Inr (),
     (if publish_fails E (calls s) then s else s\<lparr>published := published s @ [(subject, payload)]\<rparr>)
       \<lparr>calls := Suc (calls s)\<rparr>))"

definition fresh :: "env \<Rightarrow> (world, 'e, uuid) rt" where
  "fresh E = ask (\<lambda>n. Inr (fresh_uuid E n))"

definition now :: "env \<Rightarrow> (world, 'e, int) rt" where
  "now E = ask (\<lambda>n. Inr (db_now E n))"

definition update_where :: "('a \<Rightarrow> bool) \<Rightarrow> ('a \<Rightarrow> 'a) \<Rightarrow> 'a list \<Rightarrow> 'a list" where
  "update_where P f rows = map (\<lambda>r. if P r then f r else r) rows"

lemma length_update_where [simp]: "length (update_where P f rows) = length rows"
  by (simp add: update_where_def)

lemma map_update_where: "(\<And>r. g (f r) = g r) \<Longrightarrow> map g (update_where P f rows) = map g rows"
  by (simp add: update_where_def)

lemma update_where_Nil [simp]: "update_where P f [] = []"
  by (simp add: update_where_def)

lemma update_where_Cons [simp]:
  "update_where P f (r # rows) = (if P r then f r else r) # update_where P f rows"
  by (simp add: update_where_def)

lemma set_update_where: "r \<in> set (update_where P f rows) \<Longrightarrow> \<exists>r0 \<in> set rows. r = (if P r0 then f r0 else r0)"
  by (auto simp: update_where_def)

section \<open>Preservation of relations\<close>

text \<open>
  Relations of worlds that ignore the counter, the clock, and what has been published: every
  remote call keeps them, and a statement keeps them when its effect on the tables does.
\<close>

locale world_rel = call_rel R for R :: "world \<Rightarrow> world \<Rightarrow> bool" +
  assumes rel_clock: "clock s \<le> n \<Longrightarrow> R s (s\<lparr>clock := n\<rparr>)"
    and rel_published: "R s (s\<lparr>published := published s @ msgs\<rparr>)"
begin

lemma keeps_remote: "keeps R (remote E f)"
  unfolding keeps_def remote_def
proof (clarsimp)
  fix s
  have "R s (s\<lparr>calls := Suc (calls s)\<rparr>)" by (rule rel_calls)
  moreover have "R (s\<lparr>calls := Suc (calls s)\<rparr>)
     (s\<lparr>calls := Suc (calls s), clock := clock s + elapsed_ms E (calls s)\<rparr>)"
    using rel_clock [of "s\<lparr>calls := Suc (calls s)\<rparr>"] by simp
  ultimately show "R s (s\<lparr>calls := Suc (calls s), clock := clock s + elapsed_ms E (calls s)\<rparr>)"
    by (rule rel_trans)
qed

lemma keeps_sleep: "keeps R (sleep_ms E d)"
  unfolding sleep_ms_def
proof (rule keeps_modify)
  fix s
  have "R s (s\<lparr>calls := Suc (calls s)\<rparr>)" by (rule rel_calls)
  moreover have "R (s\<lparr>calls := Suc (calls s)\<rparr>) (slept E d s)"
    using rel_clock [of "s\<lparr>calls := Suc (calls s)\<rparr>"] by (simp add: slept_def)
  ultimately show "R s (slept E d s)"
    by (rule rel_trans)
qed

lemma keeps_publish: "keeps R (publish E subject payload)"
  by (auto simp: keeps_def publish_def intro: rel_calls rel_trans [OF rel_published rel_calls])

lemma keeps_sql:
  assumes "\<And>s. R s (snd (f s))"
  shows "keeps R (sql E f)"
  using assms rel_trans [OF rel_calls]
  by (auto simp: keeps_def sql_def Let_def rel_calls split: db_reply.splits)
    (metis snd_conv)

lemma keeps_query: "keeps R (query E f)"
  unfolding query_def by (rule keeps_sql) (simp add: gets_def rel_refl)

lemma keeps_exec: "(\<And>s. R s (f s)) \<Longrightarrow> keeps R (exec E f)"
  unfolding exec_def by (rule keeps_sql) (simp add: modify_def)

lemma keeps_fresh: "keeps R (fresh E)"
  unfolding fresh_def by (rule keeps_ask)

lemma keeps_now: "keeps R (now E)"
  unfolding now_def by (rule keeps_ask)

lemma keeps_case_pool_type:
  "(pt = V2 \<Longrightarrow> keeps R m) \<Longrightarrow> (pt = V3 \<Longrightarrow> keeps R m') \<Longrightarrow> keeps R (case pt of V2 \<Rightarrow> m | V3 \<Rightarrow> m')"
  by (cases pt) simp_all

lemmas keeps_world = keeps_remote keeps_sleep keeps_publish keeps_query keeps_fresh keeps_now
  keeps_case_pool_type keeps_rules

end

text \<open>
  Invariants of the tables: a predicate that does not look at counters, clock and published
  messages gives a relation of the kind above, \<open>inv_step\<close>.
\<close>

definition inv_step :: "(world \<Rightarrow> bool) \<Rightarrow> world \<Rightarrow> world \<Rightarrow> bool" where
  "inv_step P s t \<longleftrightarrow> (P s \<longrightarrow> P t)"

locale world_inv =
  fixes P :: "world \<Rightarrow> bool"
  assumes inv_calls: "P (s\<lparr>calls := n\<rparr>) = P s"
    and inv_clock: "P (s\<lparr>clock := n\<rparr>) = P s"
    and inv_published: "P (s\<lparr>published := msgs\<rparr>) = P s"

sublocale world_inv \<subseteq> world_rel "inv_step P"
  by unfold_locales (simp_all add: inv_step_def inv_calls inv_clock inv_published)

context world_inv begin

lemma inv_run: "keeps (inv_step P) m \<Longrightarrow> m s = (r, t) \<Longrightarrow> P s \<Longrightarrow> P t"
  by (auto simp: inv_step_def dest: keepsD)

end

text \<open>The clock never goes back.\<close>

definition clock_le :: "world \<Rightarrow> world \<Rightarrow> bool" where
  "clock_le s t \<longleftrightarrow> clock s \<le> clock t"

interpretation clk: world_rel clock_le
  by unfold_locales (auto simp: clock_le_def)

end
