(* ===== verification/Tokens.thy ===== *)
theory Tokens
  imports Schema
begin

text \<open>
  The shared crate (\<open>crates/common/src/types.rs\<close>, \<open>retry.rs\<close>): the event types, the lookups of
  DEX factories, base tokens and routers in the configuration, the translation between the
  native-token placeholder and the wrapped native token, and \<open>retry\<close> with exponential backoff.
\<close>

section \<open>Events\<close>

record dex_swap_event =
  ev_chain :: string
  ev_block_number :: u64
  ev_tx_hash :: string
  ev_log_index :: u32
  ev_pool_address :: string
  ev_dex_type :: string
  ev_token_in :: string
  ev_token_out :: string
  ev_amount_in :: string
  ev_amount_out :: string
  ev_sender :: string
  ev_recipient :: string
  ev_timestamp :: u64
  ev_token0_is_input :: bool

record deposit_event =
  de_chain :: string
  de_block_number :: u64
  de_tx_hash :: string
  de_log_index :: u32
  de_token_address :: string
  de_from :: string
  de_to :: string
  de_amount :: string
  de_wallet_id :: string
  de_user_id :: string

definition subject_dex_swaps :: string where "subject_dex_swaps = ''evm.dex.swaps''"
definition subject_trades_completed :: string where "subject_trades_completed = ''trades.completed''"
definition subject_session_updates :: string where "subject_session_updates = ''session.updates''"
definition subject_deposits :: string where "subject_deposits = ''evm.deposits''"

section \<open>Lookups in the configuration\<close>

definition native_token_placeholder :: string where
  "native_token_placeholder = ''0xeeeeeeeeeeeeeeeeeeeeeeeeeeeeeeeeeeeeeeee''"

definition wrapped_native_symbols :: "string list" where
  "wrapped_native_symbols =
     [''WETH'', ''WBNB'', ''WMATIC'', ''WAVAX'', ''WFTM'', ''WONE'', ''WCELO'', ''WGLMR'',
      ''WKLAY'', ''WOKT'', ''WSEI'']"

definition enabled_chain :: "settings \<Rightarrow> string \<Rightarrow> chain_config option" where
  "enabled_chain S chain = get_chain (chain_entries S) chain"

definition dex_factories_for_chain :: "settings \<Rightarrow> string \<Rightarrow> dex_factory_config list" where
  "dex_factories_for_chain S chain =
     (case enabled_chain S chain of Some c \<Rightarrow> cc_dex_factories c | None \<Rightarrow> [])"

definition base_tokens_for_chain :: "settings \<Rightarrow> string \<Rightarrow> string list" where
  "base_tokens_for_chain S chain =
     (case enabled_chain S chain of Some c \<Rightarrow> base_token_addresses c | None \<Rightarrow> [])"

definition pool_type_from_str :: "string \<Rightarrow> pool_type option" where
  "pool_type_from_str v =
     (let t = lower (trim v) in
      if t = ''v2'' then Some V2 else if t = ''v3'' then Some V3 else None)"

definition dex_config_for_chain :: "settings \<Rightarrow> string \<Rightarrow> string \<Rightarrow> pool_type \<Rightarrow> dex_factory_config option" where
  "dex_config_for_chain S chain name pt =
     opt_bind (enabled_chain S chain)
       (\<lambda>c. find (\<lambda>d. eq_ic (dex_name d) name \<and> dex_pool_type d = pt) (cc_dex_factories c))"

definition dex_router_for_chain :: "settings \<Rightarrow> string \<Rightarrow> string \<Rightarrow> pool_type \<Rightarrow> string option" where
  "dex_router_for_chain S chain name pt =
     opt_bind (dex_config_for_chain S chain name pt)
       (\<lambda>d. let router = trim (dex_router_address d) in if router = [] then None else Some router)"

definition is_native_token_placeholder :: "string \<Rightarrow> bool" where
  "is_native_token_placeholder a \<longleftrightarrow> eq_ic (trim a) native_token_placeholder"

text \<open>The wrapped native token is looked up in disabled chains too.\<close>

definition wrapped_native_token_for_chain :: "settings \<Rightarrow> string \<Rightarrow> string option" where
  "wrapped_native_token_for_chain S chain =
     opt_bind (map_of (chain_entries S) chain)
       (\<lambda>c. map_option bt_address
          (find (\<lambda>t. upper (trim (bt_symbol t)) \<in> set wrapped_native_symbols) (cc_base_tokens c)))"

definition normalize_token_for_chain :: "settings \<Rightarrow> string \<Rightarrow> string \<Rightarrow> string" where
  "normalize_token_for_chain S chain a =
     (let token = trim a in
      if is_native_token_placeholder token then
        (case wrapped_native_token_for_chain S chain of Some w \<Rightarrow> w | None \<Rightarrow> token)
      else token)"

definition display_token_for_chain :: "settings \<Rightarrow> string \<Rightarrow> string \<Rightarrow> string" where
  "display_token_for_chain S chain a =
     (let token = trim a in
      case wrapped_native_token_for_chain S chain of
        Some w \<Rightarrow> if eq_ic token w then native_token_placeholder else token
      | None \<Rightarrow> token)"

lemma placeholder_is_native [simp]: "is_native_token_placeholder native_token_placeholder"
  by (code_simp)

lemma trim_placeholder [simp]: "trim native_token_placeholder = native_token_placeholder"
  by (code_simp)

lemma is_native_trim [simp]: "is_native_token_placeholder (trim a) = is_native_token_placeholder a"
  by (simp add: is_native_token_placeholder_def)

lemma dex_router_sound:
  assumes "dex_router_for_chain S chain name pt = Some r"
  shows "\<exists>c d. (chain, c) \<in> set (enabled_chains (chain_entries S)) \<and> d \<in> set (cc_dex_factories c) \<and>
     eq_ic (dex_name d) name \<and> dex_pool_type d = pt \<and> r = trim (dex_router_address d) \<and> r \<noteq> []"
proof -
  obtain c d where c: "enabled_chain S chain = Some c"
    and d: "find (\<lambda>d. eq_ic (dex_name d) name \<and> dex_pool_type d = pt) (cc_dex_factories c) = Some d"
    and r: "r = trim (dex_router_address d)" "r \<noteq> []"
    using assms by (auto simp: dex_router_for_chain_def dex_config_for_chain_def Let_def split: if_splits)
  then show ?thesis
    using find_Some_in [OF d] get_chain_enabled [of "chain_entries S" chain c]
    unfolding enabled_chain_def by blast
qed

lemma normalize_not_native:
  "wrapped_native_token_for_chain S chain = Some w \<Longrightarrow> \<not> is_native_token_placeholder w \<Longrightarrow>
    \<not> is_native_token_placeholder (normalize_token_for_chain S chain a)"
  by (simp add: normalize_token_for_chain_def Let_def)

lemma display_normalize:
  assumes "wrapped_native_token_for_chain S chain = Some w" "trim w = w"
  shows "display_token_for_chain S chain (normalize_token_for_chain S chain a) =
     (if is_native_token_placeholder a \<or> eq_ic (trim a) w then native_token_placeholder else trim a)"
  using assms by (simp add: display_token_for_chain_def normalize_token_for_chain_def Let_def)

lemma normalize_display:
  assumes "wrapped_native_token_for_chain S chain = Some w" "trim w = w"
    and "\<not> is_native_token_placeholder a"
  shows "eq_ic (normalize_token_for_chain S chain (display_token_for_chain S chain a)) (trim a)"
  using assms eq_ic_sym
  by (auto simp: display_token_for_chain_def normalize_token_for_chain_def Let_def)

section \<open>Retry with exponential backoff\<close>

datatype 'e retry_error = Gave_up 'e | Unreachable

text \<open>\<open>k\<close> attempts are left and \<open>d\<close> is the delay before the next one, in milliseconds.\<close>

fun retry_loop :: "env \<Rightarrow> nat \<Rightarrow> nat \<Rightarrow> (world, 'e, 'a) rt \<Rightarrow> (world, 'e retry_error, 'a) rt" where
  "retry_loop E 0 d f = fail Unreachable"
| "retry_loop E (Suc k) d f =
     rbind (attempt f) (\<lambda>r. case r of
       Inr v \<Rightarrow> ret v
     | Inl e \<Rightarrow>
         if k = 0 then fail (Gave_up e)
         else rbind (sleep_ms E d) (\<lambda>_. retry_loop E k (min (2 * d) 10000) f))"

definition retry :: "env \<Rightarrow> nat \<Rightarrow> (world, 'e, 'a) rt \<Rightarrow> (world, 'e retry_error, 'a) rt" where
  "retry E max_attempts f = retry_loop E max_attempts 1000 f"

lemma retry_loop_step:
  "retry_loop E (Suc k) d f s =
     (case f s of
        (Inr v, t) \<Rightarrow> (Inr v, t)
      | (Inl e, t) \<Rightarrow> if k = 0 then (Inl (Gave_up e), t) else retry_loop E k (min (2 * d) 10000) f (slept E d t))"
  by (simp add: rt_simps sleep_ms_def split: prod.splits sum.splits)

declare retry_loop.simps(2) [simp del]

lemma retry_loop_reachable: "0 < k \<Longrightarrow> fst (retry_loop E k d f s) \<noteq> Inl Unreachable"
proof (induction k arbitrary: d s)
  case (Suc k)
  then show ?case by (simp add: retry_loop_step split: prod.splits sum.splits)
qed simp

context world_rel begin

lemma keeps_retry_loop: "keeps R f \<Longrightarrow> keeps R (retry_loop E k d f)"
proof (induction k arbitrary: d)
  case 0
  show ?case by (simp add: keeps_fail)
next
  case (Suc k)
  then show ?case
    unfolding retry_loop.simps(2) by (auto intro!: keeps_world)
qed

lemma keeps_retry: "keeps R f \<Longrightarrow> keeps R (retry E n f)"
  unfolding retry_def by (rule keeps_retry_loop)

end

text \<open>
  What the loop promises: with \<open>tries f E k d s\<close> the states in which the attempts start, it
  returns the result of the first attempt that succeeds, and otherwise the last error.
\<close>

fun tries :: "env \<Rightarrow> nat \<Rightarrow> nat \<Rightarrow> (world, 'e, 'a) rt \<Rightarrow> world \<Rightarrow> world list" where
  "tries E 0 d f s = []"
| "tries E (Suc k) d f s = s # tries E k (min (2 * d) 10000) f (slept E d (snd (f s)))"

definition backoff :: "nat \<Rightarrow> nat" where
  "backoff i = min (1000 * 2 ^ i) 10000"

lemma backoff_Suc: "min (2 * backoff i) 10000 = backoff (Suc i)"
  by (simp add: backoff_def min_def)

lemma length_tries: "length (tries E k d f s) = k"
  by (induction k arbitrary: d s) auto

lemma tries_Nil [simp]: "tries E k d f s = [] \<longleftrightarrow> k = 0"
  by (metis length_0_conv length_tries)

lemma retry_loop_tries:
  "0 < k \<Longrightarrow> fst (retry_loop E k d f s) =
     map_sum Gave_up id (fst (f (case find (\<lambda>s'. \<not> isl (fst (f s'))) (tries E k d f s) of
        Some s' \<Rightarrow> s' | None \<Rightarrow> last (tries E k d f s))))"
proof (induction k arbitrary: d s)
  case (Suc k)
  show ?case
  proof (cases "f s")
    case (Pair r t)
    show ?thesis
    proof (cases r)
      case (Inl e)
      let ?xs = "tries E k (min (2 * d) 10000) f (slept E d t)"
      show ?thesis
      proof (cases "k = 0")
        case False
        then have "last (s # ?xs) = last ?xs" by simp
        with False Pair Inl Suc.IH [of "min (2 * d) 10000" "slept E d t"] show ?thesis
          by (simp add: retry_loop_step cong: option.case_cong)
      qed (simp add: retry_loop_step Pair Inl)
    next
      case (Inr v)
      with Pair show ?thesis by (simp add: retry_loop_step)
    qed
  qed
qed simp

text \<open>If an attempt takes no time, attempt \<open>i + 1\<close> starts exactly \<open>backoff i\<close> after attempt \<open>i\<close>.\<close>

lemma tries_clock:
  assumes "\<And>n. elapsed_ms E n = 0" "\<And>s. clock (snd (f s)) = clock s"
  shows "map clock (tries E k (backoff i) f s) =
     map (\<lambda>j. clock s + (\<Sum>l = i ..< i + j. backoff l)) [0 ..< k]"
proof (induction k arbitrary: i s)
  case (Suc k)
  let ?t = "slept E (backoff i) (snd (f s))"
  have t: "clock ?t = clock s + backoff i" using assms by (simp add: slept_def)
  have shift: "clock ?t + (\<Sum>l = Suc i ..< Suc i + j. backoff l) =
      clock s + (\<Sum>l = i ..< i + Suc j. backoff l)" for j
    by (simp add: t sum.atLeast_Suc_lessThan [of i])
  have "map (\<lambda>j. clock s + (\<Sum>l = i ..< i + j. backoff l)) [0 ..< Suc k] =
      clock s # map (\<lambda>j. clock s + (\<Sum>l = i ..< i + Suc j. backoff l)) [0 ..< k]"
    by (simp add: upt_conv_Cons map_Suc_upt [symmetric] del: upt_Suc)
  also have "\<dots> = clock s # map clock (tries E k (backoff (Suc i)) f ?t)"
    by (simp only: Suc.IH [of "Suc i" ?t] shift)
  finally show ?case by (simp only: tries.simps backoff_Suc list.map)
qed simp

end
