(* ===== verification/Impact.thy ===== *)
theory Impact
  imports Tokens
begin

text \<open>
  Price impact (\<open>crates/execution-engine/src/impact.rs\<close>): the basis points a sale moves a
  constant-product pool, computed with saturating 256-bit arithmetic from the reserves a node
  reports.
\<close>

definition calculate_impact_from_reserves :: "u256 \<Rightarrow> u256 \<Rightarrow> u256 \<Rightarrow> u32" where
  "calculate_impact_from_reserves reserve_x reserve_y sell_amount =
     (if reserve_x = 0 \<or> reserve_y = 0 \<or> sell_amount = 0 then 0
      else
        let denominator = sat_add reserve_x sell_amount in
        if denominator = 0 then 0
        else
          let numerator = sat_mul sell_amount 10000; impact = numerator div denominator in
          if unat impact \<le> max_u32 then of_nat (unat impact) else 10000)"

definition chain_cfg_of :: "env \<Rightarrow> string \<Rightarrow> chain_config option" where
  "chain_cfg_of E chain = map_of (chain_entries (cfg E)) chain"

definition parse_url :: "env \<Rightarrow> err \<Rightarrow> string \<Rightarrow> err + string" where
  "parse_url E e url = (if url_ok (lib_of E) url then Inr url else Inl e)"

definition pool_state ::
  "env \<Rightarrow> string \<Rightarrow> addr \<Rightarrow> pool_type \<Rightarrow> (world, err, addr \<times> addr \<times> u256 \<times> u256) rt" where
  "pool_state E url pool pt =
     (let N = node_of E; L = lib_of E in
      case pt of
        V2 \<Rightarrow>
          rbind (remote E (rpc_token0 N url pool)) (\<lambda>token0.
          rbind (remote E (rpc_token1 N url pool)) (\<lambda>token1.
          rbind (remote E (rpc_reserves N url pool)) (\<lambda>(r0, r1, _).
          ret (token0, token1,
               opt_or 0 (u256_radix L 10 (u256_show L (ucast r0))),
               opt_or 0 (u256_radix L 10 (u256_show L (ucast r1)))))))
      | V3 \<Rightarrow>
          rbind (remote E (rpc_token0 N url pool)) (\<lambda>token0.
          rbind (remote E (rpc_token1 N url pool)) (\<lambda>token1.
          rbind (remote E (rpc_balance_of N url token0 pool)) (\<lambda>reserve0.
          rbind (remote E (rpc_balance_of N url token1 pool)) (\<lambda>reserve1.
          ret (token0, token1, reserve0, reserve1))))))"

definition orient_reserves ::
  "addr \<Rightarrow> addr \<times> addr \<times> u256 \<times> u256 \<Rightarrow> err + u256 \<times> u256" where
  "orient_reserves sell = (\<lambda>(token0, token1, reserve0, reserve1).
     if sell = token0 then Inr (reserve0, reserve1)
     else if sell = token1 then Inr (reserve1, reserve0)
     else Inl ''Sell token does not match pool tokens'')"

definition calculate_price_impact ::
  "env \<Rightarrow> string \<Rightarrow> string \<Rightarrow> pool_type \<Rightarrow> string \<Rightarrow> u256 \<Rightarrow> (world, err, u32) rt" where
  "calculate_price_impact E chain pool_address pt sell_token sell_amount =
     rbind (of_result (ok_or (''Missing chain config for '' @ chain) (chain_cfg_of E chain))) (\<lambda>c.
     let rpc_url = trim (cc_rpc_url c) in
     if rpc_url = [] then fail (''Missing rpc_url for chain '' @ chain)
     else
       rbind (of_result (parse_url E (''Invalid rpc_url configured for '' @ chain) rpc_url)) (\<lambda>url.
       rbind (of_result (ok_or (''Invalid pool address: '' @ pool_address)
                           (addr_parse (lib_of E) pool_address))) (\<lambda>pool.
       rbind (of_result (ok_or (''Invalid sell token address: '' @ sell_token)
                           (addr_parse (lib_of E) sell_token))) (\<lambda>sell.
       rbind (pool_state E url pool pt) (\<lambda>st.
       rbind (of_result (orient_reserves sell st)) (\<lambda>(reserve_x, reserve_y).
       ret (calculate_impact_from_reserves reserve_x reserve_y sell_amount)))))))"

section \<open>The arithmetic\<close>

lemma div_fraction_le: "(a::nat) \<le> d \<Longrightarrow> 0 < d \<Longrightarrow> (k * a) div d \<le> k"
  by (metis div_le_mono mult_le_mono2 nonzero_mult_div_cancel_right less_numeral_extra(3))

lemma div_fraction_mono:
  fixes a b x k :: nat
  assumes "a \<le> b" "0 < x + a"
  shows "(k * a) div (x + a) \<le> (k * b) div (x + b)"
proof -
  let ?q = "(k * a) div (x + a)"
  have q: "?q \<le> k" using assms by (intro div_fraction_le) auto
  have "?q * (x + a) \<le> k * a" by (rule div_times_less_eq_dividend)
  moreover have "?q * (b - a) \<le> k * (b - a)" using q by simp
  ultimately have "?q * (x + a) + ?q * (b - a) \<le> k * a + k * (b - a)" by linarith
  moreover have "?q * (x + a) + ?q * (b - a) = ?q * (x + b)" "k * a + k * (b - a) = k * b"
    using assms by (simp_all add: distrib_left [symmetric])
  ultimately have "?q * (x + b) \<le> k * b" by simp
  moreover have "0 < x + b" using assms by auto
  ultimately show ?thesis by (subst less_eq_div_iff_mult_less_eq) auto
qed

lemma sat_ratio_le:
  fixes a k m x :: nat
  assumes "0 < k"
  shows "min (a * k) m \<le> k * min (x + a) m"
proof (cases "x + a \<le> m")
  case True
  then show ?thesis by (simp add: min_def distrib_left mult.commute)
next
  case False
  have "min (a * k) m \<le> m" by simp
  also have "m \<le> k * m" using assms by simp
  finally show ?thesis using False by (simp add: min_def)
qed

lemma unat_impact:
  assumes "x \<noteq> 0" "y \<noteq> 0" "a \<noteq> 0"
  shows "unat (calculate_impact_from_reserves x y a) =
     min (unat a * 10000) (2 ^ 256 - 1) div min (unat x + unat a) (2 ^ 256 - 1)"
proof -
  let ?n = "min (unat a * 10000) (2 ^ 256 - 1)" and ?d = "min (unat x + unat a) (2 ^ 256 - 1)"
  have d: "unat (sat_add x a) = ?d" and n: "unat (sat_mul a 10000) = ?n"
    by (simp_all add: unat_sat_add unat_sat_mul)
  have d0: "0 < ?d" using assms by (simp add: unat_gt_0)
  then have dnz: "sat_add x a \<noteq> 0" using d by (metis less_numeral_extra(3) unat_0)
  have "?n \<le> 10000 * ?d" by (rule sat_ratio_le) simp
  then have "?n div ?d \<le> 10000"
    using d0 by (metis div_le_mono nonzero_mult_div_cancel_right less_numeral_extra(3))
  moreover have "unat (sat_mul a 10000 div sat_add x a) = ?n div ?d"
    by (simp only: unat_div d n)
  ultimately show ?thesis
    using assms dnz
    by (simp add: calculate_impact_from_reserves_def Let_def max_u32_def unat_of_nat)
qed

lemma impact_zero: "x = 0 \<or> y = 0 \<or> a = 0 \<Longrightarrow> calculate_impact_from_reserves x y a = 0"
  by (auto simp: calculate_impact_from_reserves_def)

lemma impact_le_10000: "unat (calculate_impact_from_reserves x y a) \<le> 10000"
proof (cases "x = 0 \<or> y = 0 \<or> a = 0")
  case False
  let ?n = "min (unat a * 10000) (2 ^ 256 - 1)" and ?d = "min (unat x + unat a) (2 ^ 256 - 1)"
  have "0 < ?d" using False by (simp add: unat_gt_0)
  moreover have "?n \<le> 10000 * ?d" by (rule sat_ratio_le) simp
  ultimately have "?n div ?d \<le> 10000"
    by (metis div_le_mono nonzero_mult_div_cancel_right less_numeral_extra(3))
  then show ?thesis using False by (simp add: unat_impact)
qed (simp add: impact_zero)

section \<open>Properties\<close>

text \<open>C35: The impact is zero if a reserve or the amount is zero and otherwise the quotient of the saturated
  numerator \<open>10000 a\<close> and the saturated denominator \<open>x + a\<close>, rounded down; the quotient is at most 10000 basis points
  whatever the reserves and the amount, so it always fits and the clamp after the division never changes the result.
  Without saturation it is the floor of \<open>10000 a / (x + a)\<close>, and then zero exactly when a reserve or the amount is zero
  or \<open>10000 a\<close> is below \<open>x + a\<close>.\<close>

theorem impact_correct:
  "unat (calculate_impact_from_reserves x y a) =
     (if x = 0 \<or> y = 0 \<or> a = 0 then 0
      else min (unat a * 10000) (2 ^ 256 - 1) div min (unat x + unat a) (2 ^ 256 - 1)) \<and>
   (if x = 0 \<or> y = 0 \<or> a = 0 then 0
      else min (unat a * 10000) (2 ^ 256 - 1) div min (unat x + unat a) (2 ^ 256 - 1)) \<le> (10000 :: nat) \<and>
   (unat x + unat a < 2 ^ 256 \<and> unat a * 10000 < 2 ^ 256 \<longrightarrow>
      unat (calculate_impact_from_reserves x y a) =
        (if x = 0 \<or> y = 0 then 0 else 10000 * unat a div (unat x + unat a)) \<and>
      (calculate_impact_from_reserves x y a = 0 \<longleftrightarrow> x = 0 \<or> y = 0 \<or> a = 0 \<or> 10000 * unat a < unat x + unat a))"
proof -
  let ?q = "if x = 0 \<or> y = 0 \<or> a = 0 then 0
      else min (unat a * 10000) (2 ^ 256 - 1) div min (unat x + unat a) (2 ^ 256 - 1)"
  have exact: "unat (calculate_impact_from_reserves x y a) = ?q"
    using unat_impact [of x y a] impact_zero [of x y a] by auto
  have floor: "unat (calculate_impact_from_reserves x y a) =
        (if x = 0 \<or> y = 0 then 0 else 10000 * unat a div (unat x + unat a))"
    if "unat x + unat a < 2 ^ 256 \<and> unat a * 10000 < 2 ^ 256"
  proof (cases "x = 0 \<or> y = 0 \<or> a = 0")
    case False
    with that show ?thesis by (simp add: unat_impact mult.commute)
  qed (auto simp: impact_zero)
  have "calculate_impact_from_reserves x y a = 0 \<longleftrightarrow> x = 0 \<or> y = 0 \<or> a = 0 \<or> 10000 * unat a < unat x + unat a"
    if "unat x + unat a < 2 ^ 256 \<and> unat a * 10000 < 2 ^ 256"
  proof (cases "x = 0 \<or> y = 0 \<or> a = 0")
    case True
    then show ?thesis using impact_zero by blast
  next
    case False
    then have "0 < unat x + unat a" by (simp add: unat_gt_0)
    then have "10000 * unat a div (unat x + unat a) = 0 \<longleftrightarrow> 10000 * unat a < unat x + unat a" by (simp only: div_eq_0_iff) linarith
    moreover have "calculate_impact_from_reserves x y a = 0 \<longleftrightarrow> unat (calculate_impact_from_reserves x y a) = 0"
      by (simp only: unat_eq_0)
    ultimately show ?thesis using floor [OF that] False by (auto simp only: if_False simp_thms de_Morgan_disj)
  qed
  with floor impact_le_10000 [of x y a, unfolded exact] exact show ?thesis by blast
qed

theorem impact_correct_witness:
  "unat (calculate_impact_from_reserves 1000000 500000 1000) = 9"
  using impact_correct [of 1000000 500000 1000] by simp

text \<open>Without saturation of the numerator a larger sale never has a smaller impact, so
  capping a sale at the remaining balance cannot push it over the limit.\<close>

theorem impact_monotone:
  assumes "a \<le> b" "unat b * 10000 < 2 ^ 256" "unat x + unat b < 2 ^ 256"
  shows "calculate_impact_from_reserves x y a \<le> calculate_impact_from_reserves x y b"
proof (cases "x = 0 \<or> y = 0 \<or> a = 0")
  case False
  from assms(1) have ab: "unat a \<le> unat b" by (simp add: word_le_nat_alt)
  have "10000 * unat a div (unat x + unat a) \<le> 10000 * unat b div (unat x + unat b)"
    using ab False by (intro div_fraction_mono) (auto simp: unat_gt_0)
  moreover have "unat a * 10000 < 2 ^ 256" "unat x + unat a < 2 ^ 256" "b \<noteq> 0"
    using assms ab False by auto
  ultimately show ?thesis
    using assms False by (simp add: word_le_nat_alt unat_impact mult.commute)
qed (simp add: impact_zero)

theorem impact_monotone_witness:
  "calculate_impact_from_reserves 1000000 500000 1000 \<le> calculate_impact_from_reserves 1000000 500000 2000"
  by (rule impact_monotone) simp_all

text \<open>Saturation does matter: an amount that saturates the numerator is judged harmless.\<close>

lemma impact_saturated: "unat (calculate_impact_from_reserves 1 1 (- 1)) = 1"
  by (simp add: unat_impact unat_max_word)

end
