(* ===== verification/Proto.thy ===== *)
theory Proto
  imports Tokens
begin

text \<open>
  The messages of \<open>proto/liquifier.proto\<close> that several services exchange, and the status codes
  of their gRPC errors.  A call may also fail in transport (\<open>grpc\<close>).
\<close>

datatype grpc_code =
    InvalidArgument | NotFound | FailedPrecondition | PermissionDenied | Internal | Unavailable

type_synonym status = "grpc_code \<times> string"

record pool_info =
  pi_address :: string
  pi_type :: string
  pi_dex :: string
  pi_token0 :: string
  pi_token1 :: string
  pi_fee :: u32
  pi_reserve0 :: string
  pi_reserve1 :: string
  pi_liquidity :: string
  pi_balance0 :: string
  pi_balance1 :: string
  pi_price0 :: f64
  pi_price1 :: f64
  pi_path_json :: string

record session_info =
  si_id :: string
  si_user :: string
  si_wallet :: string
  si_chain :: string
  si_status :: string
  si_sell_token :: string
  si_sell_symbol :: string
  si_sell_decimals :: u32
  si_target_token :: string
  si_target_symbol :: string
  si_target_decimals :: u32
  si_strategy :: string
  si_total :: string
  si_sold :: string
  si_pov :: f64
  si_impact :: f64
  si_trigger :: f64
  si_path_json :: string
  si_slug :: string
  si_sharing :: bool
  si_mcap :: f64
  si_created :: string
  si_updated :: string
  si_pools :: "pool_info list"

record swap_path =
  sw_rank :: u32
  sw_hops :: "string list"
  sw_hop_tokens :: "string list"
  sw_output :: string
  sw_impact :: f64
  sw_fee :: f64

record create_session_request =
  cs_user :: string
  cs_wallet :: string
  cs_chain :: string
  cs_sell_token :: string
  cs_sell_symbol :: string
  cs_sell_decimals :: u32
  cs_target_token :: string
  cs_target_symbol :: string
  cs_target_decimals :: u32
  cs_strategy :: string
  cs_total :: string
  cs_pov :: f64
  cs_impact :: f64
  cs_trigger :: f64
  cs_path_json :: string
  cs_pools :: "pool_info list"
  cs_mcap :: f64

record wallet_info =
  wi_id :: string
  wi_address :: string
  wi_chain :: string
  wi_created :: string

definition grpc :: "env \<Rightarrow> (world, status, 'a) rt \<Rightarrow> (world, status, 'a) rt" where
  "grpc E m = (\<lambda>s. case grpc_down E (calls s) of
      Some e \<Rightarrow> (Inl (Unavailable, e), s\<lparr>calls := Suc (calls s)\<rparr>)
    | None \<Rightarrow> m (s\<lparr>calls := Suc (calls s)\<rparr>))"

context world_rel begin

lemma keeps_grpc: "keeps R m \<Longrightarrow> keeps R (grpc E m)"
  using rel_trans [OF rel_calls]
  by (auto simp: keeps_def grpc_def rel_calls split: option.splits) blast

end

end
