(* ===== verification/Sample.thy ===== *)
theory Sample
  imports Tokens
begin

text \<open>
  One concrete environment, on which the hypotheses of the theorems are shown to hold together:
  addresses, hashes and identifiers are hexadecimal texts, integers decimal texts, a database
  that always answers, a node that knows two tokens and one pool, and a clock that stands still
  between the sleeps.  It is an instance of the parameters, not a model of the libraries.
\<close>

definition hex_parse :: "nat \<Rightarrow> string \<Rightarrow> nat option" where
  "hex_parse k s =
     (let h = (case strip_prefix ''0x'' s of Some r \<Rightarrow> r | None \<Rightarrow> s)
      in if length h = k then hex_digits h 0 else None)"

definition sample_json :: "string \<Rightarrow> json option" where
  "sample_json s =
     (if s = ''{}'' then Some (JObj [])
      else if s = ''route'' then
        Some (JObj [(''hops'', JArr [JStr ''0x00000000000000000000000000000000000000aa'']),
                    (''hop_tokens'', JArr [JStr ''0x0000000000000000000000000000000000000001'',
                                           JStr ''0x0000000000000000000000000000000000000002''])])
      else None)"

definition sample_addr_parse :: "string \<Rightarrow> addr option" where
  "sample_addr_parse s = map_option of_nat (hex_parse 40 s)"

definition sample_b256_parse :: "string \<Rightarrow> b256 option" where
  "sample_b256_parse s = map_option of_nat (hex_parse 64 s)"

definition sample_uuid_parse :: "string \<Rightarrow> uuid option" where
  "sample_uuid_parse s = map_option of_nat (hex_parse 32 s)"

definition sample_u256_radix :: "nat \<Rightarrow> string \<Rightarrow> u256 option" where
  "sample_u256_radix r s = map_option of_nat
     (if r = 10 then parse_unsigned 115792089237316195423570985008687907853269984665640564039457584007913129639935 s
      else hex_digits s 0)"

definition sample_addr_show :: "addr \<Rightarrow> string" where
  "sample_addr_show a = ''0x'' @ show_hex 40 (unat a)"

definition sample_b256_show :: "b256 \<Rightarrow> string" where
  "sample_b256_show h = ''0x'' @ show_hex 64 (unat h)"

definition sample_u256_show :: "u256 \<Rightarrow> string" where
  "sample_u256_show n = show_nat (unat n)"

definition sample_uuid_show :: "uuid \<Rightarrow> string" where
  "sample_uuid_show u = show_hex 32 (unat u)"

definition sample_decimal_parse :: "string \<Rightarrow> rat option" where
  "sample_decimal_parse s = (if all_digits s then Some (of_nat (digits_val s)) else None)"

definition sample_decimal_show :: "rat \<Rightarrow> string" where
  "sample_decimal_show x = show_int \<lfloor>x\<rfloor>"

definition sample_json_show :: "json \<Rightarrow> string" where
  "sample_json_show j = (if j = JObj [] then ''{}'' else ''route'')"

definition sample_url_ok :: "string \<Rightarrow> bool" where
  "sample_url_ok s \<longleftrightarrow> s \<noteq> []"

definition sample_hex_encode :: "byte list \<Rightarrow> string" where
  "sample_hex_encode bs = concat (map (\<lambda>b. show_hex 2 (unat b)) bs)"

fun sample_hex_decode :: "string \<Rightarrow> byte list option" where
  "sample_hex_decode (c # d # s) =
     (case (hex_val c, hex_val d, sample_hex_decode s) of
        (Some a, Some b, Some bs) \<Rightarrow> Some (of_nat (16 * a + b) # bs)
      | _ \<Rightarrow> None)"
| "sample_hex_decode s = (if s = [] then Some [] else None)"

definition sample_tx :: tx_request where
  "sample_tx = \<lparr>tx_from = 5, tx_to = 6, tx_value = 0, tx_input = [1, 2, 3, 4],
     tx_nonce = 0, tx_chain_id = 56, tx_gas_limit = None, tx_gas_price = None\<rparr>"

definition sample_seal :: "byte list \<Rightarrow> byte list \<Rightarrow> byte list \<Rightarrow> byte list option" where
  "sample_seal k n p = Some (p @ [0])"

definition sample_open :: "byte list \<Rightarrow> byte list \<Rightarrow> byte list \<Rightarrow> byte list option" where
  "sample_open k n c = Some (butlast c)"

definition sample_key_ok :: "byte list \<Rightarrow> bool" where
  "sample_key_ok k \<longleftrightarrow> length k = 32"

definition sample_lib :: lib where
  "sample_lib =
     \<lparr>addr_parse = sample_addr_parse, addr_show = sample_addr_show, addr_debug = sample_addr_show,
      b256_parse = sample_b256_parse, b256_debug = sample_b256_show,
      u256_radix = sample_u256_radix, u256_show = sample_u256_show,
      uuid_parse = sample_uuid_parse, uuid_show = sample_uuid_show,
      json_parse = sample_json, json_show = sample_json_show,
      decimal_parse = sample_decimal_parse, decimal_show = sample_decimal_show,
      url_ok = sample_url_ok, time_show = show_int,
      hex_encode = sample_hex_encode, hex_decode = sample_hex_decode,
      abi_encode = (\<lambda>c. [1, 2, 3, 4]),
      tx_to_json = (\<lambda>t. Some [7]), tx_of_json = (\<lambda>b. Some sample_tx),
      aead_seal = sample_seal, aead_open = sample_open,
      key_ok = sample_key_ok, key_addr = (\<lambda>k. 5), sign_tx = (\<lambda>k t. Some ([9, 9], 77))\<rparr>"

definition sample_receipt :: json where
  "sample_receipt = JObj [(''status'', JStr ''0x1''), (''logs'', JArr [])]"

definition sample_node :: node where
  "sample_node =
     \<lparr>rpc_token0 = (\<lambda>url pool n. Inr 1),
      rpc_token1 = (\<lambda>url pool n. Inr 2),
      rpc_reserves = (\<lambda>url pool n. Inr (1000000, 500000, 0)),
      rpc_liquidity = (\<lambda>url pool n. Inr 1000),
      rpc_get_pair = (\<lambda>url f a b n. Inr 0xaa),
      rpc_get_pool = (\<lambda>url f a b fee n. Inr 0xaa),
      rpc_balance_of = (\<lambda>url token owner n. Inr 1000000),
      rpc_allowance = (\<lambda>url token owner spender n. Inr (- 1)),
      rpc_total_supply = (\<lambda>url token n. Inr 1000000000),
      rpc_decimals = (\<lambda>url token n. Inr 18),
      rpc_usd_price = (\<lambda>url orc token pair v n. Inr 1000000000000000000),
      rpc_amounts_out = (\<lambda>url router amount path n. Inr [amount, 500]),
      rpc_feed = (\<lambda>url feed n. Inr (8, 100000000)),
      rpc_native_balance = (\<lambda>url a n. Inr 1000),
      rpc_gas_price = (\<lambda>url n. Inr 3),
      rpc_nonce = (\<lambda>url a n. Inr 0),
      rpc_estimate_gas = (\<lambda>url t n. Inr 21000),
      rpc_send_raw = (\<lambda>url raw n. Inr 77),
      rpc_receipt = (\<lambda>url h n. Inr (Some sample_receipt))\<rparr>"

definition sample_chain :: chain_config where
  "sample_chain =
     \<lparr>cc_enabled = True, cc_chain_id = 56, cc_rpc_url = ''http://node'', cc_ws_url = [],
      cc_base_tokens = [\<lparr>bt_address = ''0x0000000000000000000000000000000000000002'',
         bt_symbol = ''WBNB'', bt_chainlink_oracle = ''0x0000000000000000000000000000000000000009''\<rparr>],
      cc_dex_factories = [\<lparr>dex_name = ''pancakeswap'',
         dex_factory_address = ''0x00000000000000000000000000000000000000fa'',
         dex_router_address = ''0x00000000000000000000000000000000000000bb'',
         dex_pool_type = V2, dex_fee_tiers = []\<rparr>]\<rparr>"

definition sample_settings :: settings where
  "sample_settings =
     \<lparr>application = default_application, database = default_database, redis = default_redis,
      nats = default_nats, auth = default_auth, kms = default_kms, session_api = default_session_api\<lparr>sa_evm_rpc_url := ''http://node''\<rparr>,
      api_gateway = default_api_gateway, websocket = default_websocket, indexer = default_indexer,
      execution = default_execution, pricing = default_pricing, smtp = default_smtp,
      chain_entries = [(''bsc'', sample_chain)]\<rparr>"

definition sample_env :: env where
  "sample_env =
     \<lparr>cfg = sample_settings, lib_of = sample_lib, node_of = sample_node,
      db_reply = (\<lambda>n. Served), fresh_uuid = (\<lambda>n. of_nat n), random_bytes = (\<lambda>n. replicate 32 7),
      db_now = (\<lambda>n. int n), unix_secs = (\<lambda>n. 1700000000), elapsed_ms = (\<lambda>n. 0),
      grpc_down = (\<lambda>n. None), publish_fails = (\<lambda>n. False), redis_fails = (\<lambda>n. False)\<rparr>"

definition empty_world :: world where
  "empty_world =
     \<lparr>calls = 0, users = [], wallets = [], sessions = [], session_pools = [], trades = [],
      refunds = [], deposits = [], published = [], sent = [], mails = [], redis_keys = [], clock = 0\<rparr>"

text \<open>The answers of the sample environment, without unfolding it.\<close>

lemma sample_env_parts:
  "cfg sample_env = sample_settings" "lib_of sample_env = sample_lib" "node_of sample_env = sample_node"
  "db_reply sample_env n = Served" "fresh_uuid sample_env n = of_nat n" "random_bytes sample_env n = replicate 32 7"
  "db_now sample_env n = int n" "elapsed_ms sample_env n = 0" "grpc_down sample_env n = None"
  "publish_fails sample_env n = False" "redis_fails sample_env n = False" "unix_secs sample_env n = 1700000000"
  by (simp_all add: sample_env_def)

lemma sample_node_answers:
  "rpc_token0 sample_node url pool n = Inr 1" "rpc_token1 sample_node url pool n = Inr 2"
  "rpc_reserves sample_node url pool n = Inr (1000000, 500000, 0)"
  "rpc_liquidity sample_node url pool n = Inr 1000"
  "rpc_get_pair sample_node url f a b n = Inr 0xaa" "rpc_get_pool sample_node url f a b fee n = Inr 0xaa"
  "rpc_balance_of sample_node url token owner n = Inr 1000000"
  "rpc_allowance sample_node url token owner spender n = Inr (- 1)"
  "rpc_total_supply sample_node url token n = Inr 1000000000" "rpc_decimals sample_node url token n = Inr 18"
  "rpc_usd_price sample_node url orc token pair v n = Inr 1000000000000000000"
  "rpc_amounts_out sample_node url router amount path n = Inr [amount, 500]"
  "rpc_feed sample_node url feed n = Inr (8, 100000000)" "rpc_native_balance sample_node url a n = Inr 1000"
  "rpc_gas_price sample_node url n = Inr 3" "rpc_nonce sample_node url a n = Inr 0"
  "rpc_estimate_gas sample_node url t n = Inr 21000" "rpc_send_raw sample_node url raw n = Inr 77"
  "rpc_receipt sample_node url h n = Inr (Some sample_receipt)"
  by (simp_all add: sample_node_def)

lemma sample_lib_parts:
  "addr_parse sample_lib = sample_addr_parse" "addr_show sample_lib = sample_addr_show"
  "addr_debug sample_lib = sample_addr_show" "b256_parse sample_lib = sample_b256_parse"
  "b256_debug sample_lib = sample_b256_show" "u256_radix sample_lib = sample_u256_radix"
  "u256_show sample_lib = sample_u256_show" "uuid_parse sample_lib = sample_uuid_parse"
  "uuid_show sample_lib = sample_uuid_show" "json_parse sample_lib = sample_json"
  "json_show sample_lib = sample_json_show" "decimal_parse sample_lib = sample_decimal_parse"
  "decimal_show sample_lib = sample_decimal_show" "url_ok sample_lib = sample_url_ok"
  "time_show sample_lib = show_int"
  by (simp_all add: sample_lib_def)

lemmas sample_parts = sample_env_parts sample_node_answers

text \<open>The laws of the texts that theorems rely on hold in this instance.\<close>

lemma sample_u256_show: "u256_radix sample_lib 10 (u256_show sample_lib n) = Some n"
  using unsigned_less [of n, where ?'a = nat]
  by (simp add: sample_lib_def sample_u256_radix_def sample_u256_show_def parse_show_nat)

end
