(* ===== verification/Route.thy ===== *)
theory Route
  imports Impact Proto Sample
begin

text \<open>
  Routes and router calldata (\<open>crates/execution-engine/src/main.rs\<close>): reading the per-pool
  route, its fee tiers, replacing native placeholders, the packed path of Uniswap V3, the
  slippage bound and the choice of the router method.
\<close>

section \<open>The route of a pool\<close>

record pool_swap_route =
  pr_hops :: "string list"
  pr_hop_tokens :: "string list"
  pr_fee_tiers :: "u32 list"

definition j_strings :: "json \<Rightarrow> string list option" where
  "j_strings j = opt_bind (j_array j)
     (\<lambda>xs. if list_all (\<lambda>x. j_str x \<noteq> None) xs then Some (map (\<lambda>x. the (j_str x)) xs) else None)"

definition j_u32s :: "json \<Rightarrow> u32 list option" where
  "j_u32s j = opt_bind (j_array j)
     (\<lambda>xs. if list_all (\<lambda>x. case j_u64 x of None \<Rightarrow> False | Some n \<Rightarrow> unat n \<le> max_u32) xs
           then Some (map (\<lambda>x. ucast (the (j_u64 x))) xs) else None)"

text \<open>The derived deserializer: two mandatory members, \<open>fee_tiers\<close> defaults to empty.\<close>

definition route_of_json :: "json \<Rightarrow> pool_swap_route option" where
  "route_of_json j =
     opt_bind (opt_bind (j_get ''hops'' j) j_strings) (\<lambda>hops.
     opt_bind (opt_bind (j_get ''hop_tokens'' j) j_strings) (\<lambda>tokens.
     opt_bind (case j_get ''fee_tiers'' j of None \<Rightarrow> Some [] | Some v \<Rightarrow> j_u32s v) (\<lambda>fees.
     Some \<lparr>pr_hops = hops, pr_hop_tokens = tokens, pr_fee_tiers = fees\<rparr>)))"

definition parse_pool_swap_route :: "lib \<Rightarrow> string \<Rightarrow> string \<Rightarrow> pool_swap_route option" where
  "parse_pool_swap_route L raw pool_address =
     (let trimmed = trim raw in
      if trimmed = [] then None
      else opt_bind (opt_bind (json_parse L trimmed) route_of_json) (\<lambda>route.
        if pr_hops route = [] then None
        else if \<not> eq_ic (hd (pr_hops route)) pool_address then None
        else if length (pr_hop_tokens route) \<noteq> length (pr_hops route) + 1 then None
        else Some route))"

definition is_native_placeholder_address :: "string \<Rightarrow> bool" where
  "is_native_placeholder_address token \<longleftrightarrow> eq_ic (trim token) native_token_placeholder"

definition wrapped_native_address :: "env \<Rightarrow> string \<Rightarrow> err + addr" where
  "wrapped_native_address E chain =
     (case wrapped_native_token_for_chain (cfg E) chain of
        None \<Rightarrow> Inl (''Missing wrapped native token address for chain '' @ chain)
      | Some a \<Rightarrow> ok_or (''Invalid wrapped native token address for '' @ chain) (addr_parse (lib_of E) a))"

fun parse_addresses :: "lib \<Rightarrow> string list \<Rightarrow> err + addr list" where
  "parse_addresses L [] = Inr []"
| "parse_addresses L (t # ts) =
     (case addr_parse L t of
        None \<Rightarrow> Inl (''Invalid token address in route: '' @ t)
      | Some a \<Rightarrow> (case parse_addresses L ts of Inl e \<Rightarrow> Inl e | Inr as \<Rightarrow> Inr (a # as)))"

definition parse_route_token_addresses :: "lib \<Rightarrow> pool_swap_route \<Rightarrow> err + addr list" where
  "parse_route_token_addresses L route = parse_addresses L (pr_hop_tokens route)"

definition resolve_route_tokens_for_native ::
  "env \<Rightarrow> pool_swap_route \<Rightarrow> string \<Rightarrow> err + (addr list \<times> bool \<times> bool)" where
  "resolve_route_tokens_for_native E route chain =
     (case parse_route_token_addresses (lib_of E) route of
        Inl e \<Rightarrow> Inl e
      | Inr path \<Rightarrow>
          let tokens = pr_hop_tokens route;
              native_input = (tokens \<noteq> [] \<and> is_native_placeholder_address (hd tokens));
              native_output = (tokens \<noteq> [] \<and> is_native_placeholder_address (last tokens))
          in if list_ex is_native_placeholder_address tokens then
               (case wrapped_native_address E chain of
                  Inl e \<Rightarrow> Inl e
                | Inr w \<Rightarrow>
                    Inr (map2 (\<lambda>token a. if is_native_placeholder_address token then w else a) tokens path,
                         native_input, native_output))
             else Inr (path, native_input, native_output))"

definition route_fee_tiers :: "pool_swap_route \<Rightarrow> u32 \<Rightarrow> nat \<Rightarrow> err + u32 list" where
  "route_fee_tiers route default_fee_tier token_count =
     (if token_count < 2 then Inl ''Route must include at least two hop tokens''
      else
        let expected_fees = token_count - 1 in
        if length (pr_fee_tiers route) = expected_fees then Inr (pr_fee_tiers route)
        else Inr (replicate expected_fees (if default_fee_tier = 0 then 3000 else default_fee_tier)))"

section \<open>The packed path of Uniswap V3\<close>

fun be_bytes :: "nat \<Rightarrow> nat \<Rightarrow> byte list" where
  "be_bytes 0 n = []"
| "be_bytes (Suc k) n = be_bytes k (n div 256) @ [of_nat (n mod 256)]"

definition be_val :: "byte list \<Rightarrow> nat" where
  "be_val bs = foldl (\<lambda>n b. 256 * n + unat b) 0 bs"

definition addr_bytes :: "addr \<Rightarrow> byte list" where
  "addr_bytes a = be_bytes 20 (unat a)"

definition fee_bytes :: "u32 \<Rightarrow> byte list" where
  "fee_bytes fee = [ucast (drop_bit 16 fee), ucast (drop_bit 8 fee), ucast fee]"

fun encode_hops :: "addr list \<Rightarrow> u32 list \<Rightarrow> err + byte list" where
  "encode_hops (t # ts) (fee # fees) =
     (if 0x00FFFFFF < fee then Inl ''Invalid V3 fee tier''
      else (case encode_hops ts fees of
              Inl e \<Rightarrow> Inl e
            | Inr rest \<Rightarrow> Inr (addr_bytes t @ fee_bytes fee @ rest)))"
| "encode_hops tokens fees = Inr (if tokens = [] then [] else addr_bytes (last tokens))"

definition encode_uniswap_v3_path :: "addr list \<Rightarrow> u32 list \<Rightarrow> err + byte list" where
  "encode_uniswap_v3_path tokens fee_tiers =
     (if length tokens < 2 then Inl ''V3 path requires at least two tokens''
      else if length fee_tiers \<noteq> length tokens - 1
      then Inl ''V3 path fee_tiers length must equal tokens length - 1''
      else encode_hops tokens fee_tiers)"

text \<open>How a router reads the path: 20 bytes of token, 3 bytes of fee, and so on.\<close>

function decode_v3_path :: "byte list \<Rightarrow> (addr list \<times> nat list) option" where
  "decode_v3_path bs =
     (if length bs = 20 then Some ([of_nat (be_val bs)], [])
      else if 43 \<le> length bs then
        (case decode_v3_path (drop 23 bs) of
           None \<Rightarrow> None
         | Some (ts, fs) \<Rightarrow> Some (of_nat (be_val (take 20 bs)) # ts, be_val (take 3 (drop 20 bs)) # fs))
      else None)"
  by auto
termination by (relation "measure length") auto

declare decode_v3_path.simps [simp del]

lemma length_be_bytes [simp]: "length (be_bytes k n) = k"
  by (induction k arbitrary: n) auto

lemma be_val_snoc: "be_val (bs @ [b]) = 256 * be_val bs + unat b"
  by (simp add: be_val_def)

lemma be_val_be_bytes: "n < 256 ^ k \<Longrightarrow> be_val (be_bytes k n) = n"
proof (induction k arbitrary: n)
  case (Suc k)
  then have "n div 256 < 256 ^ k" by (simp add: less_mult_imp_div_less mult.commute)
  moreover have "unat (of_nat (n mod 256) :: byte) = n mod 256"
    by (simp add: unat_of_nat)
  ultimately show ?case using Suc.IH by (simp add: be_val_snoc)
qed (simp add: be_val_def)

lemma length_addr_bytes [simp]: "length (addr_bytes a) = 20"
  by (simp add: addr_bytes_def)

lemma be_val_addr_bytes [simp]: "be_val (addr_bytes a) = unat a"
  unfolding addr_bytes_def by (rule be_val_be_bytes) (use unsigned_less [of a] in simp)

lemma length_fee_bytes [simp]: "length (fee_bytes f) = 3"
  by (simp add: fee_bytes_def)

lemma three_bytes: "65536 * (n div 65536) + 256 * (n div 256 mod 256) + n mod 256 = (n :: nat)"
proof -
  have "n div 65536 = n div 256 div 256" by (simp add: div_mult2_eq [symmetric])
  moreover have "256 * (n div 256 div 256) + n div 256 mod 256 = n div 256" by simp
  moreover have "256 * (n div 256) + n mod 256 = n" by simp
  ultimately show ?thesis by linarith
qed

lemma be_val_fee_bytes:
  assumes "f \<le> 0x00FFFFFF"
  shows "be_val (fee_bytes f) = unat f"
proof -
  have b: "unat (ucast (drop_bit k f) :: byte) = unat f div 2 ^ k mod 256" for k
  proof -
    have "unat (drop_bit k f) = drop_bit k (unat f)" by (rule unat_drop_bit_eq)
    also have "\<dots> = unat f div 2 ^ k" by (rule drop_bit_eq_div)
    finally have "unat (drop_bit k f) = unat f div 2 ^ k" .
    moreover have "unat (ucast w :: byte) = unat w mod 256" for w :: u32
      by (simp add: unsigned_ucast_eq take_bit_eq_mod)
    ultimately show ?thesis by metis
  qed
  have "unat f \<le> 0xFFFFFF" using assms by (simp add: word_le_nat_alt)
  moreover have "unat (ucast f :: byte) = unat f mod 256" using b [of 0] by simp
  ultimately show ?thesis
    using b [of 16] b [of 8] three_bytes [of "unat f"] by (simp add: be_val_def fee_bytes_def)
qed

lemma decode_hop:
  assumes "decode_v3_path rest = Some (ts, fs)" "f \<le> 0x00FFFFFF" "20 \<le> length rest"
  shows "decode_v3_path (addr_bytes t @ fee_bytes f @ rest) = Some (t # ts, unat f # fs)"
  using assms by (subst decode_v3_path.simps) (simp add: be_val_fee_bytes)

lemma encode_hops_decode:
  assumes "encode_hops tokens fees = Inr bs" "length tokens = Suc (length fees)"
  shows "decode_v3_path bs = Some (tokens, map unat fees) \<and> length bs = 23 * length fees + 20"
  using assms
proof (induction fees arbitrary: tokens bs)
  case Nil
  then obtain t where "tokens = [t]" by (cases tokens) auto
  with Nil show ?case by (auto simp: decode_v3_path.simps)
next
  case (Cons fee fees)
  then obtain t ts where tokens: "tokens = t # ts" "length ts = Suc (length fees)"
    by (cases tokens) auto
  with Cons obtain rest where rest: "encode_hops ts fees = Inr rest" "fee \<le> 0x00FFFFFF"
      "bs = addr_bytes t @ fee_bytes fee @ rest"
    by (auto split: if_splits sum.splits)
  with Cons.IH [OF rest(1)] tokens show ?case
    using decode_hop [of rest ts "map unat fees" fee t] by simp
qed

lemma encode_hops_error:
  "length tokens = Suc (length fees) \<Longrightarrow>
    (\<exists>e. encode_hops tokens fees = Inl e) \<longleftrightarrow> (\<exists>f \<in> set fees. 0x00FFFFFF < f)"
  by (induction tokens fees rule: encode_hops.induct) (auto split: sum.splits)

section \<open>Slippage and router calls\<close>

text \<open>
  The session's maximal price impact also bounds the slippage, one percent if it is unset.
  Multiplication wraps, as \<open>U256\<close> multiplication does.
\<close>

definition session_slippage_bps :: "session_info \<Rightarrow> u32" where
  "session_slippage_bps session =
     (let impact_bps = f_as_u32 (f_mul (si_impact session) (Fin 100))
      in if impact_bps = 0 then 100 else impact_bps)"

definition amount_out_min :: "u256 \<Rightarrow> u256 \<Rightarrow> u32 \<Rightarrow> err + u256" where
  "amount_out_min amount expected_output slippage_bps =
     (let base_amount = (if expected_output = 0 then amount else expected_output) in
      if 10000 \<le> slippage_bps then Inl ''Slippage bps must be less than 10000''
      else
        let m = (base_amount * ucast (10000 - ucast slippage_bps :: u64)) div 10000 in
        if m = 0 then Inl ''Computed amountOutMin is zero'' else Inr m)"

definition build_swap_call ::
  "env \<Rightarrow> u256 \<Rightarrow> u256 \<Rightarrow> pool_swap_route \<Rightarrow> pool_type \<Rightarrow> u32 \<Rightarrow> addr \<Rightarrow> string \<Rightarrow> u32
     \<Rightarrow> (world, err, sol_call) rt" where
  "build_swap_call E amount expected_output route pt default_fee_tier recipient chain slippage_bps =
     rbind (of_result (resolve_route_tokens_for_native E route chain)) (\<lambda>(path, native_input, native_output).
     rbind (ask (\<lambda>n. Inr (ucast (sat_add (unix_secs E n) 300)))) (\<lambda>deadline.
     rbind (of_result (amount_out_min amount expected_output slippage_bps)) (\<lambda>out_min.
     case pt of
       V2 \<Rightarrow>
         ret (if native_input then SwapExactETHForTokens out_min path recipient deadline
              else if native_output then SwapExactTokensForETH amount out_min path recipient deadline
              else SwapExactTokensForTokens amount out_min path recipient deadline)
     | V3 \<Rightarrow>
         rbind (of_result (route_fee_tiers route default_fee_tier (length path))) (\<lambda>fees.
         rbind (of_result (encode_uniswap_v3_path path fees)) (\<lambda>encoded.
         ret (ExactInput encoded recipient deadline amount out_min))))))"

definition build_swap_calldata ::
  "env \<Rightarrow> u256 \<Rightarrow> u256 \<Rightarrow> pool_swap_route \<Rightarrow> pool_type \<Rightarrow> u32 \<Rightarrow> addr \<Rightarrow> string \<Rightarrow> u32
     \<Rightarrow> (world, err, byte list) rt" where
  "build_swap_calldata E amount expected_output route pt default_fee_tier recipient chain slippage_bps =
     rbind (build_swap_call E amount expected_output route pt default_fee_tier recipient chain slippage_bps)
       (\<lambda>call. ret (abi_encode (lib_of E) call))"

definition chain_rpc_url :: "env \<Rightarrow> string \<Rightarrow> err + string" where
  "chain_rpc_url E chain =
     (case chain_cfg_of E chain of
        None \<Rightarrow> Inl (''Missing chain config for '' @ chain)
      | Some c \<Rightarrow>
          let rpc = trim (cc_rpc_url c) in
          if rpc = [] then Inl (''RPC URL is not configured for chain '' @ chain) else Inr rpc)"

definition provider_url :: "env \<Rightarrow> string \<Rightarrow> err + string" where
  "provider_url E chain =
     (case chain_rpc_url E chain of
        Inl e \<Rightarrow> Inl e
      | Inr url \<Rightarrow> parse_url E (''Invalid RPC URL for chain '' @ chain) url)"

text \<open>The last amount a router quotes; there is no quoter for V3, whose quote is zero.\<close>

definition get_on_chain_quote ::
  "env \<Rightarrow> string \<Rightarrow> addr \<Rightarrow> u256 \<Rightarrow> pool_swap_route \<Rightarrow> pool_type \<Rightarrow> (world, err, u256) rt" where
  "get_on_chain_quote E chain router_address amount route pt =
     rbind (of_result (provider_url E chain)) (\<lambda>url.
     rbind (of_result (resolve_route_tokens_for_native E route chain)) (\<lambda>(path, _, _).
     case pt of
       V2 \<Rightarrow>
         rbind (remote E (rpc_amounts_out (node_of E) url router_address amount path)) (\<lambda>amounts.
         if amounts = [] \<or> last amounts = 0 then fail ''getAmountsOut returned zero or empty''
         else ret (last amounts))
     | V3 \<Rightarrow> ret 0))"

subsection \<open>Arithmetic of the bound\<close>

lemma unat_ucast_up [word_facts]:
  "unat (ucast (w :: 64 word) :: u256) = unat w" "unat (ucast (v :: 32 word) :: u64) = unat v"
proof -
  have "unat w < 2 ^ 256" "unat v < 2 ^ 64"
    using unsigned_less [of w, where ?'a = nat] unsigned_less [of v, where ?'a = nat] by simp_all
  then show "unat (ucast w :: u256) = unat w" "unat (ucast v :: u64) = unat v"
    by (simp_all add: unsigned_ucast_eq take_bit_eq_mod)
qed

lemma amount_out_min_value:
  assumes "amount_out_min amount quoted bps = Inr m"
    and "unat base * 10000 < 2 ^ 256" "base = (if quoted = 0 then amount else quoted)"
  shows "unat bps < 10000 \<and> unat m = unat base * (10000 - unat bps) div 10000 \<and> m \<noteq> 0"
proof -
  let ?k = "10000 - ucast bps :: u64"
  have b: "bps < 10000" "m \<noteq> 0" and m: "m = (base * ucast ?k) div 10000"
    using assms by (auto simp: amount_out_min_def Let_def split: if_splits)
  from b have bps: "unat bps < 10000" by (simp add: word_less_nat_alt)
  have "unat ?k = 10000 - unat bps"
    using bps by (simp add: unat_sub_if_size word_facts)
  then have k: "unat (ucast ?k :: u256) = 10000 - unat bps" by (simp add: word_facts)
  have "unat base * (10000 - unat bps) < 2 ^ 256"
    using assms(2) by (rule le_less_trans [rotated]) simp
  then have "unat (base * ucast ?k) = unat base * (10000 - unat bps)"
    using k by (simp add: unat_mult_small)
  then show ?thesis using b bps m by (simp add: unat_div)
qed

subsection \<open>Routes that can be executed\<close>

lemma parse_addresses_Inr:
  "parse_addresses L ts = Inr as \<longleftrightarrow> map (addr_parse L) ts = map Some as"
proof (induction ts arbitrary: as)
  case (Cons t ts)
  show ?case
    by (cases "addr_parse L t"; cases as; cases "parse_addresses L ts")
      (auto simp: Cons.IH [symmetric])
qed auto

lemma resolve_route_shape:
  assumes "resolve_route_tokens_for_native E route chain = Inr (path, ni, no)"
  shows "length path = length (pr_hop_tokens route) \<and>
     (\<forall>i < length path. let t = pr_hop_tokens route ! i in
        if is_native_placeholder_address t then wrapped_native_address E chain = Inr (path ! i)
        else addr_parse (lib_of E) t = Some (path ! i))"
proof -
  let ?ts = "pr_hop_tokens route"
  obtain as where as: "parse_addresses (lib_of E) ?ts = Inr as"
    using assms
    by (auto simp: resolve_route_tokens_for_native_def parse_route_token_addresses_def split: sum.splits)
  then have eq: "map (addr_parse (lib_of E)) ?ts = map Some as"
    by (simp add: parse_addresses_Inr)
  then have len: "length as = length ?ts" by (metis length_map)
  have nth: "addr_parse (lib_of E) (?ts ! i) = Some (as ! i)" if "i < length ?ts" for i
    using eq that len by (metis nth_map)
  show ?thesis
  proof (cases "list_ex is_native_placeholder_address ?ts")
    case True
    then obtain w where "wrapped_native_address E chain = Inr w"
      "path = map2 (\<lambda>token a. if is_native_placeholder_address token then w else a) ?ts as"
      using assms as
      by (auto simp: resolve_route_tokens_for_native_def parse_route_token_addresses_def Let_def
          split: sum.splits)
    then show ?thesis using len nth by (simp add: Let_def)
  next
    case False
    then have "path = as"
      using assms as
      by (simp add: resolve_route_tokens_for_native_def parse_route_token_addresses_def Let_def)
    moreover have "\<not> is_native_placeholder_address (?ts ! i)" if "i < length ?ts" for i
      using False that by (auto simp: list_ex_iff)
    ultimately show ?thesis using len nth by (simp add: Let_def)
  qed
qed

lemma parse_pool_swap_route_lengths:
  assumes "parse_pool_swap_route L raw pool = Some route"
  shows "pr_hops route \<noteq> []" "eq_ic (hd (pr_hops route)) pool"
    "length (pr_hop_tokens route) = length (pr_hops route) + 1"
  using assms by (auto simp: parse_pool_swap_route_def Let_def split: if_splits)

lemma route_fee_tiers_total:
  "2 \<le> n \<Longrightarrow> \<exists>fees. route_fee_tiers route d n = Inr fees \<and> length fees = n - 1"
  by (auto simp: route_fee_tiers_def Let_def)

lemma encode_path_exists:
  "(\<exists>bs. encode_uniswap_v3_path tokens fees = Inr bs) \<longleftrightarrow>
     2 \<le> length tokens \<and> length fees = length tokens - 1 \<and> list_all (\<lambda>f. f \<le> 0x00FFFFFF) fees"
proof (cases "2 \<le> length tokens \<and> length fees = length tokens - 1")
  case True
  then have len: "length tokens = Suc (length fees)" by linarith
  have "(\<exists>bs. encode_hops tokens fees = Inr bs) \<longleftrightarrow> \<not> (\<exists>e. encode_hops tokens fees = Inl e)"
    by (cases "encode_hops tokens fees") auto
  also have "\<dots> \<longleftrightarrow> list_all (\<lambda>f. f \<le> 0x00FFFFFF) fees"
    by (auto simp: encode_hops_error [OF len] list_all_iff)
  finally show ?thesis using True by (auto simp: encode_uniswap_v3_path_def len)
qed (auto simp: encode_uniswap_v3_path_def)

section \<open>Properties\<close>

text \<open>C32: The packed V3 path: it is produced exactly for at least two tokens with one fee below
  \<open>2^24\<close> between each two, it is \<open>20 n + 3 (n - 1)\<close> bytes long, and a router reading it finds
  the same tokens and fees; so distinct routes never share a path.\<close>

theorem v3_path_roundtrip:
  "((\<exists>bs. encode_uniswap_v3_path tokens fees = Inr bs) \<longleftrightarrow>
      2 \<le> length tokens \<and> length fees = length tokens - 1 \<and> list_all (\<lambda>f. f \<le> 0x00FFFFFF) fees) \<and>
   (encode_uniswap_v3_path tokens fees = Inr bs \<longrightarrow>
      decode_v3_path bs = Some (tokens, map unat fees) \<and>
      length bs = 20 * length tokens + 3 * length fees)"
proof
  show "(\<exists>bs. encode_uniswap_v3_path tokens fees = Inr bs) \<longleftrightarrow>
      2 \<le> length tokens \<and> length fees = length tokens - 1 \<and> list_all (\<lambda>f. f \<le> 0x00FFFFFF) fees"
    by (rule encode_path_exists)
  show "encode_uniswap_v3_path tokens fees = Inr bs \<longrightarrow>
      decode_v3_path bs = Some (tokens, map unat fees) \<and> length bs = 20 * length tokens + 3 * length fees"
  proof (cases "2 \<le> length tokens \<and> length fees = length tokens - 1")
    case True
    then have len: "length tokens = Suc (length fees)" by linarith
    show ?thesis using True encode_hops_decode [OF _ len] by (auto simp: encode_uniswap_v3_path_def len)
  qed (auto simp: encode_uniswap_v3_path_def)
qed

theorem v3_path_roundtrip_witness:
  "\<exists>bs. encode_uniswap_v3_path [1, 2, 3] [500, 3000] = Inr bs \<and>
     decode_v3_path bs = Some ([1, 2, 3], [500, 3000]) \<and> length bs = 66"
proof -
  obtain bs where "encode_uniswap_v3_path [1, 2, 3] [500, 3000] = Inr bs"
    using v3_path_roundtrip [of "[1, 2, 3]" "[500, 3000]"] by auto
  then show ?thesis using v3_path_roundtrip [of "[1, 2, 3]" "[500, 3000]" bs] by simp
qed


text \<open>The minimal output is the base amount less the slippage, rounded down: never more than
  the base amount, never zero, and a slippage of 100 percent or more is refused.\<close>

theorem amount_out_min_correct:
  assumes "unat (if quoted = 0 then amount else quoted) * 10000 < 2 ^ 256"
  shows "case amount_out_min amount quoted bps of
      Inr m \<Rightarrow> unat bps < 10000 \<and> m \<noteq> 0 \<and>
         unat m = unat (if quoted = 0 then amount else quoted) * (10000 - unat bps) div 10000
    | Inl e \<Rightarrow> 10000 \<le> unat bps \<or>
         unat (if quoted = 0 then amount else quoted) * (10000 - unat bps) < 10000"
proof (cases "amount_out_min amount quoted bps")
  case (Inr m)
  with amount_out_min_value [OF Inr assms refl] show ?thesis by simp
next
  case (Inl e)
  let ?b = "if quoted = 0 then amount else quoted" and ?k = "10000 - ucast bps :: u64"
  show ?thesis
  proof (cases "unat bps < 10000")
    case True
    then have lt: "bps < 10000" by (simp add: word_less_nat_alt)
    have "unat ?k = 10000 - unat bps"
      using True by (simp add: unat_sub_if_size word_facts)
    then have k: "unat (ucast ?k :: u256) = 10000 - unat bps" by (simp add: word_facts)
    have "unat ?b * (10000 - unat bps) < 2 ^ 256"
      using assms by (rule le_less_trans [rotated]) simp
    then have *: "unat (?b * ucast ?k) = unat ?b * (10000 - unat bps)"
      using k by (simp add: unat_mult_small)
    have "(?b * ucast ?k) div 10000 = 0"
      using Inl lt by (auto simp: amount_out_min_def Let_def split: if_splits)
    then have "unat ((?b * ucast ?k) div 10000) = 0" by simp
    then have "unat ?b * (10000 - unat bps) div 10000 = 0"
      by (simp only: unat_div *) simp
    then show ?thesis using Inl by (simp add: div_eq_0_iff)
  qed (simp add: Inl)
qed

theorem amount_out_min_correct_witness:
  "case amount_out_min 7 1000000 250 of Inr m \<Rightarrow> unat m = 975000 | Inl e \<Rightarrow> False"
  using amount_out_min_correct [of 1000000 7 250]
  by (simp add: amount_out_min_def Let_def)

text \<open>On a V3 pool the bound ignores the price: the quote is always zero, so the minimal
  output, an amount of the target token, is the slippage fraction of the amount sold.\<close>

theorem v3_bound_ignores_price:
  assumes "get_on_chain_quote E chain router amount route V3 s = (Inr quoted, s1)"
    and "build_swap_call E amount quoted route V3 fee recipient chain bps s1 = (Inr call, s2)"
    and "unat amount * 10000 < 2 ^ 256"
  shows "\<exists>path deadline out_min. call = ExactInput path recipient deadline amount out_min \<and>
     unat out_min = unat amount * (10000 - unat bps) div 10000"
proof -
  have q: "quoted = 0"
    using assms(1) by (auto simp: get_on_chain_quote_def rt_inversions)
  obtain path deadline out_min where call: "call = ExactInput path recipient deadline amount out_min"
    and m: "amount_out_min amount quoted bps = Inr out_min"
    using assms(2) by (auto simp: build_swap_call_def rt_inversions)
  show ?thesis using call amount_out_min_value [OF m] assms(3) q by simp
qed

definition sample_route :: pool_swap_route where
  "sample_route =
     \<lparr>pr_hops = [''0x00000000000000000000000000000000000000aa''],
      pr_hop_tokens = [''0x0000000000000000000000000000000000000001'',
                       ''0x0000000000000000000000000000000000000002''],
      pr_fee_tiers = []\<rparr>"

theorem v3_bound_ignores_price_witness:
  "\<exists>path deadline out_min.
     fst (build_swap_call sample_env 1000000 0 sample_route V3 3000 5 ''bsc'' 100 empty_world) =
       Inr (ExactInput path 5 deadline 1000000 out_min) \<and> unat out_min = 990000"
proof -
  let ?m = "build_swap_call sample_env 1000000 0 sample_route V3 3000 5 ''bsc'' 100"
  have q: "get_on_chain_quote sample_env ''bsc'' 0xbb 1000000 sample_route V3 empty_world = (Inr 0, empty_world)"
    by code_simp
  have "\<not> isl (fst (?m empty_world))" by code_simp
  then obtain call t where b: "?m empty_world = (Inr call, t)"
    by (cases "?m empty_world"; cases "fst (?m empty_world)") auto
  show ?thesis using v3_bound_ignores_price [OF q b] b by auto
qed


end
