(* ===== verification/Receipt.thy ===== *)
theory Receipt
  imports Route
begin

text \<open>
  Transaction receipts (\<open>crates/execution-engine/src/main.rs\<close>): whether a receipt reports
  success, and how much of the target token the logs say the session wallet received.
\<close>

section \<open>Status\<close>

definition parse_hex_u64 :: "string \<Rightarrow> nat option" where
  "parse_hex_u64 s =
     (let d = (case s of [] \<Rightarrow> [] | c # r \<Rightarrow> if c = CHR ''+'' then r else s)
      in if d = [] then None
         else opt_bind (hex_digits d 0) (\<lambda>n. if n \<le> max_u64 then Some n else None))"

definition parse_receipt_success_from_json :: "json \<Rightarrow> bool option" where
  "parse_receipt_success_from_json receipt =
     (case j_get ''status'' receipt of
        None \<Rightarrow> None
      | Some (JBool v) \<Rightarrow> Some v
      | Some (JPos n) \<Rightarrow> Some (n \<noteq> 0)
      | Some (JStr v) \<Rightarrow>
          let raw = trim v in
          if starts_with ''0x'' raw \<or> starts_with ''0X'' raw
          then map_option (\<lambda>n. n \<noteq> 0) (parse_hex_u64 (drop 2 raw))
          else map_option (\<lambda>n. n \<noteq> 0) (parse_unsigned max_u64 raw)
      | Some _ \<Rightarrow> None)"

section \<open>Logs\<close>

definition strip_0x :: "string \<Rightarrow> string" where
  "strip_0x s = trim_start_matches ''0X'' (trim_start_matches ''0x'' (trim s))"

definition parse_u256_from_hex :: "lib \<Rightarrow> string \<Rightarrow> u256 option" where
  "parse_u256_from_hex L s =
     (let trimmed = strip_0x s in if trimmed = [] then None else u256_radix L 16 trimmed)"

definition parse_address_from_topic :: "lib \<Rightarrow> string \<Rightarrow> addr option" where
  "parse_address_from_topic L topic =
     (let trimmed = strip_0x topic in
      if length trimmed < 40 then None
      else addr_parse L (''0x'' @ drop (length trimmed - 40) trimmed))"

definition j_str_or_empty :: "json option \<Rightarrow> string" where
  "j_str_or_empty x = opt_or [] (opt_bind x j_str)"

definition log_address :: "json \<Rightarrow> string" where
  "log_address lg = lower (j_str_or_empty (j_get ''address'' lg))"

definition log_topics :: "json \<Rightarrow> json list option" where
  "log_topics lg = opt_bind (j_get ''topics'' lg) j_array"

definition nth_topic :: "json list \<Rightarrow> nat \<Rightarrow> string" where
  "nth_topic topics i = j_str_or_empty (if i < length topics then Some (topics ! i) else None)"

text \<open>
  One pass over the logs.  \<open>None\<close> is the early return of the \<open>?\<close> on a log of the token without
  a \<open>topics\<close> array; \<open>continue\<close> keeps the tot.
\<close>

fun received_loop ::
  "lib \<Rightarrow> string \<Rightarrow> b256 \<Rightarrow> addr option \<Rightarrow> bool \<Rightarrow> json list \<Rightarrow> u256 \<Rightarrow> u256 option" where
  "received_loop L token topic filt data_only [] tot = Some tot"
| "received_loop L token topic filt data_only (lg # logs) tot =
     (if log_address lg \<noteq> token then received_loop L token topic filt data_only logs tot
      else case log_topics lg of
        None \<Rightarrow> None
      | Some topics \<Rightarrow>
          (case b256_parse L (nth_topic topics 0) of
             None \<Rightarrow> received_loop L token topic filt data_only logs tot
           | Some topic0 \<Rightarrow>
               if topic0 \<noteq> topic then received_loop L token topic filt data_only logs tot
               else if \<not> data_only \<and> filt \<noteq> None \<and>
                       parse_address_from_topic L (nth_topic topics 2) \<noteq> filt
               then received_loop L token topic filt data_only logs tot
               else
                 (case parse_u256_from_hex L (j_str_or_empty (j_get ''data'' lg)) of
                    Some amount \<Rightarrow> received_loop L token topic filt data_only logs (tot + amount)
                  | None \<Rightarrow> received_loop L token topic filt data_only logs tot)))"

definition extract_received_from_logs ::
  "lib \<Rightarrow> json \<Rightarrow> string \<Rightarrow> b256 \<Rightarrow> addr option \<Rightarrow> bool \<Rightarrow> u256 option" where
  "extract_received_from_logs L receipt token topic filt data_only =
     opt_bind (opt_bind (j_get ''logs'' receipt) j_array) (\<lambda>logs.
     opt_bind (received_loop L token topic filt data_only logs 0) (\<lambda>tot.
     if tot = 0 then None else Some tot))"

definition transfer_topic :: b256 where
  "transfer_topic = 0xddf252ad1be2c89b69c2b068fc378daa952ba7f163c4a11628f55a4df523b3ef"

definition withdrawal_topic :: b256 where
  "withdrawal_topic = 0x7fcf532c15f0a6db0bd6d0e038bea71d30d808c7d98cb3bf7268a95bf5081b65"

definition received_of_receipt :: "env \<Rightarrow> string \<Rightarrow> string \<Rightarrow> addr \<Rightarrow> json \<Rightarrow> u256 option" where
  "received_of_receipt E chain target_token recipient receipt =
     (let L = lib_of E in
      if is_native_placeholder_address target_token then
        extract_received_from_logs L receipt
          (lower (opt_or [] (wrapped_native_token_for_chain (cfg E) chain))) withdrawal_topic None True
      else
        extract_received_from_logs L receipt (lower target_token) transfer_topic (Some recipient) False)"

text \<open>\<open>None\<close>: no receipt or no status yet; otherwise success and the amount received.\<close>

definition fetch_receipt_with_received ::
  "env \<Rightarrow> string \<Rightarrow> string \<Rightarrow> string \<Rightarrow> addr
     \<Rightarrow> (world, err, (bool \<times> string option) option) rt" where
  "fetch_receipt_with_received E chain tx_hash target_token recipient =
     rbind (of_result (provider_url E chain)) (\<lambda>url.
     rbind (of_result (ok_or (''Invalid tx hash: '' @ tx_hash) (b256_parse (lib_of E) tx_hash))) (\<lambda>h.
     rbind (remote E (rpc_receipt (node_of E) url h)) (\<lambda>receipt.
     case receipt of
       None \<Rightarrow> ret None
     | Some r \<Rightarrow>
         (case parse_receipt_success_from_json r of
            None \<Rightarrow> ret None
          | Some success \<Rightarrow>
              if \<not> success then ret (Some (False, None))
              else ret (Some (True,
                map_option (u256_show (lib_of E)) (received_of_receipt E chain target_token recipient r)))))))"

context world_rel begin

lemma keeps_fetch_receipt: "keeps R (fetch_receipt_with_received E chain h token r)"
  unfolding fetch_receipt_with_received_def by (intro keeps_world)

end

section \<open>What the loop computes\<close>

definition log_amount :: "lib \<Rightarrow> string \<Rightarrow> b256 \<Rightarrow> addr option \<Rightarrow> bool \<Rightarrow> json \<Rightarrow> u256" where
  "log_amount L token topic filt data_only lg =
     (if log_address lg = token \<and>
         b256_parse L (nth_topic (the (log_topics lg)) 0) = Some topic \<and>
         (data_only \<or> filt = None \<or> parse_address_from_topic L (nth_topic (the (log_topics lg)) 2) = filt)
      then opt_or 0 (parse_u256_from_hex L (j_str_or_empty (j_get ''data'' lg))) else 0)"

lemma received_loop_step:
  "received_loop L token topic filt data_only (lg # logs) tot =
     (if log_address lg = token \<and> log_topics lg = None then None
      else received_loop L token topic filt data_only logs (tot + log_amount L token topic filt data_only lg))"
proof (cases "log_address lg = token")
  case True
  note [simp] = True
  show ?thesis
  proof (cases "log_topics lg")
    case (Some ts)
    note [simp] = Some
    show ?thesis
    proof (cases "b256_parse L (nth_topic ts 0) = Some topic")
      case True
      then show ?thesis
        by (cases "parse_u256_from_hex L (j_str_or_empty (j_get ''data'' lg))")
          (simp_all add: log_amount_def)
    next
      case False
      then show ?thesis
        by (cases "b256_parse L (nth_topic ts 0)") (simp_all add: log_amount_def)
    qed
  qed simp
qed (simp add: log_amount_def)

declare received_loop.simps(2) [simp del]

lemma received_loop_sum:
  "received_loop L token topic filt data_only logs tot =
     (if list_ex (\<lambda>lg. log_address lg = token \<and> log_topics lg = None) logs then None
      else Some (tot + sum_list (map (log_amount L token topic filt data_only) logs)))"
  by (induction logs arbitrary: tot) (auto simp: received_loop_step add.assoc)

section \<open>Properties\<close>

lemma parse_hex_u64_show:
  assumes "n < 16 ^ k" "0 < k" "n \<le> max_u64"
  shows "parse_hex_u64 (show_hex k n) = Some n"
proof -
  obtain c r where cr: "show_hex k n = c # r"
    using assms by (cases "show_hex k n") (metis length_show_hex list.size(3) less_irrefl, blast)
  have "hex_digits (show_hex k n) 0 = Some n" using assms by (simp add: hex_digits_show_hex)
  moreover from this have "hex_val c \<noteq> None" by (auto simp: cr split: option.splits)
  then have "c \<noteq> CHR ''+''" by (auto simp: hex_val_def is_digit_def code_def)
  ultimately show ?thesis using assms by (simp add: parse_hex_u64_def cr Let_def opt_bind_def)
qed

lemma digit_string_not_hex: "all_digits s \<Longrightarrow> trim s = s \<and> \<not> starts_with ''0x'' s \<and> \<not> starts_with ''0X'' s"
proof -
  assume a: "all_digits s"
  have "\<not> is_ws c \<and> c \<noteq> CHR ''x'' \<and> c \<noteq> CHR ''X''" if "is_digit c" for c
    using that by (auto simp: is_digit_def is_ws_def code_def)
  moreover have "is_digit c" if "c \<in> set s" for c
    using a that by (auto simp: all_digits_def list_all_iff)
  ultimately have ne: "\<forall>c \<in> set s. \<not> is_ws c \<and> c \<noteq> CHR ''x'' \<and> c \<noteq> CHR ''X''" by blast
  then have "trim s = s" by (intro trim_no_ws) blast
  moreover have "d \<in> set s" if "starts_with [c, d] s" for c d
    using that by (cases s; cases "tl s") (auto simp: starts_with_def)
  then have "\<not> starts_with ''0x'' s" "\<not> starts_with ''0X'' s" using ne by blast+
  ultimately show ?thesis by blast
qed

text \<open>The three encodings of a status agree: a number, its decimal text and its hexadecimal
  text are all read as success exactly when the number is not zero.\<close>

theorem receipt_status_encodings:
  assumes "n \<le> max_u64" "n < 16 ^ k" "0 < k"
  shows "parse_receipt_success_from_json (JObj [(''status'', JPos (of_nat n))]) = Some (n \<noteq> 0) \<and>
     parse_receipt_success_from_json (JObj [(''status'', JStr (show_nat n))]) = Some (n \<noteq> 0) \<and>
     parse_receipt_success_from_json (JObj [(''status'', JStr (''0x'' @ show_hex k n))]) = Some (n \<noteq> 0)"
proof (intro conjI)
  have "n < 2 ^ 64" using assms by (simp add: max_u64_def)
  then have "(of_nat n :: u64) = 0 \<longleftrightarrow> n = 0"
    by (auto simp: word_of_nat_eq_0_iff dest: nat_dvd_not_less)
  then show "parse_receipt_success_from_json (JObj [(''status'', JPos (of_nat n))]) = Some (n \<noteq> 0)"
    by (simp add: parse_receipt_success_from_json_def)
  show "parse_receipt_success_from_json (JObj [(''status'', JStr (show_nat n))]) = Some (n \<noteq> 0)"
    using digit_string_not_hex [OF all_digits_show_nat, of n] parse_show_nat [OF assms(1)]
    by (simp add: parse_receipt_success_from_json_def Let_def)
  have "trim (''0x'' @ show_hex k n) = ''0x'' @ show_hex k n"
  proof (rule trim_no_ws)
    have "\<forall>c \<in> set (show_hex k n). \<not> is_ws c"
      by (induction k arbitrary: n) (auto simp: hex_char_def is_ws_def code_char_of)
    then show "\<forall>c \<in> set (''0x'' @ show_hex k n). \<not> is_ws c"
      by (auto simp: is_ws_def code_def)
  qed
  then show "parse_receipt_success_from_json (JObj [(''status'', JStr (''0x'' @ show_hex k n))]) = Some (n \<noteq> 0)"
    using parse_hex_u64_show [OF assms(2,3,1)] starts_with_append [of "''0x''" "show_hex k n"]
    by (simp add: parse_receipt_success_from_json_def Let_def)
qed

theorem receipt_status_encodings_witness:
  "parse_receipt_success_from_json (JObj [(''status'', JStr (''0x'' @ show_hex 2 1))]) = Some True"
  using receipt_status_encodings [of 1 2] by (simp add: max_u64_def)

text \<open>C34: The amount received is the sum, modulo \<open>2^256\<close>, of the amounts of the logs of the
  token with the right event and recipient, and unknown if that sum is zero; but one log of
  the token without topics makes the whole receipt unreadable, whatever the other logs say.\<close>

theorem received_amount_correct:
  assumes "j_get ''logs'' receipt = Some (JArr logs)"
  shows "extract_received_from_logs L receipt token topic filt data_only =
     (let tot = sum_list (map (log_amount L token topic filt data_only) logs) in
      if list_ex (\<lambda>lg. log_address lg = token \<and> log_topics lg = None) logs \<or> tot = 0
      then None else Some tot)"
  using assms by (auto simp: extract_received_from_logs_def received_loop_sum opt_bind_def Let_def)

definition sample_log :: "string \<Rightarrow> string \<Rightarrow> json" where
  "sample_log a d = JObj [(''address'', JStr a), (''data'', JStr d),
     (''topics'', JArr [JStr ''0xddf252ad1be2c89b69c2b068fc378daa952ba7f163c4a11628f55a4df523b3ef''])]"

theorem received_amount_correct_witness:
  "extract_received_from_logs sample_lib
     (JObj [(''logs'', JArr [sample_log ''0xAB'' ''0x10'', sample_log ''0xcd'' ''0x99'', sample_log ''0xab'' ''0x05''])])
     ''0xab'' transfer_topic None False = Some 21"
proof -
  let ?logs = "[sample_log ''0xAB'' ''0x10'', sample_log ''0xcd'' ''0x99'', sample_log ''0xab'' ''0x05'']"
  have "sum_list (map (log_amount sample_lib ''0xab'' transfer_topic None False) ?logs) = 21"
    by code_simp
  moreover have "list_ex (\<lambda>lg. log_address lg = ''0xab'' \<and> log_topics lg = None) ?logs = False"
    by code_simp
  ultimately show ?thesis
    using received_amount_correct [of "JObj [(''logs'', JArr ?logs)]" ?logs sample_lib "''0xab''" transfer_topic None False]
    by simp
qed

end
