(* ===== verification/Kms.thy ===== *)
theory Kms
  imports Proto Sample
begin

text \<open>
  The wallet service (\<open>crates/kms/src/main.rs\<close>, \<open>crypto.rs\<close>): the master key, creating a wallet
  whose private key is stored only sealed under the master key, looking wallets up, balances,
  signing and the export of a key to its owner.  AES-GCM, key generation and transaction
  signing are parameters; the law that opening undoes sealing is a hypothesis where it is used.
\<close>

definition status_err :: "grpc_code \<Rightarrow> string \<Rightarrow> (world, err, 'a) rt \<Rightarrow> (world, status, 'a) rt" where
  "status_err c msg m = map_err (\<lambda>e. (c, msg @ e)) m"

definition parse_id :: "env \<Rightarrow> string \<Rightarrow> string \<Rightarrow> (world, status, uuid) rt" where
  "parse_id E what s = of_result (ok_or (InvalidArgument, ''Invalid '' @ what) (uuid_parse (lib_of E) s))"

section \<open>Sealing keys\<close>

definition parse_master_key :: "env \<Rightarrow> err + byte list" where
  "parse_master_key E =
     (case hex_decode (lib_of E) (master_encryption_key (kms (cfg E))) of
        None \<Rightarrow> Inl ''MASTER_ENCRYPTION_KEY must be valid hex''
      | Some bs \<Rightarrow>
          if length bs \<noteq> 32 then Inl ''MASTER_ENCRYPTION_KEY must be exactly 32 bytes (64 hex chars)''
          else Inr bs)"

definition encrypt_key :: "env \<Rightarrow> byte list \<Rightarrow> byte list \<Rightarrow> (world, err, byte list \<times> byte list) rt" where
  "encrypt_key E master plaintext =
     rbind (ask (\<lambda>n. Inr (random_bytes E n))) (\<lambda>nonce.
     rbind (of_result (ok_or ''Encryption failed'' (aead_seal (lib_of E) master nonce plaintext))) (\<lambda>c.
     ret (c, nonce)))"

definition decrypt_key :: "env \<Rightarrow> byte list \<Rightarrow> byte list \<Rightarrow> byte list \<Rightarrow> err + byte list" where
  "decrypt_key E master ciphertext nonce =
     ok_or ''Decryption failed'' (aead_open (lib_of E) master nonce ciphertext)"

section \<open>Statements\<close>

definition clashes :: "wallet_row \<Rightarrow> wallet_row \<Rightarrow> bool" where
  "clashes w v \<longleftrightarrow> w_id v = w_id w \<or> (w_chain v = w_chain w \<and> w_address v = w_address w)"

definition insert_wallet :: "wallet_row \<Rightarrow> world \<Rightarrow> (err + unit) \<times> world" where
  "insert_wallet w s =
     (if w_chain w \<notin> set chain_ids then (Inl ''invalid input value for enum chain_id'', s)
      else if \<not> list_ex (\<lambda>u. u_id u = w_user w) (users s) then (Inl ''violates foreign key constraint'', s)
      else if list_ex (clashes w) (wallets s)
      then (Inl ''duplicate key value violates unique constraint'', s)
      else (Inr (), s\<lparr>wallets := wallets s @ [w]\<rparr>))"

definition wallet_by_id :: "uuid \<Rightarrow> world \<Rightarrow> wallet_row option" where
  "wallet_by_id i s = find (\<lambda>w. w_id w = i) (wallets s)"

definition wallet_owned_by :: "uuid \<Rightarrow> uuid \<Rightarrow> world \<Rightarrow> wallet_row option" where
  "wallet_owned_by i user s = find (\<lambda>w. w_id w = i \<and> w_user w = user) (wallets s)"

definition show_wallet :: "env \<Rightarrow> wallet_row \<Rightarrow> wallet_info" where
  "show_wallet E w = \<lparr>wi_id = uuid_show (lib_of E) (w_id w), wi_address = w_address w,
     wi_chain = w_chain w, wi_created = time_show (lib_of E) (w_created w)\<rparr>"

section \<open>Operations\<close>

definition kms_chain :: "string \<Rightarrow> string" where
  "kms_chain c = (if trim c = [] then ''bsc'' else lower (trim c))"

definition store_wallet ::
  "env \<Rightarrow> uuid \<Rightarrow> string \<Rightarrow> string \<Rightarrow> byte list \<Rightarrow> byte list \<Rightarrow> (world, status, string \<times> string) rt" where
  "store_wallet E user chain address ciphertext nonce =
     rbind (fresh E) (\<lambda>wallet_id.
     rbind (now E) (\<lambda>t.
     rbind (status_err Internal ''DB error: ''
              (sql E (insert_wallet \<lparr>w_id = wallet_id, w_user = user, w_chain = chain,
                 w_address = address, w_key = ciphertext, w_nonce = nonce, w_created = t\<rparr>))) (\<lambda>_.
     ret (uuid_show (lib_of E) wallet_id, address))))"

definition create_wallet ::
  "env \<Rightarrow> byte list \<Rightarrow> string \<Rightarrow> string \<Rightarrow> (world, status, string \<times> string) rt" where
  "create_wallet E master user_id chain0 =
     rbind (parse_id E ''user_id'' user_id) (\<lambda>user.
     let chain = kms_chain chain0; L = lib_of E in
     if chain \<notin> fst ` set (chain_entries (cfg E)) then fail (InvalidArgument, ''Unsupported chain'')
     else
       rbind (ask (\<lambda>n. Inr (random_bytes E n))) (\<lambda>key.
       let address = addr_debug L (key_addr L key) in
       rbind (status_err Internal ''Encryption error: '' (encrypt_key E master key)) (\<lambda>(ciphertext, nonce).
       store_wallet E user chain address ciphertext nonce)))"

definition get_wallet :: "env \<Rightarrow> string \<Rightarrow> (world, status, wallet_info) rt" where
  "get_wallet E wallet_id =
     rbind (parse_id E ''wallet_id'' wallet_id) (\<lambda>i.
     rbind (status_err Internal ''DB error: '' (query E (wallet_by_id i))) (\<lambda>row.
     rbind (of_result (ok_or (NotFound, ''Wallet not found'') row)) (\<lambda>w.
     ret (show_wallet E w))))"

definition list_wallets :: "env \<Rightarrow> string \<Rightarrow> (world, status, wallet_info list) rt" where
  "list_wallets E user_id =
     rbind (parse_id E ''user_id'' user_id) (\<lambda>user.
     rbind (status_err Internal ''DB error: ''
              (query E (\<lambda>s. sort_key w_created (filter (\<lambda>w. w_user w = user) (wallets s))))) (\<lambda>rows.
     ret (map (show_wallet E) rows)))"

definition balance_url :: "env \<Rightarrow> string \<Rightarrow> string \<Rightarrow> status + string" where
  "balance_url E chain rpc_url =
     (let over = trim rpc_url in
      if over \<noteq> [] then
        (if url_ok (lib_of E) over then Inr over else Inl (InvalidArgument, ''Invalid rpc_url''))
      else
        (case map_of (chain_entries (cfg E)) chain of
           Some c \<Rightarrow>
             let url = trim (cc_rpc_url c) in
             if url = [] then Inl (FailedPrecondition, ''No RPC URL configured for chain '' @ chain)
             else if url_ok (lib_of E) url then Inr url
             else Inl (FailedPrecondition, ''Invalid RPC URL configured for chain '' @ chain)
         | None \<Rightarrow> Inl (FailedPrecondition, ''No RPC URL configured for chain '' @ chain)))"

definition get_balance :: "env \<Rightarrow> string \<Rightarrow> string \<Rightarrow> string \<Rightarrow> (world, status, string \<times> u32) rt" where
  "get_balance E wallet_id token_address rpc_url =
     (let L = lib_of E; N = node_of E in
      rbind (parse_id E ''wallet_id'' wallet_id) (\<lambda>i.
      rbind (status_err Internal ''DB error: '' (query E (wallet_by_id i))) (\<lambda>row.
      rbind (of_result (ok_or (NotFound, ''Wallet not found'') row)) (\<lambda>w.
      rbind (of_result (balance_url E (w_chain w) rpc_url)) (\<lambda>url.
      rbind (of_result (ok_or (Internal, ''Invalid wallet address in DB'') (addr_parse L (w_address w)))) (\<lambda>address.
      let token = normalize_token_for_chain (cfg E) (w_chain w) (trim token_address) in
      if token = [] then
        rbind (status_err Internal ''RPC error: '' (remote E (rpc_native_balance N url address))) (\<lambda>balance.
        ret (u256_show L balance, 18))
      else
        rbind (of_result (ok_or (InvalidArgument, ''Invalid token_address'') (addr_parse L token))) (\<lambda>t.
        rbind (status_err Internal ''decimals() call failed: '' (remote E (rpc_decimals N url t))) (\<lambda>d.
        rbind (status_err Internal ''balanceOf() call failed: '' (remote E (rpc_balance_of N url t address))) (\<lambda>balance.
        ret (u256_show L balance, ucast d))))))))))"

definition sign_transaction ::
  "env \<Rightarrow> byte list \<Rightarrow> string \<Rightarrow> byte list \<Rightarrow> (world, status, byte list \<times> string) rt" where
  "sign_transaction E master wallet_id unsigned_tx =
     (let L = lib_of E in
      rbind (parse_id E ''wallet_id'' wallet_id) (\<lambda>i.
      rbind (status_err Internal ''DB error: '' (query E (wallet_by_id i))) (\<lambda>row.
      rbind (of_result (ok_or (NotFound, ''Wallet not found'') row)) (\<lambda>w.
      rbind (status_err Internal ''Decryption error: ''
               (of_result (decrypt_key E master (w_key w) (w_nonce w)))) (\<lambda>key.
      if \<not> key_ok L key then fail (Internal, ''Key reconstruction error'')
      else
        rbind (of_result (ok_or (InvalidArgument, ''Failed to deserialize TransactionRequest'')
                 (tx_of_json L unsigned_tx))) (\<lambda>tx.
        rbind (of_result (ok_or (Internal, ''Transaction signing error'') (sign_tx L key tx))) (\<lambda>(raw, h).
        ret (raw, b256_debug L h))))))))"

definition export_private_key ::
  "env \<Rightarrow> byte list \<Rightarrow> string \<Rightarrow> string \<Rightarrow> (world, status, string \<times> string) rt" where
  "export_private_key E master wallet_id user_id =
     rbind (parse_id E ''wallet_id'' wallet_id) (\<lambda>i.
     rbind (parse_id E ''user_id'' user_id) (\<lambda>user.
     rbind (status_err Internal ''DB error: '' (query E (wallet_owned_by i user))) (\<lambda>row.
     rbind (of_result (ok_or (NotFound, ''Wallet not found or not owned by user'') row)) (\<lambda>w.
     rbind (status_err Internal ''Decryption error: ''
              (of_result (decrypt_key E master (w_key w) (w_nonce w)))) (\<lambda>key.
     ret (''0x'' @ hex_encode (lib_of E) key, w_address w))))))"

section \<open>Frame\<close>

text \<open>
  Everything but the creation of a wallet only reads the tables.  \<open>tables\<close> are the tables of a
  world; a computation that keeps them equal changes nothing but counters and the clock.
\<close>

definition same_tables :: "world \<Rightarrow> world \<Rightarrow> bool" where
  "same_tables s t \<longleftrightarrow>
     users t = users s \<and> wallets t = wallets s \<and> sessions t = sessions s \<and>
     session_pools t = session_pools s \<and> trades t = trades s \<and> refunds t = refunds s \<and>
     deposits t = deposits s"

interpretation tab: world_rel same_tables
  by unfold_locales (auto simp: same_tables_def)

context world_rel begin

lemma keeps_status_err: "keeps R m \<Longrightarrow> keeps R (status_err c msg m)"
  unfolding status_err_def by (rule keeps_map_err)

lemma keeps_parse_id: "keeps R (parse_id E what x)"
  unfolding parse_id_def by (rule keeps_of_result)

lemmas keeps_kms = keeps_status_err keeps_parse_id keeps_world

lemma keeps_sign_transaction: "keeps R (sign_transaction E master w tx)"
  unfolding sign_transaction_def by (intro keeps_kms)

lemma keeps_get_wallet: "keeps R (get_wallet E w)"
  unfolding get_wallet_def by (intro keeps_kms)

lemma keeps_get_balance: "keeps R (get_balance E w tok url)"
  unfolding get_balance_def by (intro keeps_kms)

lemma keeps_export: "keeps R (export_private_key E master w u)"
  unfolding export_private_key_def by (intro keeps_kms)

lemma keeps_list_wallets: "keeps R (list_wallets E u)"
  unfolding list_wallets_def by (intro keeps_kms)

end

section \<open>The vault invariant\<close>

text \<open>Every stored key opens under the master key to the key of the wallet's address; identifiers
  are unique, and so are addresses within a chain.\<close>

definition holds_key :: "env \<Rightarrow> byte list \<Rightarrow> wallet_row \<Rightarrow> byte list \<Rightarrow> bool" where
  "holds_key E master w key \<longleftrightarrow>
     decrypt_key E master (w_key w) (w_nonce w) = Inr key \<and>
     w_address w = addr_debug (lib_of E) (key_addr (lib_of E) key)"

definition vault_ok :: "env \<Rightarrow> byte list \<Rightarrow> world \<Rightarrow> bool" where
  "vault_ok E master s \<longleftrightarrow>
     (\<forall>w \<in> set (wallets s). \<exists>key. holds_key E master w key) \<and>
     distinct (map w_id (wallets s)) \<and>
     distinct (map (\<lambda>w. (w_chain w, w_address w)) (wallets s))"

definition seal_law :: "lib \<Rightarrow> bool" where
  "seal_law L \<longleftrightarrow> (\<forall>k n p c. aead_seal L k n p = Some c \<longrightarrow> aead_open L k n c = Some p)"

lemma map_err_Inr: "map_err g m s = (Inr x, t) \<longleftrightarrow> m s = (Inr x, t)"
  by (auto simp: map_err_def split: prod.splits sum.splits)

lemma map_err_Inl: "map_err g m s = (Inl e, t) \<longleftrightarrow> (\<exists>e'. m s = (Inl e', t) \<and> e = g e')"
  by (auto simp: map_err_def split: prod.splits sum.splits)

lemma sql_Inr: "sql E f s = (Inr x, t) \<longleftrightarrow>
    db_reply E (calls s) = Served \<and> f (s\<lparr>calls := Suc (calls s)\<rparr>) = (Inr x, t)"
  by (auto simp: sql_def Let_def split: db_reply.splits)

lemma query_Inr: "query E f s = (Inr x, t) \<longleftrightarrow>
    db_reply E (calls s) = Served \<and> x = f (s\<lparr>calls := Suc (calls s)\<rparr>) \<and> t = s\<lparr>calls := Suc (calls s)\<rparr>"
  by (auto simp: query_def sql_Inr)

lemma fresh_Inr: "fresh E s = (Inr x, t) \<longleftrightarrow> x = fresh_uuid E (calls s) \<and> t = s\<lparr>calls := Suc (calls s)\<rparr>"
  by (auto simp: fresh_def ask_iff)

lemma now_Inr: "now E s = (Inr x, t) \<longleftrightarrow> x = db_now E (calls s) \<and> t = s\<lparr>calls := Suc (calls s)\<rparr>"
  by (auto simp: now_def ask_iff)

lemmas run_iffs = rt_inversions map_err_Inr sql_Inr query_Inr fresh_Inr now_Inr status_err_def parse_id_def

interpretation vault: world_inv "vault_ok E master" for E master
  by unfold_locales (simp_all add: vault_ok_def)

lemma insert_wallet_cases:
  "(insert_wallet w s = (Inr (), s\<lparr>wallets := wallets s @ [w]\<rparr>) \<and> \<not> list_ex (clashes w) (wallets s)) \<or>
   (\<exists>e. insert_wallet w s = (Inl e, s))"
  by (simp add: insert_wallet_def)

lemma vault_ok_snoc:
  assumes "holds_key E master w key" "vault_ok E master s" "\<not> list_ex (clashes w) (wallets s)"
  shows "vault_ok E master (s\<lparr>wallets := wallets s @ [w]\<rparr>)"
proof -
  from assms(3) have "\<forall>v \<in> set (wallets s). w_id v \<noteq> w_id w \<and> (w_chain v, w_address v) \<noteq> (w_chain w, w_address w)"
    by (auto simp: list_ex_iff clashes_def)
  then have "w_id w \<notin> set (map w_id (wallets s))"
    "(w_chain w, w_address w) \<notin> set (map (\<lambda>w. (w_chain w, w_address w)) (wallets s))"
    by auto
  then show ?thesis using assms(1,2) unfolding vault_ok_def by simp blast
qed

lemma insert_wallet_vault:
  "holds_key E master w key \<Longrightarrow> vault_ok E master s \<Longrightarrow> vault_ok E master (snd (insert_wallet w s))"
  using insert_wallet_cases [of w s] by (auto intro: vault_ok_snoc)

lemma encrypt_key_opens:
  assumes "seal_law (lib_of E)"
  shows "yields (\<lambda>(c, nonce). decrypt_key E master c nonce = Inr key)
     (status_err Internal msg (encrypt_key E master key))"
  using assms
  by (auto simp: yields_def status_err_def map_err_Inr encrypt_key_def decrypt_key_def seal_law_def
      rbind_Inr_iff ask_iff)

lemma keeps_store_wallet:
  assumes "decrypt_key E master c nonce = Inr key"
  shows "keeps (inv_step (vault_ok E master))
     (store_wallet E user chain (addr_debug (lib_of E) (key_addr (lib_of E) key)) c nonce)"
proof -
  have "keeps (inv_step (vault_ok E master)) (sql E (insert_wallet \<lparr>w_id = i, w_user = user, w_chain = chain,
      w_address = addr_debug (lib_of E) (key_addr (lib_of E) key), w_key = c, w_nonce = nonce, w_created = t\<rparr>))"
    for i t
    by (rule vault.keeps_sql) (use assms in \<open>auto simp: inv_step_def holds_key_def intro!: insert_wallet_vault\<close>)
  then show ?thesis unfolding store_wallet_def by (intro vault.keeps_kms)
qed

lemma keeps_seal_and_store:
  assumes "seal_law (lib_of E)"
  shows "keeps (inv_step (vault_ok E master))
     (rbind (status_err Internal msg (encrypt_key E master key))
        (\<lambda>(c, nonce). store_wallet E user chain (addr_debug (lib_of E) (key_addr (lib_of E) key)) c nonce))"
proof (rule vault.keeps_rbind_yields [OF _ encrypt_key_opens [OF assms]])
  show "keeps (inv_step (vault_ok E master)) (status_err Internal msg (encrypt_key E master key))"
    unfolding encrypt_key_def by (intro vault.keeps_kms)
qed (auto intro: keeps_store_wallet)

section \<open>Properties\<close>

lemma keeps_create_wallet:
  assumes "seal_law (lib_of E)"
  shows "keeps (inv_step (vault_ok E master)) (create_wallet E master user_id chain)"
  unfolding create_wallet_def Let_def
  by (intro keeps_seal_and_store assms vault.keeps_kms)

text \<open>C23: The vault stays sound: whatever the database and the random generator answer, creating a
  wallet, successfully or not, leaves every stored key openable and belonging to the address
  of its wallet, with identifiers and addresses unique.\<close>

theorem create_wallet_keeps_vault:
  assumes "seal_law (lib_of E)" "vault_ok E master s"
    and "create_wallet E master user_id chain s = (r, t)"
  shows "vault_ok E master t"
  using vault.inv_run keeps_create_wallet assms by blast

definition sample_user :: user_row where
  "sample_user = \<lparr>u_id = 3, u_email = ''a'', u_password_hash = [], u_totp_secret = None,
     u_totp_enabled = False, u_created = 0, u_email_verified = True, u_vtoken = None,
     u_vexpires = None, u_role = Common, u_username = None\<rparr>"

definition user_world :: world where
  "user_world = empty_world\<lparr>users := [sample_user]\<rparr>"

lemma sample_seal_law: "seal_law (lib_of sample_env)"
  by (simp add: seal_law_def sample_env_def sample_lib_def sample_seal_def sample_open_def)

lemma user_world_vault: "vault_ok sample_env [1] user_world"
  by (simp add: vault_ok_def user_world_def empty_world_def)

theorem create_wallet_keeps_vault_witness:
  "vault_ok sample_env [1] (snd (create_wallet sample_env [1] (show_hex 32 3) '' BSC '' user_world))"
  by (rule create_wallet_keeps_vault [OF sample_seal_law user_world_vault prod.collapse [symmetric]])

text \<open>A key leaves the service only for its owner: an export succeeds only if the wallet
  belongs to the user named in the request, and it then returns the key of the wallet's
  address; nothing in the tables changes.\<close>

theorem export_only_to_owner:
  assumes "vault_ok E master s"
    and "export_private_key E master wallet_id user_id s = (Inr (hex_key, address), t)"
  shows "same_tables s t \<and> (\<exists>w \<in> set (wallets s). \<exists>key.
     uuid_parse (lib_of E) wallet_id = Some (w_id w) \<and> uuid_parse (lib_of E) user_id = Some (w_user w) \<and>
     address = w_address w \<and> hex_key = ''0x'' @ hex_encode (lib_of E) key \<and>
     address = addr_debug (lib_of E) (key_addr (lib_of E) key))"
proof -
  from assms(2) obtain i u w key where
    ids: "uuid_parse (lib_of E) wallet_id = Some i" "uuid_parse (lib_of E) user_id = Some u"
    and w: "wallet_owned_by i u (s\<lparr>calls := Suc (calls s)\<rparr>) = Some w"
    and key: "decrypt_key E master (w_key w) (w_nonce w) = Inr key"
    and out: "hex_key = ''0x'' @ hex_encode (lib_of E) key" "address = w_address w"
    by (auto simp: export_private_key_def run_iffs)
  from w have "w \<in> set (wallets s)" "w_id w = i" "w_user w = u"
    by (auto simp: wallet_owned_by_def dest: find_Some_in)
  moreover from this obtain k where "holds_key E master w k" using assms(1) by (auto simp: vault_ok_def)
  then have "w_address w = addr_debug (lib_of E) (key_addr (lib_of E) key)"
    using key by (simp add: holds_key_def)
  ultimately show ?thesis
    using ids out keepsD [OF tab.keeps_export assms(2)] by auto
qed

text \<open>A created wallet can be exported by the user it was created for, and by nobody else.\<close>

theorem create_then_export:
  assumes "seal_law (lib_of E)" "vault_ok E master s"
    and "\<And>u. uuid_parse (lib_of E) (uuid_show (lib_of E) u) = Some u"
    and "create_wallet E master owner chain s = (Inr (wallet_id, address), s1)"
    and "db_reply E (calls s1) = Served"
  shows "(uuid_parse (lib_of E) user = uuid_parse (lib_of E) owner \<longrightarrow>
       (\<exists>key t. export_private_key E master wallet_id user s1 = (Inr (''0x'' @ hex_encode (lib_of E) key, address), t) \<and>
          address = addr_debug (lib_of E) (key_addr (lib_of E) key))) \<and>
     (uuid_parse (lib_of E) user \<noteq> uuid_parse (lib_of E) owner \<longrightarrow>
       (\<exists>e t. export_private_key E master wallet_id user s1 = (Inl e, t)))"
proof -
  let ?L = "lib_of E"
  from assms(4) obtain u i key c nonce ts s0 where
    u: "uuid_parse ?L owner = Some u" and wid: "wallet_id = uuid_show ?L i"
    and addr: "address = addr_debug ?L (key_addr ?L key)"
    and ins: "insert_wallet \<lparr>w_id = i, w_user = u, w_chain = kms_chain chain, w_address = address,
        w_key = c, w_nonce = nonce, w_created = ts\<rparr> s0 = (Inr (), s1)"
    by (auto simp: create_wallet_def store_wallet_def run_iffs Let_def split: if_splits)
  let ?w = "\<lparr>w_id = i, w_user = u, w_chain = kms_chain chain, w_address = address,
        w_key = c, w_nonce = nonce, w_created = ts\<rparr>"
  have v: "vault_ok E master s1" using vault.inv_run keeps_create_wallet assms by blast
  have w: "?w \<in> set (wallets s1)" using ins by (auto simp: insert_wallet_def split: if_splits)
  obtain key' where k: "holds_key E master ?w key'" using v w by (auto simp: vault_ok_def)
  have unique: "v' = ?w" if "v' \<in> set (wallets s1)" "w_id v' = i" for v'
    using v that w by (auto simp: vault_ok_def distinct_map inj_on_def)
  have i: "uuid_parse ?L wallet_id = Some i" using wid assms(3) by simp
  let ?s2 = "s1\<lparr>calls := Suc (calls s1)\<rparr>"
  have mine: "wallet_owned_by i u ?s2 = Some ?w"
    unfolding wallet_owned_by_def by (rule find_unique) (auto simp: w dest: unique)
  have "w_user v' = u" if "v' \<in> set (wallets s1)" "w_id v' = i" for v'
    using unique [OF that] by simp
  then have other: "wallet_owned_by i u' ?s2 = None" if "u' \<noteq> u" for u'
    unfolding wallet_owned_by_def find_None_iff using that by auto
  show ?thesis
  proof (intro conjI impI)
    assume "uuid_parse ?L user = uuid_parse ?L owner"
    then have "export_private_key E master wallet_id user s1 = (Inr (''0x'' @ hex_encode ?L key', address), ?s2)"
      using u i mine k assms(5) by (simp add: export_private_key_def run_iffs holds_key_def)
    then show "\<exists>key t. export_private_key E master wallet_id user s1 = (Inr (''0x'' @ hex_encode ?L key, address), t) \<and>
        address = addr_debug ?L (key_addr ?L key)"
      using k by (auto simp: holds_key_def)
  next
    assume ne: "uuid_parse ?L user \<noteq> uuid_parse ?L owner"
    show "\<exists>e t. export_private_key E master wallet_id user s1 = (Inl e, t)"
    proof (cases "export_private_key E master wallet_id user s1")
      case (Pair r t)
      have "r \<noteq> Inr x" for x
        using Pair ne u i other by (cases x) (auto simp: export_private_key_def run_iffs)
      with Pair show ?thesis by (cases r) auto
    qed
  qed
qed

lemma sample_uuid_law: "uuid_parse (lib_of sample_env) (uuid_show (lib_of sample_env) u) = Some u"
proof -
  have "unat u < 16 ^ 32" using unsigned_less [of u, where ?'a = nat] by simp
  moreover have "strip_prefix ''0x'' (show_hex 32 (unat u)) = None"
  proof -
    have "CHR ''x'' \<notin> set (take 2 (show_hex 32 (unat u)))" 
      by (auto dest!: in_set_takeD set_show_hex)
    moreover have "CHR ''x'' \<in> set ''0x''" by simp
    ultimately show ?thesis unfolding strip_prefix_def starts_with_def by (metis list.size(3,4) One_nat_def Suc_1 add_0 plus_1_eq_Suc)
  qed
  ultimately show ?thesis
    by (simp add: sample_env_def sample_lib_def sample_uuid_parse_def sample_uuid_show_def hex_parse_def
        hex_digits_show_hex)
qed

theorem create_then_export_witness:
  "\<exists>wid address key s1.
     fst (create_wallet sample_env [1] (show_hex 32 3) ''bsc'' user_world) = Inr (wid, address) \<and>
     fst (export_private_key sample_env [1] wid (show_hex 32 3) s1) = Inr (key, address) \<and>
     isl (fst (export_private_key sample_env [1] wid (show_hex 32 4) s1))"
proof -
  let ?m = "create_wallet sample_env [1] (show_hex 32 3) ''bsc'' user_world"
  have id: "uuid_parse (lib_of sample_env) (show_hex 32 3) = Some 3" by code_simp
  have chain: "kms_chain ''bsc'' = ''bsc''" by code_simp
  have "\<not> isl (fst ?m)"
    unfolding create_wallet_def store_wallet_def encrypt_key_def parse_id_def status_err_def fresh_def
      now_def sql_def id chain
    by (simp add: Let_def rt_simps user_world_def empty_world_def sample_user_def sample_env_def sample_settings_def
        sample_lib_def sample_seal_def insert_wallet_def chain_ids_def)
  then obtain wid address s1 where run: "?m = (Inr (wid, address), s1)"
    by (cases ?m; cases "fst ?m") auto
  have db: "db_reply sample_env (calls s1) = Served" by (simp add: sample_env_def)
  have ne: "uuid_parse (lib_of sample_env) (show_hex 32 4) \<noteq> uuid_parse (lib_of sample_env) (show_hex 32 3)"
    by code_simp
  note T = create_then_export [OF sample_seal_law user_world_vault sample_uuid_law run db]
  obtain key t where "export_private_key sample_env [1] wid (show_hex 32 3) s1 =
      (Inr (''0x'' @ hex_encode (lib_of sample_env) key, address), t)"
    using T [of "show_hex 32 3"] by blast
  moreover obtain e t' where "export_private_key sample_env [1] wid (show_hex 32 4) s1 = (Inl e, t')"
    using T [of "show_hex 32 4"] ne by blast
  ultimately show ?thesis using run by (metis fst_conv sum.disc(1))
qed

theorem export_only_to_owner_witness:
  "\<exists>r t. export_private_key sample_env [1] (show_hex 32 0) (show_hex 32 3)
       (user_world\<lparr>wallets := [\<lparr>w_id = 0, w_user = 3, w_chain = ''bsc'', w_address = sample_addr_show 5,
          w_key = [7, 0], w_nonce = [], w_created = 0\<rparr>]\<rparr>) = (Inr r, t) \<and> snd r = sample_addr_show 5"
proof -
  let ?w = "user_world\<lparr>wallets := [\<lparr>w_id = 0, w_user = 3, w_chain = ''bsc'', w_address = sample_addr_show 5,
      w_key = [7, 0], w_nonce = [], w_created = 0\<rparr>]\<rparr>"
  let ?m = "export_private_key sample_env [1] (show_hex 32 0) (show_hex 32 3) ?w"
  have v: "vault_ok sample_env [1] ?w"
    by (simp add: vault_ok_def holds_key_def decrypt_key_def sample_env_def sample_lib_def sample_open_def ok_or_def)
  have "\<not> isl (fst ?m)" by code_simp
  then obtain k a t where run: "?m = (Inr (k, a), t)" by (cases ?m; cases "fst ?m") auto
  from export_only_to_owner [OF v run] run show ?thesis by auto
qed

end
