(* ===== verification/Ledger.thy ===== *)
theory Ledger
  imports Receipt Kms
begin

text \<open>
  The trade ledger of the engine (\<open>crates/execution-engine/src/main.rs\<close>): recording a trade and
  adding its amount to the session, the status updates of a trade, waiting for its receipt, and
  the reconciliation of submitted trades.  Each SQL statement is one definition; two statements
  of a function are two steps, each of which may fail on its own, as the code opens no
  transaction.
\<close>

section \<open>Statements\<close>

type_synonym trigger = "uuid \<times> string \<times> string \<times> u32"

definition trigger_of :: "trade_row \<Rightarrow> trigger" where
  "trigger_of t = (t_session t, t_trigger_tx t, t_trigger_pool t, t_trigger_log t)"

definition has_trigger :: "trigger \<Rightarrow> world \<Rightarrow> bool" where
  "has_trigger k s \<longleftrightarrow> list_ex (\<lambda>t. trigger_of t = k) (trades s)"

text \<open>The row of an \<open>INSERT INTO trades\<close>, its identifier and time chosen by the database.\<close>

record new_trade =
  nt_session :: uuid
  nt_chain :: string
  nt_trigger_tx :: string
  nt_pool :: string
  nt_log :: u32
  nt_trigger_amount :: rat
  nt_sell_amount :: rat
  nt_sell_tx :: "string option"
  nt_impact :: u32
  nt_mcap :: "rat option"

definition new_trigger :: "new_trade \<Rightarrow> trigger" where
  "new_trigger n = (nt_session n, nt_trigger_tx n, nt_pool n, nt_log n)"

definition opt_numeric :: "nat \<Rightarrow> nat \<Rightarrow> rat option \<Rightarrow> rat option option" where
  "opt_numeric p d x = (case x of None \<Rightarrow> Some None | Some v \<Rightarrow> map_option Some (numeric p d v))"

definition new_trade_row :: "new_trade \<Rightarrow> uuid \<Rightarrow> int \<Rightarrow> int \<Rightarrow> int \<Rightarrow> rat option \<Rightarrow> trade_row" where
  "new_trade_row n i tm trigger_amount sell_amount mcap =
     \<lparr>t_id = i, t_session = nt_session n, t_chain = nt_chain n, t_status = T_Submitted,
      t_trigger_tx = nt_trigger_tx n, t_trigger_pool = nt_pool n, t_trigger_log = nt_log n,
      t_trigger_amount = trigger_amount, t_sell_amount = sell_amount, t_sell_tx = nt_sell_tx n,
      t_sell_pool = nt_pool n, t_impact = nt_impact n, t_mcap = mcap, t_received = None,
      t_final_token = None, t_failure = None, t_executed = Some tm, t_created = tm\<rparr>"

definition insert_trade :: "env \<Rightarrow> new_trade \<Rightarrow> world \<Rightarrow> (err + (uuid \<times> int) option) \<times> world" where
  "insert_trade E n s =
     (let i = fresh_uuid E (calls s); tm = db_now E (calls s) in
      case (numeric78 (nt_trigger_amount n), numeric78 (nt_sell_amount n), opt_numeric 30 2 (nt_mcap n)) of
        (Some trigger_amount, Some sell_amount, Some mcap) \<Rightarrow>
          if nt_chain n \<notin> set chain_ids then (Inl ''invalid input value for enum chain_id'', s)
          else if has_trigger (new_trigger n) s then (Inr None, s)
          else if list_ex (\<lambda>t. t_id t = i) (trades s) then (Inl ''duplicate key value'', s)
          else if \<not> list_ex (\<lambda>r. s_id r = nt_session n) (sessions s)
          then (Inl ''violates foreign key constraint'', s)
          else (Inr (Some (i, tm)),
                s\<lparr>trades := trades s @ [new_trade_row n i tm trigger_amount sell_amount mcap]\<rparr>)
      | _ \<Rightarrow> (Inl ''numeric field overflow'', s))"

text \<open>The trigger \<open>set_sessions_updated_at\<close> refreshes the time of every updated session.\<close>

definition add_sold :: "env \<Rightarrow> rat \<Rightarrow> uuid \<Rightarrow> world \<Rightarrow> (err + unit) \<times> world" where
  "add_sold E amount sid s =
     (if list_ex (\<lambda>r. s_id r = sid \<and> numeric78 (of_int (s_sold r) + amount) = None) (sessions s)
      then (Inl ''numeric field overflow'', s)
      else (Inr (), s\<lparr>sessions := update_where (\<lambda>r. s_id r = sid)
              (\<lambda>r. r\<lparr>s_sold := the (numeric78 (of_int (s_sold r) + amount)),
                     s_updated := db_now E (calls s)\<rparr>) (sessions s)\<rparr>))"

definition set_trade :: "uuid \<Rightarrow> (trade_row \<Rightarrow> bool) \<Rightarrow> (trade_row \<Rightarrow> trade_row) \<Rightarrow> world \<Rightarrow> world" where
  "set_trade i P f s = s\<lparr>trades := update_where (\<lambda>t. t_id t = i \<and> P t) f (trades s)\<rparr>"

section \<open>Recording a trade\<close>

record recorded_trade =
  rec_trade_id :: string
  rec_executed_at :: string
  rec_inserted :: bool

definition parse_numeric_decimal :: "env \<Rightarrow> string \<Rightarrow> string \<Rightarrow> err + rat" where
  "parse_numeric_decimal E raw field =
     ok_or (''Invalid NUMERIC value for '' @ field @ '': '' @ raw) (decimal_parse (lib_of E) raw)"

definition existing_trade :: "trigger \<Rightarrow> world \<Rightarrow> (uuid \<times> int) option" where
  "existing_trade k s =
     (case sort_key (\<lambda>t. - t_created t) (filter (\<lambda>t. trigger_of t = k) (trades s)) of
        [] \<Rightarrow> None
      | t # _ \<Rightarrow> Some (t_id t, opt_or (t_created t) (t_executed t)))"

definition store_trade :: "env \<Rightarrow> rat \<Rightarrow> new_trade \<Rightarrow> (world, err, recorded_trade) rt" where
  "store_trade E amount n =
     (let L = lib_of E in
      rbind (sql E (insert_trade E n)) (\<lambda>inserted.
      case inserted of
        Some (i, tm) \<Rightarrow>
          rbind (sql E (add_sold E amount (nt_session n))) (\<lambda>_.
          ret \<lparr>rec_trade_id = uuid_show L i, rec_executed_at = time_show L tm, rec_inserted = True\<rparr>)
      | None \<Rightarrow>
          rbind (query E (existing_trade (new_trigger n))) (\<lambda>row.
          rbind (of_result (ok_or ''Failed to fetch existing trade for duplicate trigger'' row)) (\<lambda>(i, tm).
          ret \<lparr>rec_trade_id = uuid_show L i, rec_executed_at = time_show L tm, rec_inserted = False\<rparr>))))"

definition mcap_column :: "env \<Rightarrow> f64 option \<Rightarrow> err + rat option" where
  "mcap_column E mcap =
     (case mcap of
        None \<Rightarrow> Inr None
      | Some v \<Rightarrow> (case parse_numeric_decimal E (f_show_fixed 2 v) ''market_cap_usd'' of
                     Inl e \<Rightarrow> Inl e | Inr x \<Rightarrow> Inr (Some x)))"

definition record_trade ::
  "env \<Rightarrow> session_info \<Rightarrow> dex_swap_event \<Rightarrow> u256 \<Rightarrow> u32 \<Rightarrow> f64 option \<Rightarrow> string option
     \<Rightarrow> (world, err, recorded_trade) rt" where
  "record_trade E session event sell_amount impact mcap sell_tx =
     rbind (of_result (ok_or ''invalid session id'' (uuid_parse (lib_of E) (si_id session)))) (\<lambda>sid.
     rbind (of_result (parse_numeric_decimal E (ev_amount_out event) ''trigger_buy_amount'')) (\<lambda>trigger_amount.
     rbind (of_result (parse_numeric_decimal E (u256_show (lib_of E) sell_amount) ''sell_amount'')) (\<lambda>amount.
     rbind (of_result (mcap_column E mcap)) (\<lambda>mcap_decimal.
     store_trade E amount
       \<lparr>nt_session = sid, nt_chain = si_chain session, nt_trigger_tx = ev_tx_hash event,
        nt_pool = ev_pool_address event, nt_log = ev_log_index event,
        nt_trigger_amount = trigger_amount, nt_sell_amount = amount, nt_sell_tx = sell_tx,
        nt_impact = impact, nt_mcap = mcap_decimal\<rparr>))))"

section \<open>Status of a trade\<close>

definition trade_uuid :: "env \<Rightarrow> string \<Rightarrow> (world, err, uuid) rt" where
  "trade_uuid E trade_id = of_result (ok_or ''invalid trade id'' (uuid_parse (lib_of E) trade_id))"

definition mark_trade_confirmed :: "env \<Rightarrow> string \<Rightarrow> (world, err, unit) rt" where
  "mark_trade_confirmed E trade_id =
     rbind (trade_uuid E trade_id) (\<lambda>i.
     exec E (set_trade i (\<lambda>t. True) (\<lambda>t. t\<lparr>t_status := T_Confirmed, t_failure := None\<rparr>)))"

definition mark_trade_failed :: "env \<Rightarrow> string \<Rightarrow> string \<Rightarrow> (world, err, unit) rt" where
  "mark_trade_failed E trade_id reason =
     rbind (trade_uuid E trade_id) (\<lambda>i.
     exec E (set_trade i (\<lambda>t. t_status t \<noteq> T_Confirmed)
       (\<lambda>t. t\<lparr>t_status := T_Failed, t_failure := Some reason\<rparr>)))"

definition set_received :: "uuid \<Rightarrow> rat \<Rightarrow> string \<Rightarrow> world \<Rightarrow> (err + unit) \<times> world" where
  "set_received i amount token s =
     (case numeric78 amount of
        None \<Rightarrow> (Inl ''numeric field overflow'', s)
      | Some a \<Rightarrow> (Inr (), set_trade i (\<lambda>t. True)
          (\<lambda>t. t\<lparr>t_received := Some a, t_final_token := Some token\<rparr>) s))"

definition update_trade_received :: "env \<Rightarrow> string \<Rightarrow> string \<Rightarrow> string \<Rightarrow> (world, err, unit) rt" where
  "update_trade_received E trade_id amount token =
     rbind (trade_uuid E trade_id) (\<lambda>i.
     rbind (of_result (parse_numeric_decimal E amount ''final_received'')) (\<lambda>x.
     sql E (set_received i x token)))"

record trade_finalization =
  fin_status :: string
  fin_failure :: "string option"
  fin_received :: "string option"

definition confirm_with_amount ::
  "env \<Rightarrow> string \<Rightarrow> string \<Rightarrow> string option \<Rightarrow> (world, err, unit) rt" where
  "confirm_with_amount E trade_id token received =
     rbind (mark_trade_confirmed E trade_id) (\<lambda>_.
     case received of None \<Rightarrow> ret () | Some amount \<Rightarrow> update_trade_received E trade_id amount token)"

definition finish_confirmed ::
  "env \<Rightarrow> string \<Rightarrow> string \<Rightarrow> string option \<Rightarrow> (world, err, trade_finalization) rt" where
  "finish_confirmed E trade_id token received =
     rbind (confirm_with_amount E trade_id token received) (\<lambda>_.
     ret \<lparr>fin_status = ''confirmed'', fin_failure = None, fin_received = received\<rparr>)"

definition finish_failed :: "env \<Rightarrow> string \<Rightarrow> string \<Rightarrow> (world, err, trade_finalization) rt" where
  "finish_failed E trade_id reason =
     rbind (mark_trade_failed E trade_id reason) (\<lambda>_.
     ret \<lparr>fin_status = ''failed'', fin_failure = Some reason, fin_received = None\<rparr>)"

definition still_submitted :: trade_finalization where
  "still_submitted = \<lparr>fin_status = ''submitted'', fin_failure = None, fin_received = None\<rparr>"

text \<open>
  The polling loop.  It ends because every turn sleeps two seconds, so the clock reaches the
  deadline.
\<close>

lemma fetch_receipt_clock:
  "fetch_receipt_with_received E chain h token r s = (x, t) \<Longrightarrow> clock s \<le> clock t"
  using keepsD [OF clk.keeps_fetch_receipt] by (auto simp: clock_le_def)

function finalize_loop ::
  "env \<Rightarrow> string \<Rightarrow> string \<Rightarrow> string \<Rightarrow> string \<Rightarrow> addr \<Rightarrow> nat
     \<Rightarrow> world \<Rightarrow> (err + trade_finalization) \<times> world" where
  "finalize_loop E chain trade_id tx_hash token recipient deadline s =
     (case fetch_receipt_with_received E chain tx_hash token recipient s of
        (Inl e, s1) \<Rightarrow> finish_failed E trade_id (''receipt_lookup_error: '' @ e) s1
      | (Inr None, s1) \<Rightarrow>
          if deadline \<le> clock s1 then (Inr still_submitted, s1)
          else finalize_loop E chain trade_id tx_hash token recipient deadline (slept E 2000 s1)
      | (Inr (Some (success, received)), s1) \<Rightarrow>
          if success then finish_confirmed E trade_id token received s1
          else finish_failed E trade_id ''transaction_reverted'' s1)"
  by pat_completeness auto
termination
  by (relation "measure (\<lambda>(E, chain, i, h, token, r, deadline, s). deadline - clock s)")
    (auto simp: slept_def dest!: fetch_receipt_clock [OF sym])

declare finalize_loop.simps [simp del]

definition finalize_trade_status_from_receipt ::
  "env \<Rightarrow> string \<Rightarrow> string \<Rightarrow> string option \<Rightarrow> string \<Rightarrow> addr \<Rightarrow> (world, err, trade_finalization) rt" where
  "finalize_trade_status_from_receipt E chain trade_id sell_tx token recipient =
     (case sell_tx of
        None \<Rightarrow> ret still_submitted
      | Some raw \<Rightarrow>
          let tx_hash = trim raw in
          if tx_hash = [] then ret still_submitted
          else (\<lambda>s. finalize_loop E chain trade_id tx_hash token recipient (clock s + 60000) s))"

section \<open>The wallet of a session\<close>

definition resolve_session_wallet_address :: "env \<Rightarrow> string \<Rightarrow> string \<Rightarrow> (world, err, addr) rt" where
  "resolve_session_wallet_address E wallet_id chain =
     (let L = lib_of E in
      rbind (of_result (ok_or (''Invalid wallet_id: '' @ wallet_id) (uuid_parse L wallet_id))) (\<lambda>i.
      rbind (query E (wallet_by_id i)) (\<lambda>row.
      rbind (of_result (ok_or (''Wallet not found for wallet_id: '' @ wallet_id) row)) (\<lambda>w.
      if \<not> eq_ic (w_chain w) chain then fail ''Wallet chain does not match session chain''
      else of_result (ok_or (''Invalid wallet address in DB: '' @ w_address w) (addr_parse L (w_address w)))))))"

section \<open>Reconciliation\<close>

text \<open>At most 25 submitted trades with a transaction hash, oldest first, joined with their session.\<close>

definition pending_trades :: "world \<Rightarrow> (trade_row \<times> session_row) list" where
  "pending_trades s =
     take 25 (sort_key (\<lambda>(t, _). opt_or (t_created t) (t_executed t))
       (concat (map (\<lambda>t. map (Pair t) (filter (\<lambda>r. s_id r = t_session t) (sessions s)))
         (filter (\<lambda>t. t_status t = T_Submitted \<and> t_sell_tx t \<noteq> None \<and> t_sell_tx t \<noteq> Some []) (trades s)))))"

definition reconcile_one :: "env \<Rightarrow> trade_row \<times> session_row \<Rightarrow> (world, err, unit) rt" where
  "reconcile_one E = (\<lambda>(t, r).
     let L = lib_of E; trade_id = uuid_show L (t_id t) in
     rbind (attempt (resolve_session_wallet_address E (uuid_show L (s_wallet r)) (s_chain r))) (\<lambda>res.
     case res of
       Inl e \<Rightarrow> ret ()
     | Inr recipient \<Rightarrow>
         rbind (attempt (fetch_receipt_with_received E (s_chain r) (the (t_sell_tx t)) (s_target_token r) recipient)) (\<lambda>rcpt.
         case rcpt of
           Inl e \<Rightarrow> ret ()
         | Inr None \<Rightarrow> ret ()
         | Inr (Some (success, received)) \<Rightarrow>
             if success then confirm_with_amount E trade_id (s_target_token r) received
             else mark_trade_failed E trade_id ''transaction_reverted'')))"

definition reconcile_submitted_trades_once :: "env \<Rightarrow> (world, err, unit) rt" where
  "reconcile_submitted_trades_once E =
     rbind (query E pending_trades) (\<lambda>pending. for_each pending (reconcile_one E))"

text \<open>\<open>n\<close> turns of the endless reconciliation loop: a failed pass is logged, and the loop sleeps.\<close>

fun reconcile_submitted_trades_loop :: "env \<Rightarrow> nat \<Rightarrow> (world, err, unit) rt" where
  "reconcile_submitted_trades_loop E 0 = ret ()"
| "reconcile_submitted_trades_loop E (Suc n) =
     rbind (attempt (reconcile_submitted_trades_once E)) (\<lambda>_.
     rbind (sleep_ms E 15000) (\<lambda>_. reconcile_submitted_trades_loop E n))"

section \<open>What happens to a trade\<close>

text \<open>A trade may be confirmed at any time; it may fail only while it is not confirmed.\<close>

inductive status_step :: "trade_status \<Rightarrow> trade_status \<Rightarrow> bool" where
  confirm: "status_step st T_Confirmed"
| reject: "st \<noteq> T_Confirmed \<Longrightarrow> status_step st T_Failed"

code_pred status_step .

inductive_cases status_step_from_confirmed: "status_step T_Confirmed st"
inductive_simps status_step_to_failed: "status_step st T_Failed"

abbreviation status_steps :: "trade_status \<Rightarrow> trade_status \<Rightarrow> bool" where
  "status_steps \<equiv> status_step\<^sup>*\<^sup>*"

lemma confirmed_is_final: "status_steps T_Confirmed st \<longleftrightarrow> st = T_Confirmed"
proof
  assume "status_steps T_Confirmed st"
  then show "st = T_Confirmed"
    by (induction rule: rtranclp_induct) (auto elim: status_step_from_confirmed)
qed simp

text \<open>Everything but status, failure reason and what was received is fixed when a trade is recorded.\<close>

definition trade_moves :: "trade_row \<Rightarrow> trade_row \<Rightarrow> bool" where
  "trade_moves a b \<longleftrightarrow> status_steps (t_status a) (t_status b) \<and>
     b = a\<lparr>t_status := t_status b, t_failure := t_failure b, t_received := t_received b,
           t_final_token := t_final_token b\<rparr>"

lemma trade_moves_refl [simp]: "trade_moves a a"
  by (simp add: trade_moves_def)

lemma trade_moves_trans: "trade_moves a b \<Longrightarrow> trade_moves b c \<Longrightarrow> trade_moves a c"
  by (cases a; cases b; cases c) (auto simp: trade_moves_def)

lemma trade_moves_fixed:
  "trade_moves a b \<Longrightarrow> t_id b = t_id a \<and> trigger_of b = trigger_of a \<and> t_session b = t_session a \<and>
     t_sell_amount b = t_sell_amount a \<and> t_sell_tx b = t_sell_tx a"
  by (cases a; cases b) (auto simp: trade_moves_def trigger_of_def)

definition ledger_le :: "world \<Rightarrow> world \<Rightarrow> bool" where
  "ledger_le s t \<longleftrightarrow> (\<exists>old new. trades t = old @ new \<and> list_all2 trade_moves (trades s) old)"

lemma ledger_leI: "trades t = old @ new \<Longrightarrow> list_all2 trade_moves (trades s) old \<Longrightarrow> ledger_le s t"
  unfolding ledger_le_def by blast

lemma list_all2_moves_refl [simp]: "list_all2 trade_moves xs xs"
  by (simp add: list_all2_refl)

lemma ledger_le_same: "trades t = trades s \<Longrightarrow> ledger_le s t"
  by (rule ledger_leI [of _ "trades s" "[]"]) simp_all

lemma ledger_le_trans:
  assumes "ledger_le s t" "ledger_le t u"
  shows "ledger_le s u"
proof -
  obtain old new where t: "trades t = old @ new" "list_all2 trade_moves (trades s) old"
    using assms(1) by (auto simp: ledger_le_def)
  obtain old' new' where u: "trades u = old' @ new'" "list_all2 trade_moves (trades t) old'"
    using assms(2) by (auto simp: ledger_le_def)
  from u(2) obtain a b where ab: "old' = a @ b" "list_all2 trade_moves old a"
    unfolding t(1) by (auto simp: list_all2_append1)
  have "list_all2 trade_moves (trades s) a"
    using list_all2_trans [OF trade_moves_trans t(2) ab(2)] .
  with u(1) ab(1) show ?thesis by (intro ledger_leI [of _ a "b @ new'"]) simp_all
qed

text \<open>The ledger is well formed when identifiers and triggers are unique.\<close>

definition ledger_ok :: "world \<Rightarrow> bool" where
  "ledger_ok s \<longleftrightarrow> distinct (map t_id (trades s)) \<and> distinct (map trigger_of (trades s))"

text \<open>One relation for both: trades only move along their steps, and the ledger stays well formed.\<close>

definition ledger_step :: "world \<Rightarrow> world \<Rightarrow> bool" where
  "ledger_step s t \<longleftrightarrow> ledger_le s t \<and> (ledger_ok s \<longrightarrow> ledger_ok t)"

interpretation led: world_rel ledger_step
  by unfold_locales (auto simp: ledger_step_def ledger_ok_def intro: ledger_le_same ledger_le_trans)

lemma new_trade_row_simps [simp]:
  "t_id (new_trade_row n i tm a b c) = i" "t_session (new_trade_row n i tm a b c) = nt_session n"
  "t_status (new_trade_row n i tm a b c) = T_Submitted" "t_sell_amount (new_trade_row n i tm a b c) = b"
  "t_sell_tx (new_trade_row n i tm a b c) = nt_sell_tx n"
  "trigger_of (new_trade_row n i tm a b c) = new_trigger n"
  by (simp_all add: new_trade_row_def trigger_of_def new_trigger_def)

lemma insert_trade_cases:
  assumes "insert_trade E n s = (r, t)"
  obtains (Duplicate) "r = Inr None" "t = s" "has_trigger (new_trigger n) s"
  | (Rejected) e where "r = Inl e" "t = s"
  | (Inserted) i tm a b c where "r = Inr (Some (i, tm))"
      "t = s\<lparr>trades := trades s @ [new_trade_row n i tm a b c]\<rparr>"
      "\<not> has_trigger (new_trigger n) s" "\<forall>row \<in> set (trades s). t_id row \<noteq> i"
      "numeric78 (nt_sell_amount n) = Some b" "\<exists>r \<in> set (sessions s). s_id r = nt_session n"
proof (cases "numeric78 (nt_trigger_amount n)"; cases "numeric78 (nt_sell_amount n)";
    cases "opt_numeric 30 2 (nt_mcap n)")
  fix a b c
  assume num: "numeric78 (nt_trigger_amount n) = Some a" "numeric78 (nt_sell_amount n) = Some b"
    "opt_numeric 30 2 (nt_mcap n) = Some c"
  show thesis
    using assms unfolding insert_trade_def Let_def num option.case prod.case
    by (auto simp: list_ex_iff num split: if_splits intro: that)
qed (use assms in \<open>auto simp: insert_trade_def Let_def intro: that\<close>)

lemma map_fixed:
  assumes "list_all2 trade_moves xs ys"
    and "\<And>a b. trade_moves a b \<Longrightarrow> g b = g a"
  shows "map g ys = map g xs"
  using assms(1) by (induction rule: list_all2_induct) (auto simp: assms(2))

lemma ledger_step_same: "trades t = trades s \<Longrightarrow> ledger_step s t"
  by (simp add: ledger_step_def ledger_le_same ledger_ok_def)

lemma ledger_step_insert: "ledger_step s (snd (insert_trade E n s))"
proof (cases "insert_trade E n s")
  case (Pair r t)
  then show ?thesis
  proof (cases rule: insert_trade_cases)
    case (Inserted i tm a b c)
    then have "ledger_ok s \<longrightarrow> ledger_ok t"
      by (auto simp: ledger_ok_def has_trigger_def list_ex_iff)
    moreover have "ledger_le s t"
      using Inserted by (intro ledger_leI [of _ "trades s"]) auto
    ultimately show ?thesis by (simp add: Pair ledger_step_def)
  qed (simp_all add: Pair led.rel_refl)
qed

lemma ledger_step_set_trade:
  assumes "\<And>t. P t \<Longrightarrow> trade_moves t (f t)"
  shows "ledger_step s (set_trade i P f s)"
proof -
  have m: "list_all2 trade_moves (trades s) (trades (set_trade i P f s))"
    using assms by (simp add: set_trade_def update_where_def list_all2_conv_all_nth)
  then have "ledger_le s (set_trade i P f s)" by (intro ledger_leI [of _ _ "[]"]) simp_all
  with map_fixed [OF m, of t_id] map_fixed [OF m, of trigger_of] show ?thesis
    by (simp add: ledger_step_def ledger_ok_def trade_moves_fixed)
qed

lemma add_sold_trades [simp]: "trades (snd (add_sold E a sid s)) = trades s"
  by (simp add: add_sold_def)

context world_rel begin

lemma keeps_resolve: "keeps R (resolve_session_wallet_address E w chain)"
  unfolding resolve_session_wallet_address_def Let_def by (intro keeps_world)

end

text \<open>
  Two interfaces to the ledger: a relation of worlds that every move of a trade keeps is kept by
  all operations on the status of trades; one that is also kept by the two statements of a
  recording is kept by the recording.
\<close>

locale ledger_edit = world_rel R for R :: "world \<Rightarrow> world \<Rightarrow> bool" +
  assumes rel_edit: "(\<And>t. P t \<Longrightarrow> trade_moves t (f t)) \<Longrightarrow> R s (set_trade i P f s)"
begin

lemma edit_set_trade: "(\<And>t. P t \<Longrightarrow> trade_moves t (f t)) \<Longrightarrow> keeps R (exec E (set_trade i P f))"
  by (rule keeps_exec) (rule rel_edit)

lemma edit_trade_uuid: "keeps R (trade_uuid E i)"
  unfolding trade_uuid_def by (rule keeps_of_result)

lemma edit_set_received: "keeps R (sql E (set_received i x token))"
  by (rule keeps_sql)
    (auto simp: set_received_def rel_refl trade_moves_def intro!: rel_edit split: option.split)

lemma edit_update_received: "keeps R (update_trade_received E i amount token)"
  unfolding update_trade_received_def
  by (intro keeps_rbind edit_trade_uuid edit_set_received keeps_of_result)

lemma edit_mark_confirmed: "keeps R (mark_trade_confirmed E i)"
  unfolding mark_trade_confirmed_def
  by (intro keeps_rbind edit_trade_uuid edit_set_trade) (auto simp: trade_moves_def confirm)

lemma edit_mark_failed: "keeps R (mark_trade_failed E i reason)"
  unfolding mark_trade_failed_def
  by (intro keeps_rbind edit_trade_uuid edit_set_trade) (auto simp: trade_moves_def reject)

lemma edit_confirm_with_amount: "keeps R (confirm_with_amount E i token received)"
  unfolding confirm_with_amount_def
  by (intro edit_mark_confirmed edit_update_received keeps_world)

lemma edit_finish:
  "keeps R (finish_confirmed E i token received)" "keeps R (finish_failed E i reason)"
  unfolding finish_confirmed_def finish_failed_def
  by (intro edit_confirm_with_amount edit_mark_failed keeps_world)+

lemma edit_reconcile_one: "keeps R (reconcile_one E p)"
  unfolding reconcile_one_def Let_def
  by (intro edit_confirm_with_amount edit_mark_failed keeps_resolve keeps_fetch_receipt keeps_world)

lemma edit_reconcile_loop: "keeps R (reconcile_submitted_trades_loop E n)"
  by (induction n)
    (auto simp: reconcile_submitted_trades_once_def intro!: edit_reconcile_one keeps_world)

lemma edit_finalize_loop: "finalize_loop E chain i tx token r deadline s = (x, t) \<Longrightarrow> R s t"
proof (induction E chain i tx token r deadline s arbitrary: x t rule: finalize_loop.induct)
  case (1 E chain i tx token r deadline s)
  obtain y s1 where rcpt: "fetch_receipt_with_received E chain tx token r s = (y, s1)"
    by (cases "fetch_receipt_with_received E chain tx token r s")
  have s1: "R s s1" by (rule keepsD [OF keeps_fetch_receipt rcpt])
  have step: "R s1 (slept E 2000 s1)"
    using keepsD [OF keeps_sleep, of E 2000 s1 "Inr ()"] by (simp add: sleep_ms_def)
  note run = "1.prems" [unfolded finalize_loop.simps [of E chain i tx token r deadline s] rcpt]
  consider (Err) e where "y = Inl e" | (Late) "y = Inr None" "deadline \<le> clock s1"
    | (Again) "y = Inr None" "\<not> deadline \<le> clock s1" | (Done) b v where "y = Inr (Some (b, v))"
    by (cases y; cases "projr y") auto
  then have "R s1 t"
  proof cases
    case Err
    then have "finish_failed E i (''receipt_lookup_error: '' @ e) s1 = (x, t)" using run by simp
    then show ?thesis by (rule keepsD [OF edit_finish(2)])
  next
    case Late
    then show ?thesis using run rel_refl by simp
  next
    case Again
    then have "finalize_loop E chain i tx token r deadline (slept E 2000 s1) = (x, t)" using run by simp
    from "1.IH" [OF rcpt [symmetric] Again(1) refl Again(2) this] step show ?thesis using rel_trans by blast
  next
    case (Done b v)
    then show ?thesis
      using run keepsD [OF edit_finish(1)] keepsD [OF edit_finish(2)] by (cases b) auto
  qed
  with s1 show ?case using rel_trans by blast
qed

lemma edit_finalize: "keeps R (finalize_trade_status_from_receipt E chain i tx token r)"
proof (cases "tx = None \<or> trim (the tx) = []")
  case True
  then show ?thesis
    by (auto simp: finalize_trade_status_from_receipt_def Let_def intro: keeps_ret split: option.split)
next
  case False
  then show ?thesis
    using edit_finalize_loop by (auto simp: keeps_def finalize_trade_status_from_receipt_def Let_def)
qed

end

locale ledger_append = ledger_edit R for R :: "world \<Rightarrow> world \<Rightarrow> bool" +
  assumes rel_insert: "R s (snd (insert_trade E n s))"
    and rel_sold: "R s (snd (add_sold E a sid s))"
begin

lemma append_insert: "keeps R (sql E (insert_trade E n))"
  by (rule keeps_sql) (rule rel_insert)

lemma append_sold: "keeps R (sql E (add_sold E a sid))"
  by (rule keeps_sql) (rule rel_sold)

lemma append_record: "keeps R (record_trade E session event a impact mcap tx)"
  unfolding record_trade_def store_trade_def Let_def
  by (intro append_insert append_sold keeps_world)

end

interpretation led: ledger_append ledger_step
  by unfold_locales (auto intro: ledger_step_set_trade ledger_step_insert ledger_step_same)

section \<open>The books\<close>

text \<open>The books are balanced when the sold amount of every session is the sum of its trades.\<close>

definition sold_by :: "uuid \<Rightarrow> trade_row list \<Rightarrow> int" where
  "sold_by sid ts = sum_list (map t_sell_amount (filter (\<lambda>t. t_session t = sid) ts))"

definition books_balanced :: "world \<Rightarrow> bool" where
  "books_balanced s \<longleftrightarrow> (\<forall>r \<in> set (sessions s). s_sold r = sold_by (s_id r) (trades s))"

definition u256_rat :: "u256 \<Rightarrow> rat" where
  "u256_rat x = of_int (uint x)"

definition decimal_law :: "lib \<Rightarrow> bool" where
  "decimal_law L \<longleftrightarrow> (\<forall>x. decimal_parse L (u256_show L x) = Some (u256_rat x))"

lemma sold_by_snoc [simp]:
  "sold_by sid (ts @ [t]) = sold_by sid ts + (if t_session t = sid then t_sell_amount t else 0)"
  by (simp add: sold_by_def)

lemma decimal_of_u256:
  "decimal_law (lib_of E) \<Longrightarrow>
    parse_numeric_decimal E (u256_show (lib_of E) a) field = Inr (u256_rat a)"
  by (simp add: parse_numeric_decimal_def decimal_law_def)

lemma u256_fits: "numeric78 (u256_rat a) = Some (uint a)"
  unfolding u256_rat_def
proof (rule numeric78_int)
  have "uint a < 2 ^ 256" using uint_lt2p [of a] by simp
  then show "\<bar>uint a\<bar> < 10 ^ 78" by simp
qed

lemma add_sold_int:
  assumes "add_sold E (of_int k) sid s = (Inr (), t)"
  shows "t = s\<lparr>sessions := update_where (\<lambda>r. s_id r = sid) (\<lambda>r. r\<lparr>s_sold := s_sold r + k, s_updated := db_now E (calls s)\<rparr>) (sessions s)\<rparr>"
proof -
  have ok: "\<not> list_ex (\<lambda>r. s_id r = sid \<and> numeric78 (of_int (s_sold r) + of_int k) = None) (sessions s)"
    and t: "t = s\<lparr>sessions := update_where (\<lambda>r. s_id r = sid)
       (\<lambda>r. r\<lparr>s_sold := the (numeric78 (of_int (s_sold r) + of_int k)), s_updated := db_now E (calls s)\<rparr>) (sessions s)\<rparr>"
    using assms by (auto simp: add_sold_def split: if_splits)
  have "the (numeric78 (of_int (s_sold r) + of_int k)) = s_sold r + k"
    if "r \<in> set (sessions s)" "s_id r = sid" for r
  proof -
    have "numeric78 (of_int (s_sold r) + of_int k) \<noteq> None" using ok that by (auto simp: list_ex_iff)
    then show ?thesis
      by (auto simp: numeric78_def Let_def simp flip: of_int_add split: if_splits)
  qed
  then show ?thesis unfolding t by (simp add: update_where_def)
qed

lemma books_after_sale:
  assumes "books_balanced s" "t_session row = sid" "t_sell_amount row = k"
  shows "books_balanced (s\<lparr>trades := trades s @ [row],
     sessions := update_where (\<lambda>r. s_id r = sid) (\<lambda>r. r\<lparr>s_sold := s_sold r + k, s_updated := tm\<rparr>) (sessions s)\<rparr>)"
  using assms by (auto simp: books_balanced_def dest!: set_update_where)

lemma books_calls [simp]: "books_balanced (s\<lparr>calls := n\<rparr>) = books_balanced s"
  by (simp add: books_balanced_def)

text \<open>A successful recording either appends the trade and adds its amount, or changes nothing.\<close>

lemma record_trade_ok_cases:
  assumes "decimal_law (lib_of E)"
    and "record_trade E session event a impact mcap tx s = (Inr rt, t)"
  obtains (Recorded) sid n i tm x c k up where "uuid_parse (lib_of E) (si_id session) = Some sid"
      "rec_inserted rt" "nt_session n = sid" "nt_sell_tx n = tx"
      "rec_trade_id rt = uuid_show (lib_of E) i"
      "new_trigger n = (sid, ev_tx_hash event, ev_pool_address event, ev_log_index event)"
      "\<not> has_trigger (new_trigger n) s"
      "t = s\<lparr>trades := trades s @ [new_trade_row n i tm x (uint a) c],
             sessions := update_where (\<lambda>r. s_id r = sid) (\<lambda>r. r\<lparr>s_sold := s_sold r + uint a, s_updated := up\<rparr>) (sessions s),
             calls := k\<rparr>"
  | (Known) k sid where "\<not> rec_inserted rt" "t = s\<lparr>calls := k\<rparr>"
      "uuid_parse (lib_of E) (si_id session) = Some sid"
      "has_trigger (sid, ev_tx_hash event, ev_pool_address event, ev_log_index event) s"
proof -
  from assms obtain sid ta mc n where sid: "uuid_parse (lib_of E) (si_id session) = Some sid"
    and n: "n = \<lparr>nt_session = sid, nt_chain = si_chain session, nt_trigger_tx = ev_tx_hash event,
        nt_pool = ev_pool_address event, nt_log = ev_log_index event, nt_trigger_amount = ta,
        nt_sell_amount = u256_rat a, nt_sell_tx = tx, nt_impact = impact, nt_mcap = mc\<rparr>"
    and run: "store_trade E (u256_rat a) n s = (Inr rt, t)"
    by (auto simp: record_trade_def run_iffs decimal_of_u256)
  have trig: "new_trigger n = (sid, ev_tx_hash event, ev_pool_address event, ev_log_index event)"
    by (simp add: n new_trigger_def)
  from run obtain res s2 where ins: "insert_trade E n (s\<lparr>calls := Suc (calls s)\<rparr>) = (Inr res, s2)"
    and rest: "(case res of
        Some (i, tm) \<Rightarrow> rbind (sql E (add_sold E (u256_rat a) (nt_session n)))
          (\<lambda>_. ret \<lparr>rec_trade_id = uuid_show (lib_of E) i, rec_executed_at = time_show (lib_of E) tm, rec_inserted = True\<rparr>)
      | None \<Rightarrow> rbind (query E (existing_trade (new_trigger n)))
          (\<lambda>row. rbind (of_result (ok_or ''Failed to fetch existing trade for duplicate trigger'' row))
          (\<lambda>(i, tm). ret \<lparr>rec_trade_id = uuid_show (lib_of E) i, rec_executed_at = time_show (lib_of E) tm, rec_inserted = False\<rparr>))) s2
      = (Inr rt, t)"
    unfolding store_trade_def Let_def by (auto simp: run_iffs)
  from ins show thesis
  proof (cases rule: insert_trade_cases)
    case Duplicate
    then have "\<not> rec_inserted rt" "t = s\<lparr>calls := Suc (Suc (calls s))\<rparr>"
      using rest by (auto simp: run_iffs)
    moreover have "has_trigger (new_trigger n) s" using Duplicate by (simp add: has_trigger_def)
    ultimately show ?thesis using sid trig by (intro Known) auto
  next
    case (Inserted i tm x b c)
    then have b: "b = uint a" by (simp add: n u256_fits)
    have "rec_inserted rt" "rec_trade_id rt = uuid_show (lib_of E) i"
      and add: "add_sold E (of_int (uint a)) (nt_session n) (s2\<lparr>calls := Suc (calls s2)\<rparr>) = (Inr (), t)"
      using rest Inserted(1) by (auto simp: run_iffs u256_rat_def)
    moreover have "\<not> has_trigger (new_trigger n) s" using Inserted(3) by (simp add: has_trigger_def)
    ultimately show ?thesis
      using sid trig Inserted(2) add_sold_int [OF add] b
      by (intro Recorded [where sid = sid and n = n and i = i and tm = tm and x = x and c = c and k = "Suc (calls s2)"
          and up = "db_now E (Suc (calls s2))"]) (auto simp: n)
  qed simp
qed

lemma record_trade_balanced:
  assumes "decimal_law (lib_of E)"
    and "record_trade E session event a impact mcap tx s = (Inr rt, t)" "books_balanced s"
  shows "books_balanced t"
  using assms(1,2)
proof (cases rule: record_trade_ok_cases)
  case (Recorded sid n i tm x c k up)
  then show ?thesis
    unfolding Recorded(8) using books_after_sale [OF assms(3), of "new_trade_row n i tm x (uint a) c" sid "uint a" up]
    by simp
next
  case (Known k sid)
  then show ?thesis using assms(3) by simp
qed

text \<open>C24: Recording a trade keeps the books: whenever it reports success, the sold amount of every
  session is still the sum of its trades; if the session has no trade for the transaction, pool and log index of the
  event yet, exactly one trade with that trigger and the amount sold is added, under the identifier that is answered,
  and the amount to the sold amount of that session only; otherwise no table changes and the trade is reported as not
  inserted.\<close>

theorem record_trade_books:
  assumes "decimal_law (lib_of E)" "books_balanced s"
    and "record_trade E session event a impact mcap tx s = (Inr rt, t)"
  shows "books_balanced t \<and> (\<exists>sid. uuid_parse (lib_of E) (si_id session) = Some sid \<and>
     (rec_inserted rt \<longleftrightarrow> \<not> list_ex (\<lambda>q. t_session q = sid \<and> t_trigger_tx q = ev_tx_hash event \<and>
        t_trigger_pool q = ev_pool_address event \<and> t_trigger_log q = ev_log_index event) (trades s)) \<and>
     (if rec_inserted rt
      then (\<exists>row. trades t = trades s @ [row] \<and> rec_trade_id rt = uuid_show (lib_of E) (t_id row) \<and>
              t_session row = sid \<and> t_trigger_tx row = ev_tx_hash event \<and> t_trigger_pool row = ev_pool_address event \<and>
              t_trigger_log row = ev_log_index event \<and> t_sell_amount row = uint a \<and>
              t_status row = T_Submitted \<and> t_sell_tx row = tx) \<and>
           map (\<lambda>q. (s_id q, s_sold q)) (sessions t) =
             map (\<lambda>q. (s_id q, if s_id q = sid then s_sold q + uint a else s_sold q)) (sessions s)
      else same_tables s t))"
proof -
  have had: "has_trigger (sid, ev_tx_hash event, ev_pool_address event, ev_log_index event) s \<longleftrightarrow>
      list_ex (\<lambda>q. t_session q = sid \<and> t_trigger_tx q = ev_tx_hash event \<and> t_trigger_pool q = ev_pool_address event \<and>
        t_trigger_log q = ev_log_index event) (trades s)" for sid
    by (simp add: has_trigger_def trigger_of_def)
  have books: "books_balanced t" by (rule record_trade_balanced [OF assms(1,3,2)])
  show ?thesis
    using assms(1,3)
  proof (cases rule: record_trade_ok_cases)
    case (Recorded sid n i tm x c k up)
    let ?row = "new_trade_row n i tm x (uint a) c"
    have "t_session ?row = sid \<and> t_trigger_tx ?row = ev_tx_hash event \<and> t_trigger_pool ?row = ev_pool_address event \<and>
        t_trigger_log ?row = ev_log_index event \<and> t_sell_amount ?row = uint a \<and> t_status ?row = T_Submitted \<and>
        t_sell_tx ?row = tx \<and> rec_trade_id rt = uuid_show (lib_of E) (t_id ?row)"
      using Recorded(3-6) by (simp add: new_trade_row_def new_trigger_def)
    moreover have "map (\<lambda>q. (s_id q, s_sold q)) (sessions t) =
        map (\<lambda>q. (s_id q, if s_id q = sid then s_sold q + uint a else s_sold q)) (sessions s)"
      unfolding Recorded(8) by (simp add: update_where_def)
    moreover have "trades t = trades s @ [?row]" unfolding Recorded(8) by simp
    ultimately show ?thesis
      using books Recorded(1,2) Recorded(7) [unfolded Recorded(6) had] by (intro conjI exI [of _ sid]) auto
  next
    case (Known k sid)
    then show ?thesis using books had by (intro conjI exI [of _ sid]) (auto simp: same_tables_def)
  qed
qed

subsection \<open>A lost update\<close>

text \<open>Recording again a trade whose trigger is known changes no table, whatever happens.\<close>

lemma insert_known: "has_trigger (new_trigger n) s \<Longrightarrow> \<exists>r. insert_trade E n s = (r, s) \<and> (r = Inr None \<or> isl r)"
  by (auto simp: insert_trade_def Let_def split: option.splits)

lemma store_trade_known:
  assumes "has_trigger (new_trigger n) s" "store_trade E amount n s = (r, t)"
  shows "same_tables s t \<and> (\<forall>rt. r = Inr rt \<longrightarrow> \<not> rec_inserted rt)"
proof -
  let ?s = "s\<lparr>calls := Suc (calls s)\<rparr>"
  have "has_trigger (new_trigger n) ?s" using assms(1) by (simp add: has_trigger_def)
  then obtain x where x: "insert_trade E n ?s = (x, ?s)" "x = Inr None \<or> isl x"
    using insert_known by blast
  show ?thesis
  proof (cases "db_reply E (calls s) = Served \<and> x = Inr None")
    case True
    let ?m = "rbind (query E (existing_trade (new_trigger n)))
      (\<lambda>row. rbind (of_result (ok_or ''Failed to fetch existing trade for duplicate trigger'' row))
      (\<lambda>(i, tm). ret \<lparr>rec_trade_id = uuid_show (lib_of E) i, rec_executed_at = time_show (lib_of E) tm, rec_inserted = False\<rparr>))"
    have run: "?m ?s = (r, t)"
      using assms(2) True x by (simp add: store_trade_def Let_def rbind_def sql_def)
    have "keeps same_tables ?m" by (intro tab.keeps_world)
    from keepsD [OF this run] have "same_tables s t" by (simp add: same_tables_def)
    then show ?thesis using run by (auto simp: run_iffs)
  next
    case False
    then have "t = ?s \<and> isl r"
      using assms(2) x
      by (auto simp: store_trade_def Let_def rbind_def sql_def isl_def split: db_reply.splits)
    then show ?thesis by (auto simp: same_tables_def)
  qed
qed

lemma sql_cases:
  assumes "sql E f s = (r, t)"
  obtains (Unchanged) "t = s\<lparr>calls := Suc (calls s)\<rparr>" "isl r"
  | (Done) "t = snd (f (s\<lparr>calls := Suc (calls s)\<rparr>))"
      "r = fst (f (s\<lparr>calls := Suc (calls s)\<rparr>)) \<or> isl r"
  using assms by (auto simp: sql_def Let_def split: db_reply.splits intro: that)

text \<open>A world has the trades of \<open>s\<close>, or one more for \<open>n\<close>.\<close>

definition grown_by :: "new_trade \<Rightarrow> world \<Rightarrow> world \<Rightarrow> bool" where
  "grown_by n s u \<longleftrightarrow> trades u = trades s \<or>
     (\<exists>i tm x b c. trades u = trades s @ [new_trade_row n i tm x b c] \<and>
       numeric78 (nt_sell_amount n) = Some b \<and> (\<exists>q \<in> set (sessions s). s_id q = nt_session n))"

definition same_trades :: "world \<Rightarrow> world \<Rightarrow> bool" where
  "same_trades s t \<longleftrightarrow> trades t = trades s"

interpretation trd: world_rel same_trades
  by unfold_locales (auto simp: same_trades_def)

lemma store_trade_grows:
  assumes "store_trade E amount n s = (r, t)"
  shows "grown_by n s t"
proof -
  obtain x u where ins: "sql E (insert_trade E n) s = (x, u)" by (cases "sql E (insert_trade E n) s")
  have u: "grown_by n s u"
    using ins
  proof (cases rule: sql_cases)
    case Done
    obtain y where "insert_trade E n (s\<lparr>calls := Suc (calls s)\<rparr>) = (y, u)"
      using Done(1) by (metis prod.collapse)
    then show ?thesis by (cases rule: insert_trade_cases) (auto simp: grown_by_def)
  qed (simp add: grown_by_def)
  have "keeps same_trades (sql E (add_sold E amount sid))" for sid
    by (rule trd.keeps_sql) (simp add: same_trades_def)
  then have "keeps same_trades (case y of
      Some (i, tm) \<Rightarrow> rbind (sql E (add_sold E amount (nt_session n)))
          (\<lambda>_. ret \<lparr>rec_trade_id = uuid_show (lib_of E) i, rec_executed_at = time_show (lib_of E) tm, rec_inserted = True\<rparr>)
    | None \<Rightarrow> rbind (query E (existing_trade (new_trigger n)))
        (\<lambda>row. rbind (of_result (ok_or ''Failed to fetch existing trade for duplicate trigger'' row))
        (\<lambda>(i, tm). ret \<lparr>rec_trade_id = uuid_show (lib_of E) i, rec_executed_at = time_show (lib_of E) tm, rec_inserted = False\<rparr>)))"
    for y by (intro trd.keeps_world)
  then have "same_trades u t"
    using assms ins by (cases x) (auto simp: store_trade_def Let_def rbind_def trd.rel_refl dest!: keepsD)
  with u show ?thesis by (simp add: grown_by_def same_trades_def)
qed

lemma record_trade_grows:
  assumes "decimal_law (lib_of E)" "record_trade E session event a impact mcap tx s = (r, t)"
    and "trades t \<noteq> trades s"
  obtains sid row q where "uuid_parse (lib_of E) (si_id session) = Some sid"
    "trades t = trades s @ [row]" "t_sell_amount row = uint a" "t_session row = sid"
    "trigger_of row = (sid, ev_tx_hash event, ev_pool_address event, ev_log_index event)"
    "q \<in> set (sessions s)" "s_id q = sid"
proof -
  obtain sid ta mc where sid: "uuid_parse (lib_of E) (si_id session) = Some sid"
    and run: "store_trade E (u256_rat a) \<lparr>nt_session = sid, nt_chain = si_chain session, nt_trigger_tx = ev_tx_hash event,
        nt_pool = ev_pool_address event, nt_log = ev_log_index event, nt_trigger_amount = ta,
        nt_sell_amount = u256_rat a, nt_sell_tx = tx, nt_impact = impact, nt_mcap = mc\<rparr> s = (r, t)"
    (is "store_trade E _ ?n s = _")
    using assms(2,3)
    by (cases r) (auto simp: record_trade_def run_iffs decimal_of_u256 [OF assms(1)] rbind_Inl_iff)
  from store_trade_grows [OF run] assms(3) obtain i tm x b c q
    where "trades t = trades s @ [new_trade_row ?n i tm x b c]" "numeric78 (u256_rat a) = Some b"
      "q \<in> set (sessions s)" "s_id q = sid"
    by (auto simp: grown_by_def)
  then show thesis
    using sid by (intro that [of sid "new_trade_row ?n i tm x b c" q]) (auto simp: u256_fits new_trigger_def)
qed

text \<open>C25: When the second statement of a recording fails, the trade is in the ledger but its amount
  is missing from the session, and no later recording of the same trigger, whatever it
  sells and whatever the database answers, adds it: the redelivered event is a duplicate.\<close>

theorem lost_update_never_repaired:
  assumes "decimal_law (lib_of E)" "books_balanced s" "a \<noteq> 0"
    and "record_trade E session event a impact mcap tx s = (Inl e, t)"
    and "trades t \<noteq> trades s" "sessions t = sessions s"
  shows "\<not> books_balanced t \<and>
     (\<forall>F b i m h r u. lib_of F = lib_of E \<and> record_trade F session event b i m h t = (r, u) \<longrightarrow>
        same_tables t u \<and> (\<forall>rt. r = Inr rt \<longrightarrow> \<not> rec_inserted rt))"
proof -
  obtain sid row q where sid: "uuid_parse (lib_of E) (si_id session) = Some sid"
    and row: "trades t = trades s @ [row]" "t_sell_amount row = uint a" "t_session row = sid"
    and trig: "trigger_of row = (sid, ev_tx_hash event, ev_pool_address event, ev_log_index event)"
    and q: "q \<in> set (sessions s)" "s_id q = sid"
    using record_trade_grows [OF assms(1,4,5)] by blast
  have "s_sold q = sold_by sid (trades s)" "uint a \<noteq> 0"
    using assms(2,3) q by (auto simp: books_balanced_def uint_0_iff)
  then have "\<not> books_balanced t"
    using q row assms(6) by (auto simp: books_balanced_def intro!: bexI [of _ q])
  moreover have "same_tables t u \<and> (\<forall>rt. r = Inr rt \<longrightarrow> \<not> rec_inserted rt)"
    if lib: "lib_of F = lib_of E" and run: "record_trade F session event b i m h t = (r, u)" for F b i m h r u
  proof -
    have "has_trigger (sid, ev_tx_hash event, ev_pool_address event, ev_log_index event) t"
      using row trig by (simp add: has_trigger_def)
    then have *: "same_tables t u \<and> (\<forall>rt. r = Inr rt \<longrightarrow> \<not> rec_inserted rt)"
      if "store_trade F (u256_rat b) \<lparr>nt_session = sid, nt_chain = si_chain session, nt_trigger_tx = ev_tx_hash event,
        nt_pool = ev_pool_address event, nt_log = ev_log_index event, nt_trigger_amount = ta,
        nt_sell_amount = u256_rat b, nt_sell_tx = h, nt_impact = i, nt_mcap = mc\<rparr> t = (r, u)" for ta mc
      by (intro store_trade_known [OF _ that]) (simp add: new_trigger_def)
    have D: "parse_numeric_decimal F (u256_show (lib_of F) b) f = Inr (u256_rat b)" for f
      using decimal_of_u256 [of F b f] assms(1) lib by simp
    show ?thesis
      using run sid * lib D
      by (cases r) (fastforce simp: record_trade_def run_iffs tab.rel_refl)+
  qed
  ultimately show ?thesis by blast
qed

definition refuse_at :: "nat \<Rightarrow> env" where
  "refuse_at k = sample_env\<lparr>db_reply := (\<lambda>n. if n = k then Refused ''connection lost'' else Served)\<rparr>"

definition sample_session_row :: session_row where
  "sample_session_row = \<lparr>s_id = 9, s_user = 3, s_wallet = 0, s_chain = ''bsc'', s_status = S_Active,
     s_sell_token = ''0x0000000000000000000000000000000000000001'', s_sell_symbol = ''A'', s_sell_decimals = 18,
     s_target_token = ''0x0000000000000000000000000000000000000002'', s_target_symbol = ''B'', s_target_decimals = 18,
     s_strategy = ''pov'', s_total = 1000, s_sold = 0, s_pov = 10, s_impact = 5, s_trigger = 0, s_mcap = 0,
     s_path = None, s_slug = None, s_sharing = False, s_created = 0, s_updated = 0\<rparr>"

definition sample_session :: session_info where
  "sample_session = \<lparr>si_id = show_hex 32 9, si_user = show_hex 32 3, si_wallet = show_hex 32 0, si_chain = ''bsc'',
     si_status = ''active'', si_sell_token = ''0x0000000000000000000000000000000000000001'', si_sell_symbol = ''A'',
     si_sell_decimals = 18, si_target_token = ''0x0000000000000000000000000000000000000002'', si_target_symbol = ''B'',
     si_target_decimals = 18, si_strategy = ''pov'', si_total = ''1000'', si_sold = ''0'', si_pov = Fin 10,
     si_impact = Fin 5, si_trigger = Fin 0, si_path_json = [], si_slug = [], si_sharing = False, si_mcap = Fin 0,
     si_created = [], si_updated = [], si_pools = []\<rparr>"

definition sample_event :: dex_swap_event where
  "sample_event = \<lparr>ev_chain = ''bsc'', ev_block_number = 1, ev_tx_hash = ''0xab'', ev_log_index = 4,
     ev_pool_address = ''0x00000000000000000000000000000000000000aa'', ev_dex_type = ''v2'', ev_token_in = [],
     ev_token_out = [], ev_amount_in = ''7'', ev_amount_out = ''1000'', ev_sender = [], ev_recipient = [],
     ev_timestamp = 0, ev_token0_is_input = False\<rparr>"

definition session_world :: world where
  "session_world = empty_world\<lparr>sessions := [sample_session_row]\<rparr>"

lemma sample_decimal_law: "decimal_law sample_lib"
proof -
  have "of_nat (digits_val (show_nat (unat x))) = u256_rat x" for x
    by (simp add: u256_rat_def)
  then show ?thesis
    by (simp add: decimal_law_def sample_lib_def sample_decimal_parse_def sample_u256_show_def)
qed

lemma sample_ids:
  "uuid_parse sample_lib (show_hex 32 9) = Some 9" "decimal_parse sample_lib ''1000'' = Some 1000"
  by code_simp+

lemma sample_insert:
  assumes "lib_of E = sample_lib" "\<And>n. fresh_uuid E n = of_nat n" "db_reply E 0 = Served"
  shows "record_trade E sample_session sample_event a impact None tx session_world =
     rbind (sql E (add_sold E (u256_rat a) 9)) (\<lambda>_.
       ret \<lparr>rec_trade_id = uuid_show sample_lib 1, rec_executed_at = time_show sample_lib (db_now E 1), rec_inserted = True\<rparr>)
     (session_world\<lparr>calls := 1, trades := [new_trade_row \<lparr>nt_session = 9, nt_chain = ''bsc'', nt_trigger_tx = ''0xab'',
        nt_pool = ''0x00000000000000000000000000000000000000aa'', nt_log = 4, nt_trigger_amount = 1000,
        nt_sell_amount = u256_rat a, nt_sell_tx = tx, nt_impact = impact, nt_mcap = None\<rparr>
        1 (db_now E 1) 1000 (uint a) None]\<rparr>)"
proof -
  have "numeric78 1000 = Some 1000" using numeric78_int [of 1000] by simp
  moreover have "decimal_parse sample_lib (u256_show sample_lib a) = Some (u256_rat a)"
    using sample_decimal_law by (simp add: decimal_law_def)
  ultimately show ?thesis
    by (simp add: record_trade_def store_trade_def mcap_column_def parse_numeric_decimal_def assms sample_ids
        sample_session_def sample_event_def insert_trade_def sql_def rbind_def of_result_def ok_or_def Let_def
        session_world_def empty_world_def sample_session_row_def chain_ids_def opt_numeric_def u256_fits has_trigger_def)
qed

lemma add_sold_sample:
  "sessions s = [sample_session_row] \<Longrightarrow> add_sold E (u256_rat 100) 9 s =
     (Inr (), s\<lparr>sessions := [sample_session_row\<lparr>s_sold := 100, s_updated := db_now E (calls s)\<rparr>]\<rparr>)"
  using u256_fits [of 100] by (simp add: add_sold_def sample_session_row_def)

lemma session_world_books [simp]: "books_balanced session_world"
  by (simp add: books_balanced_def session_world_def empty_world_def sample_session_row_def sold_by_def)

theorem record_trade_books_witness:
  "\<exists>rt t. record_trade sample_env sample_session sample_event 100 9 None (Some ''0x77'') session_world = (Inr rt, t) \<and>
     books_balanced t \<and> (\<exists>row. trades t = trades session_world @ [row] \<and> t_trigger_tx row = ev_tx_hash sample_event \<and>
       t_trigger_log row = ev_log_index sample_event \<and> t_sell_amount row = 100)"
proof -
  have E: "lib_of sample_env = sample_lib" "\<And>n. fresh_uuid sample_env n = of_nat n" "db_reply sample_env n = Served" for n
    by (simp_all add: sample_env_def)
  obtain rt t where run: "record_trade sample_env sample_session sample_event 100 9 None (Some ''0x77'') session_world = (Inr rt, t)"
    and new: "rec_inserted rt"
    unfolding sample_insert [OF E]
    by (simp add: rbind_def sql_def E Let_def add_sold_sample session_world_def ret_def)
  have "decimal_law (lib_of sample_env)" using sample_decimal_law E by simp
  from record_trade_books [OF this session_world_books run] new run show ?thesis by auto
qed

theorem lost_update_never_repaired_witness:
  "\<exists>e t. record_trade (refuse_at 1) sample_session sample_event 100 9 None (Some ''0x77'') session_world = (Inl e, t) \<and>
     \<not> books_balanced t"
proof -
  have E: "lib_of (refuse_at 1) = sample_lib" "\<And>n. fresh_uuid (refuse_at 1) n = of_nat n" "db_reply (refuse_at 1) 0 = Served"
    "db_reply (refuse_at 1) 1 = Refused ''connection lost''"
    by (simp_all add: refuse_at_def sample_env_def)
  obtain e t where run: "record_trade (refuse_at 1) sample_session sample_event 100 9 None (Some ''0x77'') session_world = (Inl e, t)"
    and t: "trades t \<noteq> trades session_world" "sessions t = sessions session_world"
    unfolding sample_insert [OF E(1-3)]
    by (simp add: rbind_def sql_def E Let_def session_world_def empty_world_def del: One_nat_def)
  have "decimal_law (lib_of (refuse_at 1))" using sample_decimal_law E by simp
  from lost_update_never_repaired [OF this session_world_books _ run t] run show ?thesis by auto
qed

section \<open>Waiting for a receipt\<close>

definition costs :: "nat \<Rightarrow> (world, 'e, 'a) rt \<Rightarrow> bool" where
  "costs k m \<longleftrightarrow> (\<forall>s r t. m s = (r, t) \<longrightarrow> calls t \<le> calls s + k)"

lemma costsD: "costs k m \<Longrightarrow> m s = (r, t) \<Longrightarrow> calls t \<le> calls s + k"
  by (auto simp: costs_def)

lemma costs_rbind: "costs j m \<Longrightarrow> (\<And>x. costs k (f x)) \<Longrightarrow> costs (j + k) (rbind m f)"
  unfolding costs_def rbind_def by (fastforce split: prod.splits sum.splits)

lemma costs_0: "costs 0 (ret x)" "costs 0 (of_result r)"
  by (simp_all add: costs_def)

lemma costs_mono: "costs j m \<Longrightarrow> j \<le> k \<Longrightarrow> costs k m"
  by (fastforce simp: costs_def)

lemma costs_exec: "(\<And>s. calls (f s) = calls s) \<Longrightarrow> costs 1 (exec E f)"
  by (auto simp: costs_def exec_def sql_def Let_def modify_def split: db_reply.splits)

lemma costs_mark: "costs 1 (mark_trade_confirmed E i)" "costs 1 (mark_trade_failed E i reason)"
proof -
  have "costs (0 + 1) (mark_trade_confirmed E i)" "costs (0 + 1) (mark_trade_failed E i reason)"
    unfolding mark_trade_confirmed_def mark_trade_failed_def trade_uuid_def
    by (intro costs_rbind costs_0 costs_exec, simp add: set_trade_def)+
  then show "costs 1 (mark_trade_confirmed E i)" "costs 1 (mark_trade_failed E i reason)" by simp_all
qed

lemma costs_update_received: "costs 1 (update_trade_received E i amount token)"
proof -
  have "costs 1 (sql E (set_received k x token))" for k x
    by (auto simp: costs_def sql_def Let_def set_received_def set_trade_def split: db_reply.splits option.splits)
  then have "costs (0 + (0 + 1)) (update_trade_received E i amount token)"
    unfolding update_trade_received_def trade_uuid_def by (intro costs_rbind costs_0)
  then show ?thesis by simp
qed

lemma costs_finish: "costs 3 (finish_confirmed E i token received)" "costs 3 (finish_failed E i reason)"
proof -
  have "costs 1 (case received of None \<Rightarrow> ret () | Some amount \<Rightarrow> update_trade_received E i amount token)"
    using costs_update_received costs_mono [OF costs_0(1)] by (cases received) auto
  then have "costs (1 + 1) (confirm_with_amount E i token received)"
    unfolding confirm_with_amount_def by (intro costs_rbind costs_mark)
  then have "costs ((1 + 1) + 0) (finish_confirmed E i token received)"
    unfolding finish_confirmed_def by (intro costs_rbind costs_0)
  moreover have "costs (1 + 0) (finish_failed E i reason)"
    unfolding finish_failed_def by (intro costs_rbind costs_mark costs_0)
  ultimately show "costs 3 (finish_confirmed E i token received)" "costs 3 (finish_failed E i reason)"
    by (auto elim: costs_mono)
qed

lemma costs_fetch: "costs 1 (fetch_receipt_with_received E chain h token r)"
proof -
  have "costs 1 (remote E f)" for f :: "nat \<Rightarrow> err + 'x" by (simp add: costs_def remote_def)
  moreover have "costs 0 (case x of None \<Rightarrow> ret None | Some rc \<Rightarrow> (case parse_receipt_success_from_json rc of
      None \<Rightarrow> ret None | Some b \<Rightarrow> if \<not> b then ret (Some (False, None))
        else ret (Some (True, map_option (u256_show (lib_of E)) (received_of_receipt E chain token r rc)))))" for x
    by (auto simp: costs_0 split: option.split)
  ultimately have "costs (0 + (0 + (1 + 0))) (fetch_receipt_with_received E chain h token r)"
    unfolding fetch_receipt_with_received_def by (intro costs_rbind costs_0)
  then show ?thesis by simp
qed

lemma poll_measure:
  fixes a x :: nat
  assumes "a \<le> x - 2000" "0 < x"
  shows "(a + 1999) div 2000 + 1 \<le> (x + 1999) div 2000"
proof (cases "2000 \<le> x")
  case True
  then have "(a + 1999 + 2000) div 2000 \<le> (x + 1999) div 2000" using assms by (intro div_le_mono) simp
  then show ?thesis by simp
next
  case False
  then have "a = 0" "2000 \<le> x + 1999" using assms by simp_all
  then have "2000 div 2000 \<le> (x + 1999) div 2000" by (intro div_le_mono)
  with \<open>a = 0\<close> show ?thesis by simp
qed

lemma finalize_loop_bounded:
  "finalize_loop E chain trade_id h token recipient deadline s = (r, t) \<Longrightarrow>
     calls t \<le> calls s + 2 * ((deadline - clock s + 1999) div 2000) + 4 \<and>
     (r = Inr still_submitted \<longrightarrow> deadline \<le> clock t)"
proof (induction E chain trade_id h token recipient deadline s arbitrary: r t rule: finalize_loop.induct)
  case (1 E chain trade_id h token recipient deadline s)
  obtain x s1 where fetch: "fetch_receipt_with_received E chain h token recipient s = (x, s1)"
    by (cases "fetch_receipt_with_received E chain h token recipient s")
  have c1: "calls s1 \<le> calls s + 1" using costsD [OF costs_fetch fetch] .
  have k1: "clock s \<le> clock s1" using fetch_receipt_clock [OF fetch] .
  have finish: ?case
    if "finish_confirmed E trade_id token received s1 = (r, t) \<or> finish_failed E trade_id reason s1 = (r, t)"
    for received reason
  proof -
    have "calls t \<le> calls s1 + 3" using that costsD costs_finish by blast
    moreover have "r \<noteq> Inr still_submitted"
      using that by (auto simp: finish_confirmed_def finish_failed_def run_iffs still_submitted_def)
    ultimately show ?thesis using c1 by simp
  qed
  consider e where "x = Inl e" | "x = Inr None" | b received where "x = Inr (Some (b, received))"
    by (cases x) (auto, metis option.exhaust prod.exhaust)
  then show ?case
  proof cases
    case 1
    then have "\<exists>reason. finish_failed E trade_id reason s1 = (r, t)"
      using "1.prems" fetch by (auto simp: finalize_loop.simps [of E chain _ _ _ _ _ s])
    then show ?thesis using finish by blast
  next
    case 2
    show ?thesis
    proof (cases "deadline \<le> clock s1")
      case True
      then have "t = s1" using "1.prems" fetch 2 by (simp add: finalize_loop.simps [of E chain])
      with c1 True show ?thesis by simp
    next
      case False
      let ?s2 = "slept E 2000 s1"
      have run: "finalize_loop E chain trade_id h token recipient deadline ?s2 = (r, t)"
        using "1.prems" fetch 2 False by (simp add: finalize_loop.simps [of E chain _ _ _ _ _ s])
      have IH: "calls t \<le> calls ?s2 + 2 * ((deadline - clock ?s2 + 1999) div 2000) + 4 \<and>
          (r = Inr still_submitted \<longrightarrow> deadline \<le> clock t)"
        using "1.IH" [OF fetch [symmetric] 2 refl False run] by simp
      have "deadline - clock ?s2 \<le> deadline - clock s - 2000" "clock s < deadline"
        using k1 False by (auto simp: slept_def)
      then have "(deadline - clock ?s2 + 1999) div 2000 + 1 \<le> (deadline - clock s + 1999) div 2000"
        by (intro poll_measure) simp_all
      moreover have "calls ?s2 \<le> calls s + 2" using c1 by (simp add: slept_def)
      ultimately show ?thesis using IH by linarith
    qed
  next
    case 3
    then have "(\<exists>received. finish_confirmed E trade_id token received s1 = (r, t)) \<or>
        (\<exists>reason. finish_failed E trade_id reason s1 = (r, t))"
      using "1.prems" fetch by (cases b) (auto simp: finalize_loop.simps [of E chain _ _ _ _ _ s])
    then show ?thesis using finish by blast
  qed
qed

text \<open>C26: Waiting for a receipt ends: it makes at most 64 calls of the node, the database and the
  timer, and it gives up with the status ``submitted'' only after a full minute.\<close>

theorem finalize_terminates:
  assumes "finalize_trade_status_from_receipt E chain trade_id tx token recipient s = (r, t)"
  shows "calls t \<le> calls s + 64 \<and>
     (r = Inr still_submitted \<longrightarrow> clock s + 60000 \<le> clock t \<or> tx = None \<or> trim (the tx) = [])"
proof (cases "tx = None \<or> trim (the tx) = []")
  case True
  then show ?thesis
    using assms by (auto simp: finalize_trade_status_from_receipt_def Let_def split: option.splits)
next
  case False
  then have "finalize_loop E chain trade_id (trim (the tx)) token recipient (clock s + 60000) s = (r, t)"
    using assms by (auto simp: finalize_trade_status_from_receipt_def Let_def split: option.splits)
  from finalize_loop_bounded [OF this] show ?thesis by simp
qed

text \<open>What the caller is told is what the ledger says.\<close>

lemma set_trade_row:
  "r \<in> set (trades (set_trade i P f s)) \<Longrightarrow> t_id r = i \<Longrightarrow> (\<And>t. t_id (f t) = t_id t) \<Longrightarrow>
     \<exists>r0 \<in> set (trades s). t_id r0 = i \<and> r = (if P r0 then f r0 else r0)"
proof -
  assume r: "r \<in> set (trades (set_trade i P f s))" "t_id r = i" "\<And>t. t_id (f t) = t_id t"
  then obtain r0 where r0: "r0 \<in> set (trades s)" "r = (if t_id r0 = i \<and> P r0 then f r0 else r0)"
    unfolding set_trade_def by (auto dest: set_update_where)
  with r have "t_id r0 = i" by (simp split: if_splits)
  with r0 show ?thesis by (intro bexI [of _ r0]) simp_all
qed

lemma set_received_Inr:
  "set_received i x token s = (Inr u, t) \<longleftrightarrow> (\<exists>y. numeric78 x = Some y \<and>
     t = set_trade i (\<lambda>t. True) (\<lambda>t. t\<lparr>t_received := Some y, t_final_token := Some token\<rparr>) s)"
  by (auto simp: set_received_def split: option.splits)

lemma update_trade_received_Inr:
  assumes "update_trade_received E trade_id amount token s = (Inr u, t)"
    and "uuid_parse (lib_of E) trade_id = Some i"
  shows "\<exists>y. t = set_trade i (\<lambda>t. True) (\<lambda>t. t\<lparr>t_received := Some y, t_final_token := Some token\<rparr>)
     (s\<lparr>calls := Suc (calls s)\<rparr>)"
proof -
  obtain i' x s1 s2 where "trade_uuid E trade_id s = (Inr i', s1)"
    and "of_result (parse_numeric_decimal E amount ''final_received'') s1 = (Inr x, s2)"
    and run: "sql E (set_received i' x token) s2 = (Inr u, t)"
    using assms(1) unfolding update_trade_received_def rbind_Inr_iff by (elim exE conjE)
  then have "i' = i" "s2 = s" using assms(2) by (simp_all add: trade_uuid_def)
  then show ?thesis
    using run unfolding sql_Inr set_received_Inr by (elim exE conjE) (rule exI, simp)
qed

lemma mark_confirmed_Inr:
  assumes "mark_trade_confirmed E trade_id s = (Inr u, t)" "uuid_parse (lib_of E) trade_id = Some i"
  shows "t = set_trade i (\<lambda>t. True) (\<lambda>t. t\<lparr>t_status := T_Confirmed, t_failure := None\<rparr>) (s\<lparr>calls := Suc (calls s)\<rparr>)"
  using assms by (simp add: mark_trade_confirmed_def trade_uuid_def exec_def rbind_Inr_iff sql_Inr)

lemma mark_failed_Inr:
  assumes "mark_trade_failed E trade_id reason s = (Inr u, t)" "uuid_parse (lib_of E) trade_id = Some i"
  shows "t = set_trade i (\<lambda>t. t_status t \<noteq> T_Confirmed) (\<lambda>t. t\<lparr>t_status := T_Failed, t_failure := Some reason\<rparr>)
     (s\<lparr>calls := Suc (calls s)\<rparr>)"
  using assms by (simp add: mark_trade_failed_def trade_uuid_def exec_def rbind_Inr_iff sql_Inr)

lemma confirm_with_amount_row:
  assumes "confirm_with_amount E trade_id token received s = (Inr u, t)"
    and "uuid_parse (lib_of E) trade_id = Some i" "row \<in> set (trades t)" "t_id row = i"
  shows "t_status row = T_Confirmed \<and> t_failure row = None \<and>
     (received \<noteq> None \<longrightarrow> t_final_token row = Some token)"
proof -
  let ?f = "\<lambda>t. t\<lparr>t_status := T_Confirmed, t_failure := None\<rparr>"
  obtain v s1 where c: "mark_trade_confirmed E trade_id s = (Inr v, s1)"
    and rest: "(case received of None \<Rightarrow> ret () | Some amount \<Rightarrow> update_trade_received E trade_id amount token) s1 = (Inr u, t)"
    using assms(1) unfolding confirm_with_amount_def rbind_Inr_iff by blast
  have conf: "t_status r = T_Confirmed \<and> t_failure r = None" if "r \<in> set (trades s1)" "t_id r = i" for r
    using set_trade_row [of r i "\<lambda>t. True" ?f, OF that(1) [unfolded mark_confirmed_Inr [OF c assms(2)]] that(2)]
    by force
  show ?thesis
  proof (cases received)
    case None
    then show ?thesis using rest conf assms by simp
  next
    case (Some amount)
    with rest have "update_trade_received E trade_id amount token s1 = (Inr u, t)" by simp
    from update_trade_received_Inr [OF this assms(2)] obtain y where
      t: "t = set_trade i (\<lambda>t. True) (\<lambda>t. t\<lparr>t_received := Some y, t_final_token := Some token\<rparr>)
            (s1\<lparr>calls := Suc (calls s1)\<rparr>)" ..
    have "\<exists>r0 \<in> set (trades (s1\<lparr>calls := Suc (calls s1)\<rparr>)). t_id r0 = i \<and>
        row = (if True then r0\<lparr>t_received := Some y, t_final_token := Some token\<rparr> else r0)"
      by (rule set_trade_row [OF assms(3) [unfolded t] assms(4)]) simp
    with conf show ?thesis by force
  qed
qed

lemma mark_failed_row:
  assumes "mark_trade_failed E trade_id reason s = (Inr u, t)"
    and "uuid_parse (lib_of E) trade_id = Some i" "row \<in> set (trades t)" "t_id row = i"
  shows "t_status row = T_Confirmed \<or> t_status row = T_Failed \<and> t_failure row = Some reason"
proof -
  let ?f = "\<lambda>t. t\<lparr>t_status := T_Failed, t_failure := Some reason\<rparr>"
  have "\<exists>r0 \<in> set (trades (s\<lparr>calls := Suc (calls s)\<rparr>)). t_id r0 = i \<and>
      row = (if t_status r0 \<noteq> T_Confirmed then ?f r0 else r0)"
    by (rule set_trade_row [OF assms(3) [unfolded mark_failed_Inr [OF assms(1,2)]] assms(4)]) simp
  then obtain r0 where "row = (if t_status r0 \<noteq> T_Confirmed then ?f r0 else r0)" by blast
  then show ?thesis by (cases "t_status r0 = T_Confirmed") simp_all
qed

lemma finalize_loop_ends:
  "finalize_loop E chain trade_id h token recipient deadline s = (Inr fin, t) \<Longrightarrow>
     fin = still_submitted \<or>
     (\<exists>received u. finish_confirmed E trade_id token received u = (Inr fin, t)) \<or>
     (\<exists>reason u. finish_failed E trade_id reason u = (Inr fin, t))"
proof (induction E chain trade_id h token recipient deadline s rule: finalize_loop.induct)
  case (1 E chain trade_id h token recipient deadline s)
  show ?case
  proof (cases "fetch_receipt_with_received E chain h token recipient s")
    case (Pair x s1)
    consider e where "x = Inl e" | "x = Inr None" | b received where "x = Inr (Some (b, received))"
      by (cases x) (auto, metis option.exhaust prod.exhaust)
    then show ?thesis
    proof cases
      case 2
      show ?thesis
      proof (cases "deadline \<le> clock s1")
        case True
        then show ?thesis using "1.prems" Pair 2 by (simp add: finalize_loop.simps [of E chain])
      next
        case False
        have "finalize_loop E chain trade_id h token recipient deadline (slept E 2000 s1) = (Inr fin, t)"
          using "1.prems" Pair 2 False by (simp add: finalize_loop.simps [of E chain _ _ _ _ _ s])
        from "1.IH" [OF Pair [symmetric] 2 refl False this] show ?thesis .
      qed
    next
      case 3
      with "1.prems" Pair show ?thesis
        by (cases b) (auto simp: finalize_loop.simps [of E chain _ _ _ _ _ s])
    qed (use "1.prems" Pair in \<open>auto simp: finalize_loop.simps [of E chain _ _ _ _ _ s]\<close>)
  qed
qed

text \<open>C27: The outcome announced to the other services agrees with the ledger: after ``confirmed''
  the trade is confirmed and, if an amount was read from the receipt, carries the token
  received; after ``failed'' it is failed with the announced reason unless it had already
  been confirmed.\<close>

theorem finalize_agrees_with_ledger:
  assumes "finalize_trade_status_from_receipt E chain trade_id tx token recipient s = (Inr fin, t)"
    and "uuid_parse (lib_of E) trade_id = Some i" "row \<in> set (trades t)" "t_id row = i"
  shows "(fin_status fin = ''confirmed'' \<longrightarrow> t_status row = T_Confirmed \<and> t_failure row = None \<and>
       (fin_received fin \<noteq> None \<longrightarrow> t_final_token row = Some token)) \<and>
     (fin_status fin = ''failed'' \<longrightarrow>
       t_status row = T_Confirmed \<or> t_status row = T_Failed \<and> t_failure row = fin_failure fin)"
proof (cases "tx = None \<or> trim (the tx) = []")
  case True
  then have "fin = still_submitted"
    using assms(1) by (auto simp: finalize_trade_status_from_receipt_def Let_def split: option.splits)
  then show ?thesis by (simp add: still_submitted_def)
next
  case False
  then have "finalize_loop E chain trade_id (trim (the tx)) token recipient (clock s + 60000) s = (Inr fin, t)"
    using assms(1) by (auto simp: finalize_trade_status_from_receipt_def Let_def split: option.splits)
  from finalize_loop_ends [OF this] show ?thesis
  proof (elim disjE exE)
    assume "fin = still_submitted"
    then show ?thesis by (simp add: still_submitted_def)
  next
    fix received u
    assume "finish_confirmed E trade_id token received u = (Inr fin, t)"
    then obtain v where c: "confirm_with_amount E trade_id token received u = (Inr v, t)"
      and fin: "fin = \<lparr>fin_status = ''confirmed'', fin_failure = None, fin_received = received\<rparr>"
      by (auto simp: finish_confirmed_def rbind_Inr_iff)
    from confirm_with_amount_row [OF c assms(2-4)] show ?thesis by (simp add: fin)
  next
    fix reason u
    assume "finish_failed E trade_id reason u = (Inr fin, t)"
    then obtain v where c: "mark_trade_failed E trade_id reason u = (Inr v, t)"
      and fin: "fin = \<lparr>fin_status = ''failed'', fin_failure = Some reason, fin_received = None\<rparr>"
      by (auto simp: finish_failed_def rbind_Inr_iff)
    from mark_failed_row [OF c assms(2-4)] show ?thesis by (auto simp: fin)
  qed
qed

definition sample_trade :: trade_row where
  "sample_trade = new_trade_row \<lparr>nt_session = 9, nt_chain = ''bsc'', nt_trigger_tx = ''0xab'', nt_pool = [], nt_log = 4,
     nt_trigger_amount = 1000, nt_sell_amount = 100, nt_sell_tx = Some (sample_b256_show 77), nt_impact = 9,
     nt_mcap = None\<rparr> 7 0 1000 100 None"

definition trade_world :: world where
  "trade_world = session_world\<lparr>trades := [sample_trade]\<rparr>"

lemma sample_finalize:
  "finalize_trade_status_from_receipt sample_env ''bsc'' (show_hex 32 7) (Some (sample_b256_show 77)) ''0x01'' 5 trade_world =
     (Inr \<lparr>fin_status = ''confirmed'', fin_failure = None, fin_received = None\<rparr>,
      trade_world\<lparr>calls := 2, trades := [sample_trade\<lparr>t_status := T_Confirmed\<rparr>]\<rparr>)"
proof -
  have fetch: "fetch_receipt_with_received sample_env ''bsc'' (sample_b256_show 77) ''0x01'' 5 trade_world =
      (Inr (Some (True, None)), trade_world\<lparr>calls := 1\<rparr>)"
    by code_simp
  have hash: "trim (sample_b256_show 77) = sample_b256_show 77" "sample_b256_show 77 \<noteq> []"
    and id: "uuid_parse (lib_of sample_env) (show_hex 32 7) = Some 7"
    by code_simp+
  have [simp]: "db_reply sample_env n = Served" for n by (simp add: sample_env_def)
  have "t_id sample_trade = 7" "t_failure sample_trade = None"
    by (simp_all add: sample_trade_def new_trade_row_def)
  then have "sample_trade\<lparr>t_status := T_Confirmed, t_failure := None\<rparr> = sample_trade\<lparr>t_status := T_Confirmed\<rparr>"
    by simp
  moreover have "trades trade_world = [sample_trade]" by (simp add: trade_world_def)
  ultimately show ?thesis
    using \<open>t_id sample_trade = 7\<close>
    by (simp add: finalize_trade_status_from_receipt_def hash finalize_loop.simps fetch finish_confirmed_def
        confirm_with_amount_def mark_trade_confirmed_def trade_uuid_def id exec_def sql_def rbind_def Let_def
        ret_def of_result_def ok_or_def modify_def set_trade_def)
qed

theorem finalize_terminates_witness:
  "calls (snd (finalize_trade_status_from_receipt sample_env ''bsc'' (show_hex 32 7) (Some (sample_b256_show 77))
     ''0x01'' 5 trade_world)) \<le> calls trade_world + 64"
  using finalize_terminates [OF sample_finalize] by (simp add: sample_finalize)

theorem finalize_agrees_with_ledger_witness:
  "t_status (sample_trade\<lparr>t_status := T_Confirmed\<rparr>) = T_Confirmed \<and>
   t_failure (sample_trade\<lparr>t_status := T_Confirmed\<rparr>) = None"
proof -
  have id: "uuid_parse (lib_of sample_env) (show_hex 32 7) = Some 7" by code_simp
  have "t_id (sample_trade\<lparr>t_status := T_Confirmed\<rparr>) = 7"
    by (simp add: sample_trade_def new_trade_row_def)
  from finalize_agrees_with_ledger [OF sample_finalize id _ this] show ?thesis
    by (simp add: trade_world_def)
qed

end
