(* ===== verification/Submit.thy ===== *)
theory Submit
  imports Ledger
begin

text \<open>
  Transactions of the engine (\<open>crates/execution-engine/src/main.rs\<close>): building, signing through
  the wallet service and handing to a node with retries; the allowance of the router, the
  sweep of a finished session to the investor, and the refund request for what was not sold.
  Every raw transaction handed to a node, also one whose submission is answered by an error,
  is appended to the log \<open>sent\<close> of the world.
\<close>

section \<open>Signing and submitting\<close>

text \<open>The wallet service refuses calls if it could not start with its master key.\<close>

definition kms_sign :: "env \<Rightarrow> string \<Rightarrow> byte list \<Rightarrow> (world, status, byte list \<times> string) rt" where
  "kms_sign E wallet_id tx_bytes =
     grpc E (case parse_master_key E of
       Inl e \<Rightarrow> fail (Unavailable, e)
     | Inr master \<Rightarrow> sign_transaction E master wallet_id tx_bytes)"

definition send_raw :: "env \<Rightarrow> string \<Rightarrow> sent_tx \<Rightarrow> (world, err, b256) rt" where
  "send_raw E url x =
     rbind (modify (\<lambda>s. s\<lparr>sent := sent s @ [x]\<rparr>)) (\<lambda>_.
     remote E (rpc_send_raw (node_of E) url (x_raw x)))"

definition chain_id_of :: "env \<Rightarrow> string \<Rightarrow> u64" where
  "chain_id_of E chain = chain_name_to_id (chain_entries (cfg E)) chain"

definition gas_limit_of :: "u64 \<Rightarrow> u64" where
  "gas_limit_of gas_estimate = sat_mul gas_estimate 120 div 100"

fun retry_reason :: "err retry_error \<Rightarrow> err" where
  "retry_reason (Gave_up e) = e"
| "retry_reason Unreachable = ''unreachable''"

definition prepare_tx ::
  "env \<Rightarrow> string \<Rightarrow> u64 \<Rightarrow> addr \<Rightarrow> addr \<Rightarrow> byte list \<Rightarrow> u256
     \<Rightarrow> (world, err, string \<times> tx_request \<times> byte list) rt" where
  "prepare_tx E chain chain_id sender to calldata amount =
     rbind (of_result (provider_url E chain)) (\<lambda>url.
     rbind (remote E (rpc_nonce (node_of E) url sender)) (\<lambda>nonce.
     let draft = \<lparr>tx_from = sender, tx_to = to, tx_value = amount, tx_input = calldata, tx_nonce = nonce,
           tx_chain_id = chain_id, tx_gas_limit = None, tx_gas_price = None\<rparr> in
     rbind (remote E (rpc_estimate_gas (node_of E) url draft)) (\<lambda>gas_estimate.
     rbind (remote E (rpc_gas_price (node_of E) url)) (\<lambda>gas_price.
     let unsigned_tx = draft\<lparr>tx_gas_limit := Some (gas_limit_of gas_estimate), tx_gas_price := Some gas_price\<rparr> in
     rbind (of_result (ok_or ''Failed to serialize unsigned transaction'' (tx_to_json (lib_of E) unsigned_tx))) (\<lambda>bytes.
     ret (url, unsigned_tx, bytes))))))"

definition build_sign_and_submit_tx ::
  "env \<Rightarrow> string \<Rightarrow> u64 \<Rightarrow> string \<Rightarrow> addr \<Rightarrow> addr \<Rightarrow> byte list \<Rightarrow> u256 \<Rightarrow> (world, err, string) rt" where
  "build_sign_and_submit_tx E chain chain_id wallet_id sender to calldata amount =
     rbind (prepare_tx E chain chain_id sender to calldata amount) (\<lambda>(url, unsigned_tx, bytes).
     rbind (map_err (\<lambda>e. ''KMS signing failed'' @ snd e) (kms_sign E wallet_id bytes)) (\<lambda>(raw, tx_hash).
     if raw = [] then fail ''KMS returned empty signed transaction''
     else
       rbind (map_err (\<lambda>e. ''Failed to submit transaction to RPC: '' @ retry_reason e)
                (retry E 3 (send_raw E url \<lparr>x_wallet = wallet_id, x_request = unsigned_tx, x_raw = raw\<rparr>))) (\<lambda>h.
       let submitted_hash = b256_debug (lib_of E) h in
       ret (if submitted_hash = [] then tx_hash else submitted_hash))))"

section \<open>The allowance of the router\<close>

text \<open>Polling for the receipt of the approval; every turn sleeps two seconds.\<close>

function approval_loop :: "env \<Rightarrow> string \<Rightarrow> string \<Rightarrow> b256 \<Rightarrow> nat \<Rightarrow> world \<Rightarrow> (err + unit) \<times> world" where
  "approval_loop E url tx_hash h deadline s =
     (case remote E (rpc_receipt (node_of E) url h) s of
        (Inl e, s1) \<Rightarrow> (Inl (''Failed to fetch approval receipt'' @ e), s1)
      | (Inr receipt, s1) \<Rightarrow>
          (case opt_bind receipt parse_receipt_success_from_json of
             Some True \<Rightarrow> (Inr (), s1)
           | Some False \<Rightarrow> (Inl (''Approval transaction reverted: '' @ tx_hash), s1)
           | None \<Rightarrow>
               if deadline \<le> clock s1
               then (Inl (''Timed out waiting for approval tx confirmation: '' @ tx_hash), s1)
               else approval_loop E url tx_hash h deadline (slept E 2000 s1)))"
  by pat_completeness auto
termination
  by (relation "measure (\<lambda>(E, url, x, h, deadline, s). deadline - clock s)")
    (auto simp: remote_def slept_def)

declare approval_loop.simps [simp del]

definition ensure_token_approval ::
  "env \<Rightarrow> string \<Rightarrow> string \<Rightarrow> addr \<Rightarrow> string \<Rightarrow> addr \<Rightarrow> u256 \<Rightarrow> (world, err, unit) rt" where
  "ensure_token_approval E chain wallet_id owner sell_token router amount =
     rbind (of_result (provider_url E chain)) (\<lambda>url.
     rbind (of_result (ok_or (''Invalid sell token address: '' @ sell_token)
              (addr_parse (lib_of E) sell_token))) (\<lambda>token.
     rbind (remote E (rpc_allowance (node_of E) url token owner router)) (\<lambda>current_allowance.
     if amount \<le> current_allowance then ret ()
     else
       rbind (build_sign_and_submit_tx E chain (chain_id_of E chain) wallet_id owner token
                (abi_encode (lib_of E) (Approve router u256_max)) 0) (\<lambda>tx_hash.
       rbind (of_result (ok_or (''Invalid approval tx hash: '' @ tx_hash) (b256_parse (lib_of E) tx_hash))) (\<lambda>h.
       (\<lambda>s. approval_loop E url tx_hash h (clock s + 60000) s))))))"

section \<open>After the last sale\<close>

definition sweep_native :: "env \<Rightarrow> session_info \<Rightarrow> u64 \<Rightarrow> string \<Rightarrow> addr \<Rightarrow> addr \<Rightarrow> (world, err, unit) rt" where
  "sweep_native E session chain_id url sender investor =
     rbind (remote E (rpc_native_balance (node_of E) url sender)) (\<lambda>balance.
     if balance = 0 then ret ()
     else
       rbind (remote E (rpc_gas_price (node_of E) url)) (\<lambda>gas_price.
       let gas_cost = 21000 * ucast (sat_mul gas_price 2); send_amount = sat_sub balance gas_cost in
       if send_amount = 0 then ret ()
       else
         rbind (build_sign_and_submit_tx E (si_chain session) chain_id (si_wallet session) sender investor [] send_amount)
           (\<lambda>_. ret ())))"

definition sweep_token :: "env \<Rightarrow> session_info \<Rightarrow> u64 \<Rightarrow> string \<Rightarrow> addr \<Rightarrow> addr \<Rightarrow> (world, err, unit) rt" where
  "sweep_token E session chain_id url sender investor =
     rbind (of_result (ok_or (''Invalid target token address: '' @ si_target_token session)
              (addr_parse (lib_of E) (si_target_token session)))) (\<lambda>token.
     rbind (remote E (rpc_balance_of (node_of E) url token sender)) (\<lambda>balance.
     if balance = 0 then ret ()
     else
       rbind (build_sign_and_submit_tx E (si_chain session) chain_id (si_wallet session) sender token
                (abi_encode (lib_of E) (Transfer investor balance)) 0) (\<lambda>_. ret ())))"

definition sweep_to_investor :: "env \<Rightarrow> session_info \<Rightarrow> string \<Rightarrow> (world, err, unit) rt" where
  "sweep_to_investor E session investor_addr =
     rbind (of_result (ok_or (''Invalid investor wallet address: '' @ investor_addr)
              (addr_parse (lib_of E) investor_addr))) (\<lambda>investor.
     rbind (resolve_session_wallet_address E (si_wallet session) (si_chain session)) (\<lambda>sender.
     rbind (of_result (ok_or (''Missing chain config for '' @ si_chain session)
              (enabled_chain (cfg E) (si_chain session)))) (\<lambda>c.
     rbind (of_result (provider_url E (si_chain session))) (\<lambda>url.
     if is_native_placeholder_address (si_target_token session)
     then sweep_native E session (cc_chain_id c) url sender investor
     else sweep_token E session (cc_chain_id c) url sender investor))))"

text \<open>The insertion does nothing on a conflict; users and wallets are foreign keys.\<close>

definition insert_refund :: "refund_row \<Rightarrow> world \<Rightarrow> (err + unit) \<times> world" where
  "insert_refund r s =
     (if list_ex (\<lambda>q. r_id q = r_id r) (refunds s) then (Inr (), s)
      else if \<not> list_ex (\<lambda>u. u_id u = r_user r) (users s) \<or> \<not> list_ex (\<lambda>w. w_id w = r_wallet r) (wallets s)
      then (Inl ''violates foreign key constraint'', s)
      else (Inr (), s\<lparr>refunds := refunds s @ [r]\<rparr>))"

definition session_wallet :: "env \<Rightarrow> string \<Rightarrow> world \<Rightarrow> (err + wallet_row option) \<times> world" where
  "session_wallet E session_id s =
     (case uuid_parse (lib_of E) session_id of
        None \<Rightarrow> (Inl ''invalid input syntax for type uuid'', s)
      | Some i \<Rightarrow> (Inr (opt_bind (find (\<lambda>r. s_id r = i) (sessions s))
                        (\<lambda>r. find (\<lambda>w. w_id w = s_wallet r) (wallets s))), s))"

text \<open>The body up to the first early return; the caller discards the outcome.\<close>

definition excess_refund :: "env \<Rightarrow> session_info \<Rightarrow> (world, err, unit) rt" where
  "excess_refund E session =
     rbind (resolve_session_wallet_address E (si_wallet session) (si_chain session)) (\<lambda>sender.
     rbind (of_result (provider_url E (si_chain session))) (\<lambda>url.
     rbind (of_result (ok_or [] (addr_parse (lib_of E) (si_sell_token session)))) (\<lambda>token.
     rbind (remote E (rpc_balance_of (node_of E) url token sender)) (\<lambda>remaining_balance.
     if remaining_balance = 0 then ret ()
     else
       rbind (sql E (session_wallet E (si_id session))) (\<lambda>row.
       case row of
         None \<Rightarrow> ret ()
       | Some w \<Rightarrow>
           rbind (fresh E) (\<lambda>refund_id.
           rbind (now E) (\<lambda>tm.
           rbind (attempt (sql E (insert_refund
             \<lparr>r_id = refund_id, r_user = w_user w, r_wallet = w_id w,
              r_amount = u256_show (lib_of E) remaining_balance, r_token = si_sell_token session,
              r_symbol = si_sell_symbol session, r_status = ''pending'', r_note = None,
              r_amount_usd = None, r_destination = None, r_vtoken = None, r_vexpires = None,
              r_verified = False, r_created = tm, r_updated = tm\<rparr>) :: (world, err, unit) rt))
             (\<lambda>_. ret ()))))))))"

definition check_and_create_excess_refund :: "env \<Rightarrow> session_info \<Rightarrow> (world, 'e, unit) rt" where
  "check_and_create_excess_refund E session =
     rbind (attempt (excess_refund E session)) (\<lambda>_. ret ())"

section \<open>What is sent\<close>

text \<open>A computation only appends to the log of transactions, and only such as satisfy \<open>P\<close>.\<close>

definition sends :: "(sent_tx \<Rightarrow> bool) \<Rightarrow> world \<Rightarrow> world \<Rightarrow> bool" where
  "sends P s t \<longleftrightarrow> (\<exists>xs. sent t = sent s @ xs \<and> list_all P xs)"

lemma sends_same: "sent t = sent s \<Longrightarrow> sends P s t"
  by (auto simp: sends_def intro: exI [of _ "[]"])

lemma sends_trans: "sends P s t \<Longrightarrow> sends P t u \<Longrightarrow> sends P s u"
  unfolding sends_def by (metis append.assoc list_all_append)

interpretation snt: world_rel "sends P" for P
  by unfold_locales (auto intro: sends_same sends_trans)

text \<open>A request of the shape that \<open>build_sign_and_submit_tx\<close> fills in.\<close>

definition asks_for :: "addr \<Rightarrow> addr \<Rightarrow> byte list \<Rightarrow> u256 \<Rightarrow> u64 \<Rightarrow> tx_request \<Rightarrow> bool" where
  "asks_for sender to calldata amount chain_id tx \<longleftrightarrow>
     tx_from tx = sender \<and> tx_to tx = to \<and> tx_input tx = calldata \<and> tx_value tx = amount \<and>
     tx_chain_id tx = chain_id"

definition requests :: "string \<Rightarrow> addr \<Rightarrow> addr \<Rightarrow> byte list \<Rightarrow> u256 \<Rightarrow> u64 \<Rightarrow> sent_tx \<Rightarrow> bool" where
  "requests wallet_id sender to calldata amount chain_id x \<longleftrightarrow>
     x_wallet x = wallet_id \<and> asks_for sender to calldata amount chain_id (x_request x) \<and> x_raw x \<noteq> []"

lemma prepare_tx_yields:
  "yields (\<lambda>(url, tx, bytes). asks_for sender to calldata amount chain_id tx \<and>
       tx_to_json (lib_of E) tx = Some bytes)
     (prepare_tx E chain chain_id sender to calldata amount)"
  by (auto simp: yields_def prepare_tx_def Let_def run_iffs asks_for_def)

lemma approval_loop_stops:
  assumes "remote E (rpc_receipt (node_of E) url h) s = (x, s1)"
    and "approval_loop E url tx h deadline s = (r, t)"
    and "\<not> (\<exists>receipt. x = Inr receipt \<and> opt_bind receipt parse_receipt_success_from_json = None \<and>
      \<not> deadline \<le> clock s1)"
  shows "t = s1 \<and> (r = Inr () \<longrightarrow> (\<exists>receipt. x = Inr (Some receipt) \<and> parse_receipt_success_from_json receipt = Some True))"
proof (cases x)
  case (Inl e)
  with assms show ?thesis by (auto simp: approval_loop.simps [of E url tx h deadline s])
next
  case (Inr receipt)
  show ?thesis
  proof (cases "opt_bind receipt parse_receipt_success_from_json")
    case None
    with assms Inr have "deadline \<le> clock s1" by simp
    with assms(1,2) Inr None show ?thesis by (auto simp: approval_loop.simps [of E url tx h deadline s])
  next
    case (Some b)
    with assms(1,2) Inr show ?thesis
      by (cases b) (auto simp: approval_loop.simps [of E url tx h deadline s])
  qed
qed

context world_rel begin

lemma keeps_kms_sign: "keeps R (kms_sign E w tx)"
  unfolding kms_sign_def
  by (intro keeps_grpc) (auto intro: keeps_sign_transaction keeps_fail split: sum.split)

lemma keeps_approval_loop: "approval_loop E url tx h deadline s = (r, t) \<Longrightarrow> R s t"
proof (induction E url tx h deadline s arbitrary: r t rule: approval_loop.induct)
  case (1 E url tx h deadline s)
  obtain x s1 where rcpt: "remote E (rpc_receipt (node_of E) url h) s = (x, s1)"
    by (cases "remote E (rpc_receipt (node_of E) url h) s")
  have s1: "R s s1" by (rule keepsD [OF keeps_remote rcpt])
  show ?case
  proof (cases "\<exists>receipt. x = Inr receipt \<and> opt_bind receipt parse_receipt_success_from_json = None \<and>
      \<not> deadline \<le> clock s1")
    case True
    then obtain receipt where x: "x = Inr receipt" "opt_bind receipt parse_receipt_success_from_json = None"
      "\<not> deadline \<le> clock s1" by blast
    have run: "approval_loop E url tx h deadline (slept E 2000 s1) = (r, t)"
      using "1.prems" rcpt x by (simp add: approval_loop.simps [of E url tx h deadline s])
    have "R (slept E 2000 s1) t"
      by (rule "1.IH" [OF rcpt [symmetric] x(1) x(2) x(3) run])
    moreover have "R s1 (slept E 2000 s1)"
      using keepsD [OF keeps_sleep, of E 2000 s1 "Inr ()"] by (simp add: sleep_ms_def)
    ultimately show ?thesis using s1 rel_trans by blast
  next
    case False
    then have "t = s1"
      using "1.prems" rcpt approval_loop_stops [of E url h s x s1 tx deadline r t] by blast
    with s1 show ?thesis by simp
  qed
qed

lemma keeps_prepare: "keeps R (prepare_tx E chain chain_id sender to calldata amount)"
  unfolding prepare_tx_def Let_def by (intro keeps_world)

lemma keeps_build:
  assumes "\<And>s x. requests wallet_id sender to calldata amount chain_id x \<Longrightarrow> R s (s\<lparr>sent := sent s @ [x]\<rparr>)"
  shows "keeps R (build_sign_and_submit_tx E chain chain_id wallet_id sender to calldata amount)"
proof -
  have "keeps R (retry E 3 (send_raw E url x))"
    if "requests wallet_id sender to calldata amount chain_id x" for url x
    unfolding send_raw_def using assms that
    by (intro keeps_retry keeps_rbind keeps_modify keeps_remote)
  then show ?thesis
    unfolding build_sign_and_submit_tx_def Let_def
    by (intro keeps_rbind_yields [OF keeps_prepare prepare_tx_yields] keeps_kms_sign keeps_world)
      (auto simp: requests_def)
qed

end

lemma sends_snoc: "P x \<Longrightarrow> sends P s (s\<lparr>sent := sent s @ [x]\<rparr>)"
  by (auto simp: sends_def)

lemma sends_build:
  assumes "\<And>x. requests wallet_id sender to calldata amount chain_id x \<Longrightarrow> P x"
  shows "keeps (sends P) (build_sign_and_submit_tx E chain chain_id wallet_id sender to calldata amount)"
  using assms by (intro snt.keeps_build sends_snoc)

lemma tables_build: "keeps same_tables (build_sign_and_submit_tx E chain chain_id wallet_id sender to calldata amount)"
  by (rule tab.keeps_build) (simp add: same_tables_def)

lemma trades_build: "keeps ledger_step (build_sign_and_submit_tx E chain chain_id wallet_id sender to calldata amount)"
  by (rule led.keeps_build) (simp add: ledger_step_same)

text \<open>The retries hand the same signed transaction to the node, at most \<open>k\<close> times.\<close>

lemma retry_sends:
  "0 < k \<Longrightarrow> retry_loop E k d (send_raw E url x) s = (r, t) \<Longrightarrow>
    \<exists>j. 1 \<le> j \<and> j \<le> k \<and> sent t = sent s @ replicate j x \<and> (isl r \<longrightarrow> j = k)"
proof (induction k arbitrary: d s)
  case (Suc k)
  obtain y u where one: "send_raw E url x s = (y, u)" by (cases "send_raw E url x s")
  have u: "sent u = sent s @ [x]"
    using one by (auto simp: send_raw_def remote_def rbind_def modify_def)
  consider (Again) e where "y = Inl e" "0 < k" | (Last) e where "y = Inl e" "k = 0" | (Ok) v where "y = Inr v"
    by (cases y) auto
  then show ?case
  proof cases
    case Again
    then have "retry_loop E k (min (2 * d) 10000) (send_raw E url x) (slept E d u) = (r, t)"
      using Suc.prems(2) one by (simp add: retry_loop_step)
    from Suc.IH [OF Again(2) this] obtain j where
      j: "1 \<le> j" "j \<le> k" "sent t = sent (slept E d u) @ replicate j x" "isl r \<longrightarrow> j = k" by blast
    have "sent t = sent s @ replicate (Suc j) x" using j(3) u by (simp add: slept_def)
    with j show ?thesis by (intro exI [of _ "Suc j"]) simp
  next
    case Last
    then have "t = u" using Suc.prems(2) one by (simp add: retry_loop_step)
    then show ?thesis using u Last by (intro exI [of _ 1]) simp
  next
    case Ok
    then have "t = u" "\<not> isl r" using Suc.prems(2) one by (auto simp: retry_loop_step)
    then show ?thesis using u by (intro exI [of _ 1]) simp
  qed
qed simp

lemma send_raw_run:
  "send_raw E url x s = (rpc_send_raw (node_of E) url (x_raw x) (calls s),
     s\<lparr>sent := sent s @ [x], calls := Suc (calls s), clock := clock s + elapsed_ms E (calls s)\<rparr>)"
  by (simp add: send_raw_def remote_def rbind_def modify_def split: sum.split)

text \<open>Retries that fail have seen an error each time, and the last one is reported.\<close>

lemma retry_errors:
  "0 < k \<Longrightarrow> retry_loop E k d (send_raw E url x) s = (Inl e, t) \<Longrightarrow>
    \<exists>ns es. length ns = k \<and> sorted_wrt (<) ns \<and> (\<forall>n \<in> set ns. calls s \<le> n) \<and>
      map (rpc_send_raw (node_of E) url (x_raw x)) ns = map Inl es \<and> e = Gave_up (last es) \<and>
      sent t = sent s @ replicate k x"
proof (induction k arbitrary: d s)
  case (Suc k)
  note run = send_raw_run [of E url x s]
  obtain e1 where one: "rpc_send_raw (node_of E) url (x_raw x) (calls s) = Inl e1"
    using Suc.prems(2) by (cases "rpc_send_raw (node_of E) url (x_raw x) (calls s)") (auto simp: retry_loop_step run)
  show ?case
  proof (cases "k = 0")
    case True
    then show ?thesis
      using Suc.prems(2) one by (intro exI [of _ "[calls s]"] exI [of _ "[e1]"]) (auto simp: retry_loop_step run)
  next
    case False
    let ?u = "slept E d (s\<lparr>sent := sent s @ [x], calls := Suc (calls s), clock := clock s + elapsed_ms E (calls s)\<rparr>)"
    have "retry_loop E k (min (2 * d) 10000) (send_raw E url x) ?u = (Inl e, t)"
      using Suc.prems(2) one False by (simp add: retry_loop_step run)
    from Suc.IH [OF _ this] False obtain ns es where ns: "length ns = k" "sorted_wrt (<) ns"
      "\<forall>n \<in> set ns. calls ?u \<le> n" "map (rpc_send_raw (node_of E) url (x_raw x)) ns = map Inl es"
      "e = Gave_up (last es)" "sent t = sent ?u @ replicate k x"
      by auto
    have "length es = k" using ns(1,4) by (metis length_map)
    then show ?thesis
      using ns one False by (intro exI [of _ "calls s # ns"] exI [of _ "e1 # es"]) (fastforce simp: slept_def)
  qed
qed simp

lemma retry_answer:
  "retry_loop E k d (send_raw E url x) s = (Inr h, t) \<Longrightarrow> \<exists>n. rpc_send_raw (node_of E) url (x_raw x) n = Inr h"
proof (induction k arbitrary: d s)
  case (Suc k)
  then show ?case
    by (cases "rpc_send_raw (node_of E) url (x_raw x) (calls s)")
      (auto simp: retry_loop_step send_raw_run [of E url x s] split: if_splits)
qed simp

lemma map_err_isl: "map_err g m s = (r, t) \<Longrightarrow> \<exists>q. m s = (q, t) \<and> isl q = isl r"
  by (cases "m s"; cases "fst (m s)") (auto simp: map_err_def)

definition json_law :: "lib \<Rightarrow> bool" where
  "json_law L \<longleftrightarrow> (\<forall>x bytes. tx_to_json L x = Some bytes \<longrightarrow> tx_of_json L bytes = Some x)"

lemma kms_sign_ok:
  assumes "kms_sign E wallet_id bytes s = (Inr (raw, hash), t)"
    and "parse_master_key E = Inr master" "vault_ok E master s"
  obtains w key tx h where "w \<in> set (wallets s)" "uuid_parse (lib_of E) wallet_id = Some (w_id w)"
    "w_address w = addr_debug (lib_of E) (key_addr (lib_of E) key)"
    "tx_of_json (lib_of E) bytes = Some tx" "sign_tx (lib_of E) key tx = Some (raw, h)"
proof -
  let ?s = "s\<lparr>calls := Suc (calls s)\<rparr>"
  have "sign_transaction E master wallet_id bytes ?s = (Inr (raw, hash), t)"
    using assms(1,2) by (auto simp: kms_sign_def grpc_def split: option.splits)
  then obtain i w key tx h where i: "uuid_parse (lib_of E) wallet_id = Some i"
    and w: "wallet_by_id i (?s\<lparr>calls := Suc (calls ?s)\<rparr>) = Some w"
    and key: "decrypt_key E master (w_key w) (w_nonce w) = Inr key"
    and tx: "tx_of_json (lib_of E) bytes = Some tx" "sign_tx (lib_of E) key tx = Some (raw, h)"
    by (auto simp: sign_transaction_def run_iffs Let_def split: if_splits)
  have w': "w \<in> set (wallets s)" "w_id w = i"
    using w by (auto simp: wallet_by_id_def dest: find_Some_in)
  then obtain k where "holds_key E master w k" using assms(3) by (auto simp: vault_ok_def)
  then have "w_address w = addr_debug (lib_of E) (key_addr (lib_of E) key)"
    using key by (simp add: holds_key_def)
  with w' i tx that show thesis by blast
qed

text \<open>A computation that only asks: tables, log of transactions and messages stay.\<close>

definition asks :: "world \<Rightarrow> world \<Rightarrow> bool" where
  "asks s t \<longleftrightarrow> same_tables s t \<and> sent t = sent s"

interpretation qry: world_rel asks
  by unfold_locales (auto simp: asks_def same_tables_def)

lemma vault_same: "same_tables s t \<Longrightarrow> vault_ok E master t = vault_ok E master s"
  by (simp add: vault_ok_def same_tables_def)

text \<open>The answer of a submission for the outcome of the retries.\<close>

definition submission_answer :: "lib \<Rightarrow> string \<Rightarrow> err retry_error + b256 \<Rightarrow> err + string" where
  "submission_answer L tx_hash q =
     (case q of
        Inl e \<Rightarrow> Inl (''Failed to submit transaction to RPC: '' @ retry_reason e)
      | Inr h \<Rightarrow> Inr (if b256_debug L h = [] then tx_hash else b256_debug L h))"

lemma prepare_url: "prepare_tx E chain chain_id sender to calldata amount s = (Inr (url, tx, bytes), t) \<Longrightarrow> provider_url E chain = Inr url"
  by (auto simp: prepare_tx_def run_iffs Let_def)

text \<open>A submission only asks until the transaction is signed, and then hands it over.\<close>

lemma build_split:
  assumes "build_sign_and_submit_tx E chain chain_id wallet_id sender to calldata amount s = (r, t)"
  shows "(isl r \<and> asks s t) \<or>
    (\<exists>x url s1 bytes tx_hash s2 q. asks s s1 \<and> asks s s2 \<and>
       requests wallet_id sender to calldata amount chain_id x \<and>
       tx_to_json (lib_of E) (x_request x) = Some bytes \<and>
       kms_sign E wallet_id bytes s1 = (Inr (x_raw x, tx_hash), s2) \<and>
       retry E 3 (send_raw E url x) s2 = (q, t) \<and> isl q = isl r \<and>
       provider_url E chain = Inr url \<and> r = submission_answer (lib_of E) tx_hash q)"
proof -
  obtain p s1 where prep: "prepare_tx E chain chain_id sender to calldata amount s = (p, s1)"
    by (cases "prepare_tx E chain chain_id sender to calldata amount s")
  have s1: "asks s s1" by (rule keepsD [OF qry.keeps_prepare prep])
  show ?thesis
  proof (cases p)
    case (Inl e)
    then have "isl r \<and> t = s1" using assms prep by (auto simp: build_sign_and_submit_tx_def rbind_def)
    with s1 show ?thesis by simp
  next
    case (Inr a)
    obtain url tx bytes where a: "a = (url, tx, bytes)" by (cases a)
    obtain q s2 where sign: "kms_sign E wallet_id bytes s1 = (q, s2)" by (cases "kms_sign E wallet_id bytes s1")
    have s2: "asks s s2" using s1 keepsD [OF qry.keeps_kms_sign sign] by (rule qry.rel_trans)
    show ?thesis
    proof (cases "\<exists>raw h. q = Inr (raw, h) \<and> raw \<noteq> []")
      case False
      then show ?thesis
        using assms prep Inr a sign s2
        by (cases q) (auto simp: build_sign_and_submit_tx_def rbind_def map_err_def fail_def split: if_splits)
    next
      case True
      then obtain raw h where q: "q = Inr (raw, h)" "raw \<noteq> []" by blast
      let ?x = "\<lparr>x_wallet = wallet_id, x_request = tx, x_raw = raw\<rparr>"
      obtain v w where send: "retry E 3 (send_raw E url ?x) s2 = (v, w)" by (cases "retry E 3 (send_raw E url ?x) s2")
      have "w = t \<and> r = submission_answer (lib_of E) h v"
        using assms prep Inr a sign q send
        by (cases v; auto simp: build_sign_and_submit_tx_def rbind_def map_err_def Let_def ret_def submission_answer_def)
      then have "w = t" "r = submission_answer (lib_of E) h v" "isl v = isl r"
        by (auto simp: submission_answer_def split: sum.splits)
      moreover have "provider_url E chain = Inr url" using prepare_url prep [unfolded Inr a] by blast
      moreover have "asks_for sender to calldata amount chain_id tx" "tx_to_json (lib_of E) tx = Some bytes"
        using yieldsD [OF prepare_tx_yields prep [unfolded Inr a]] by auto
      ultimately show ?thesis
        using s1 s2 sign q send
        by (intro disjI2 exI [of _ ?x] exI [of _ url] exI [of _ s1] exI [of _ bytes] exI [of _ h]
            exI [of _ s2] exI [of _ v]) (simp add: requests_def)
    qed
  qed
qed

section \<open>Properties\<close>

text \<open>C28: A submission that succeeds has handed to the node one transaction, at most three times
  over: it is the transaction asked for (recipient, value, calldata, chain), its raw bytes are
  non-empty and signed with the key of the address of the named wallet, and no table changed.\<close>

theorem submission_sound:
  assumes "parse_master_key E = Inr master" "vault_ok E master s" "json_law (lib_of E)"
    and "build_sign_and_submit_tx E chain chain_id wallet_id sender to calldata amount s = (Inr h, t)"
  shows "same_tables s t \<and>
     (\<exists>x j w key hash. 1 \<le> j \<and> j \<le> 3 \<and> sent t = sent s @ replicate j x \<and>
        requests wallet_id sender to calldata amount chain_id x \<and>
        w \<in> set (wallets s) \<and> uuid_parse (lib_of E) wallet_id = Some (w_id w) \<and>
        w_address w = addr_debug (lib_of E) (key_addr (lib_of E) key) \<and>
        sign_tx (lib_of E) key (x_request x) = Some (x_raw x, hash))"
proof -
  obtain x url s1 bytes tx_hash s2 q where s1: "asks s s1" and s2: "asks s s2"
    and x: "requests wallet_id sender to calldata amount chain_id x"
    and json: "tx_to_json (lib_of E) (x_request x) = Some bytes"
    and sign: "kms_sign E wallet_id bytes s1 = (Inr (x_raw x, tx_hash), s2)"
    and send: "retry E 3 (send_raw E url x) s2 = (q, t)"
    using build_split [OF assms(4)] by auto
  have v: "vault_ok E master s1" using s1 assms(2) vault_same by (auto simp: asks_def)
  obtain w key tx hash where w: "w \<in> set (wallets s1)" "uuid_parse (lib_of E) wallet_id = Some (w_id w)"
    "w_address w = addr_debug (lib_of E) (key_addr (lib_of E) key)"
    and tx: "tx_of_json (lib_of E) bytes = Some tx" "sign_tx (lib_of E) key tx = Some (x_raw x, hash)"
    using kms_sign_ok [OF sign assms(1) v] by metis
  have "tx = x_request x" using tx(1) json assms(3) by (simp add: json_law_def)
  moreover obtain j where "1 \<le> j" "j \<le> 3" "sent t = sent s2 @ replicate j x"
    using retry_sends [OF _ send [unfolded retry_def]] by auto
  moreover have "same_tables s t" using keepsD [OF tables_build assms(4)] .
  moreover have "sent s2 = sent s" "wallets s1 = wallets s" using s1 s2 by (auto simp: asks_def same_tables_def)
  ultimately show ?thesis using w tx x by auto
qed

text \<open>C29: A submission that fails has either handed nothing to the node, or the same transaction
  in three successive calls, each answered by an error of the node, the last of which the
  caller is told: so also when the node had accepted an earlier copy whose answer was lost, and refuses the next as
  already known, the caller is told of a failure.  No table changes.\<close>

theorem failed_submission:
  assumes "build_sign_and_submit_tx E chain chain_id wallet_id sender to calldata amount s = (Inl e, t)"
  shows "same_tables s t \<and> (sent t = sent s \<or>
     (\<exists>x url n1 n2 n3 e1 e2 e3. requests wallet_id sender to calldata amount chain_id x \<and> sent t = sent s @ [x, x, x] \<and>
        provider_url E chain = Inr url \<and> n1 < n2 \<and> n2 < n3 \<and>
        rpc_send_raw (node_of E) url (x_raw x) n1 = Inl e1 \<and> rpc_send_raw (node_of E) url (x_raw x) n2 = Inl e2 \<and>
        rpc_send_raw (node_of E) url (x_raw x) n3 = Inl e3 \<and>
        e = ''Failed to submit transaction to RPC: '' @ e3))"
proof
  show "same_tables s t" by (rule keepsD [OF tables_build assms])
  consider "asks s t" | x url tx_hash s2 q where "asks s s2" "requests wallet_id sender to calldata amount chain_id x"
      "retry E 3 (send_raw E url x) s2 = (q, t)" "provider_url E chain = Inr url"
      "Inl e = submission_answer (lib_of E) tx_hash q"
    using build_split [OF assms] by blast
  then show "sent t = sent s \<or>
     (\<exists>x url n1 n2 n3 e1 e2 e3. requests wallet_id sender to calldata amount chain_id x \<and> sent t = sent s @ [x, x, x] \<and>
        provider_url E chain = Inr url \<and> n1 < n2 \<and> n2 < n3 \<and>
        rpc_send_raw (node_of E) url (x_raw x) n1 = Inl e1 \<and> rpc_send_raw (node_of E) url (x_raw x) n2 = Inl e2 \<and>
        rpc_send_raw (node_of E) url (x_raw x) n3 = Inl e3 \<and>
        e = ''Failed to submit transaction to RPC: '' @ e3)"
  proof cases
    case 1
    then show ?thesis by (simp add: asks_def)
  next
    case (2 x url tx_hash s2 q)
    obtain f where f: "q = Inl f" "e = ''Failed to submit transaction to RPC: '' @ retry_reason f"
      using 2(5) by (auto simp: submission_answer_def split: sum.splits)
    obtain ns es where ns: "length ns = 3" "sorted_wrt (<) ns"
      "map (rpc_send_raw (node_of E) url (x_raw x)) ns = map Inl es" "f = Gave_up (last es)" "sent t = sent s2 @ replicate 3 x"
      using retry_errors [OF _ 2(3) [unfolded retry_def f]] by auto
    obtain n1 n2 n3 where n: "ns = [n1, n2, n3]" using ns(1) by (auto simp: numeral_3_eq_3 length_Suc_conv)
    then obtain e1 e2 e3 where es: "es = [e1, e2, e3]" using ns(3) by (auto simp: Cons_eq_map_conv)
    have "e = ''Failed to submit transaction to RPC: '' @ e3" using f(2) ns(4) es by simp
    moreover have "sent t = sent s @ [x, x, x]" using ns(5) 2(1) by (simp add: asks_def numeral_3_eq_3)
    moreover have "n1 < n2" "n2 < n3" using ns(2) n by auto
    moreover have "rpc_send_raw (node_of E) url (x_raw x) n1 = Inl e1" "rpc_send_raw (node_of E) url (x_raw x) n2 = Inl e2"
      "rpc_send_raw (node_of E) url (x_raw x) n3 = Inl e3" using ns(3) n es by simp_all
    ultimately show ?thesis using 2(2,4) by blast
  qed
qed

lemma sends_resolve: "keeps (sends P) (resolve_session_wallet_address E w chain)"
  by (rule snt.keeps_resolve)

lemma approval_receipt:
  "approval_loop E url tx h deadline s = (Inr (), t) \<Longrightarrow>
     \<exists>n receipt. rpc_receipt (node_of E) url h n = Inr (Some receipt) \<and>
       parse_receipt_success_from_json receipt = Some True"
proof (induction E url tx h deadline s arbitrary: t rule: approval_loop.induct)
  case (1 E url tx h deadline s)
  obtain x s1 where rcpt: "remote E (rpc_receipt (node_of E) url h) s = (x, s1)"
    by (cases "remote E (rpc_receipt (node_of E) url h) s")
  show ?case
  proof (cases "\<exists>receipt. x = Inr receipt \<and> opt_bind receipt parse_receipt_success_from_json = None \<and>
      \<not> deadline \<le> clock s1")
    case True
    then obtain receipt where x: "x = Inr receipt" "opt_bind receipt parse_receipt_success_from_json = None"
      "\<not> deadline \<le> clock s1" by blast
    have "approval_loop E url tx h deadline (slept E 2000 s1) = (Inr (), t)"
      using "1.prems" rcpt x by (simp add: approval_loop.simps [of E url tx h deadline s])
    from "1.IH" [OF rcpt [symmetric] x(1) x(2) x(3) this] show ?thesis .
  next
    case False
    from approval_loop_stops [OF rcpt "1.prems" False] rcpt show ?thesis
      by (auto simp: remote_def)
  qed
qed

context world_rel begin

lemma keeps_ensure_approval:
  assumes "\<And>token s x. addr_parse (lib_of E) sell_token = Some token \<Longrightarrow>
      requests wallet_id owner token (abi_encode (lib_of E) (Approve router u256_max)) 0 (chain_id_of E chain) x \<Longrightarrow>
      R s (s\<lparr>sent := sent s @ [x]\<rparr>)"
  shows "keeps R (ensure_token_approval E chain wallet_id owner sell_token router amount)"
proof -
  have loop: "keeps R (\<lambda>s. approval_loop E url tx h (clock s + 60000) s)" for url tx h
    unfolding keeps_def using keeps_approval_loop by blast
  have tok: "yields (\<lambda>token. addr_parse (lib_of E) sell_token = Some token)
      (of_result (ok_or e (addr_parse (lib_of E) sell_token)) :: (world, err, addr) rt)" for e
    by (auto simp: yields_def)
  show ?thesis
    unfolding ensure_token_approval_def
    by (intro keeps_rbind [OF keeps_of_result, of _ "provider_url E chain"] keeps_rbind_yields [OF keeps_of_result tok]
        keeps_build loop keeps_world assms)
qed

end

text \<open>C30: The router is approved before it spends: the check succeeds only if the node reports an
  allowance that covers the amount, and then nothing is sent, or if one approval of the
  maximal amount, from the owner to the token and naming the router, was handed to the node, at most three times over,
  accepted, and the transaction of the hash that the node answered to it has a successful
  receipt.  Nothing else is ever sent, whether the check succeeds or not.\<close>

theorem approval_sound:
  assumes "ensure_token_approval E chain wallet_id owner sell_token router amount s = (r, t)"
    and "addr_parse (lib_of E) sell_token = Some token"
  shows "sends (requests wallet_id owner token (abi_encode (lib_of E) (Approve router u256_max)) 0
           (chain_id_of E chain)) s t \<and>
     (r = Inr () \<longrightarrow>
       (\<exists>url n a. provider_url E chain = Inr url \<and> rpc_allowance (node_of E) url token owner router n = Inr a \<and>
          (if amount \<le> a then sent t = sent s
           else \<exists>x j k h0 tx_hash h m receipt. 1 \<le> j \<and> j \<le> 3 \<and> sent t = sent s @ replicate j x \<and>
             requests wallet_id owner token (abi_encode (lib_of E) (Approve router u256_max)) 0 (chain_id_of E chain) x \<and>
             rpc_send_raw (node_of E) url (x_raw x) k = Inr h0 \<and>
             b256_parse (lib_of E) (if b256_debug (lib_of E) h0 = [] then tx_hash else b256_debug (lib_of E) h0) = Some h \<and>
             rpc_receipt (node_of E) url h m = Inr (Some receipt) \<and>
             parse_receipt_success_from_json receipt = Some True)))"
proof (intro conjI impI)
  let ?P = "requests wallet_id owner token (abi_encode (lib_of E) (Approve router u256_max)) 0 (chain_id_of E chain)"
  have "keeps (sends ?P) (ensure_token_approval E chain wallet_id owner sell_token router amount)"
    using assms(2) by (intro snt.keeps_ensure_approval sends_snoc) simp
  from keepsD [OF this assms(1)] show "sends ?P s t" .
  let ?build = "build_sign_and_submit_tx E chain (chain_id_of E chain) wallet_id owner token
                (abi_encode (lib_of E) (Approve router u256_max)) 0"
  assume "r = Inr ()"
  then obtain url a s1 where url: "provider_url E chain = Inr url"
    and allow: "remote E (rpc_allowance (node_of E) url token owner router) s = (Inr a, s1)"
    and rest: "(if amount \<le> a then ret () else rbind ?build (\<lambda>tx_hash.
       rbind (of_result (ok_or (''Invalid approval tx hash: '' @ tx_hash) (b256_parse (lib_of E) tx_hash))) (\<lambda>h.
       (\<lambda>s. approval_loop E url tx_hash h (clock s + 60000) s)))) s1 = (Inr (), t)"
    using assms unfolding ensure_token_approval_def rbind_Inr_iff by (auto simp: rbind_Inr_iff)
  have a: "rpc_allowance (node_of E) url token owner router (calls s) = Inr a" "sent s1 = sent s"
    using allow by (auto simp: remote_def)
  show "(\<exists>url n a. provider_url E chain = Inr url \<and> rpc_allowance (node_of E) url token owner router n = Inr a \<and>
          (if amount \<le> a then sent t = sent s
           else \<exists>x j k h0 tx_hash h m receipt. 1 \<le> j \<and> j \<le> 3 \<and> sent t = sent s @ replicate j x \<and>
             requests wallet_id owner token (abi_encode (lib_of E) (Approve router u256_max)) 0 (chain_id_of E chain) x \<and>
             rpc_send_raw (node_of E) url (x_raw x) k = Inr h0 \<and>
             b256_parse (lib_of E) (if b256_debug (lib_of E) h0 = [] then tx_hash else b256_debug (lib_of E) h0) = Some h \<and>
             rpc_receipt (node_of E) url h m = Inr (Some receipt) \<and>
             parse_receipt_success_from_json receipt = Some True))"
  proof (cases "amount \<le> a")
    case True
    then have "sent t = sent s" using a(2) rest by simp
    with True a(1) url show ?thesis by (intro exI [of _ url] exI [of _ "calls s"] exI [of _ a]) simp
  next
    case False
    then obtain shown h u where run: "?build s1 = (Inr shown, u)" and h: "b256_parse (lib_of E) shown = Some h"
      and loop: "approval_loop E url shown h (clock u + 60000) u = (Inr (), t)"
      using rest by (auto simp: rbind_Inr_iff)
    obtain x s2 tx_hash q where x: "asks s1 s2" "?P x" "retry E 3 (send_raw E url x) s2 = (q, u)"
        "Inr shown = submission_answer (lib_of E) tx_hash q"
      using build_split [OF run] url by auto
    obtain h0 where h0: "q = Inr h0" "shown = (if b256_debug (lib_of E) h0 = [] then tx_hash else b256_debug (lib_of E) h0)"
      using x(4) by (auto simp: submission_answer_def split: sum.splits)
    obtain k where k: "rpc_send_raw (node_of E) url (x_raw x) k = Inr h0"
      using retry_answer x(3) unfolding h0(1) retry_def by blast
    obtain j where j: "1 \<le> j" "j \<le> 3" "sent u = sent s2 @ replicate j x"
      using retry_sends [OF _ x(3) [unfolded retry_def]] by auto
    have "asks u t" using qry.keeps_approval_loop [OF loop] .
    then have "sent t = sent s @ replicate j x" using j(3) x(1) a(2) by (simp add: asks_def)
    moreover obtain m receipt where "rpc_receipt (node_of E) url h m = Inr (Some receipt)"
        "parse_receipt_success_from_json receipt = Some True"
      using approval_receipt [OF loop] by blast
    ultimately show ?thesis
      using a(1) url False j(1,2) x(2) k h [unfolded h0(2)]
      by (intro exI [of _ url] exI [of _ "calls s"] exI [of _ a] conjI if_False [THEN iffD2])
        (simp_all only: if_False refl simp_thms, intro exI conjI, (assumption | rule refl)+)
  qed
qed

subsection \<open>The sweep\<close>

definition sweeps :: "env \<Rightarrow> session_info \<Rightarrow> addr \<Rightarrow> sent_tx \<Rightarrow> bool" where
  "sweeps E session investor x \<longleftrightarrow>
     x_wallet x = si_wallet session \<and>
     (if is_native_placeholder_address (si_target_token session)
      then tx_to (x_request x) = investor \<and> tx_input (x_request x) = [] \<and>
        (\<exists>url n balance m gas_price. rpc_native_balance (node_of E) url (tx_from (x_request x)) n = Inr balance \<and>
           rpc_gas_price (node_of E) url m = Inr gas_price \<and>
           unat (tx_value (x_request x)) + 42000 * unat gas_price \<le> unat balance)
      else tx_value (x_request x) = 0 \<and>
        addr_parse (lib_of E) (si_target_token session) = Some (tx_to (x_request x)) \<and>
        (\<exists>url n balance. rpc_balance_of (node_of E) url (tx_to (x_request x)) (tx_from (x_request x)) n = Inr balance \<and>
           tx_input (x_request x) = abi_encode (lib_of E) (Transfer investor balance)))"

lemma remote_yields: "yields (\<lambda>v. \<exists>n. f n = Inr v) (remote E f)"
  by (auto simp: yields_def remote_def)

lemma sat_mul_small: "unat a * unat b < 2 ^ LENGTH('l) \<Longrightarrow> unat (sat_mul a b) = unat a * unat b"
  for a b :: "'l::len word"
  by (simp add: unat_sat_mul)

lemma sweep_reserve:
  fixes balance :: u256 and gas_price :: "128 word"
  assumes "sat_sub balance (21000 * ucast (sat_mul gas_price 2)) = v" "v \<noteq> 0" "unat gas_price < 2 ^ 127"
  shows "unat v + 42000 * unat gas_price \<le> unat balance"
proof -
  have "unat (sat_mul gas_price 2) = 2 * unat gas_price"
    using assms(3) by (subst sat_mul_small) simp_all
  then have c: "unat (ucast (sat_mul gas_price 2) :: u256) = 2 * unat gas_price"
    using assms(3) by (simp add: unsigned_ucast_eq take_bit_eq_mod)
  have "unat (21000 * ucast (sat_mul gas_price 2) :: u256) = 42000 * unat gas_price"
    using assms(3) c by (subst unat_mult_small) simp_all
  then show ?thesis using assms(1,2) unat_sat_sub [of balance "21000 * ucast (sat_mul gas_price 2)"]
    by (auto simp: unat_gt_0 [symmetric])
qed

lemma sends_sweep_native:
  assumes "is_native_placeholder_address (si_target_token session)"
    and "\<And>url n p. rpc_gas_price (node_of E) url n = Inr p \<Longrightarrow> unat p < 2 ^ 127"
  shows "keeps (sends (sweeps E session investor)) (sweep_native E session chain_id url sender investor)"
  unfolding sweep_native_def Let_def
proof (intro snt.keeps_rbind_yields [OF snt.keeps_remote remote_yields] snt.keeps_if snt.keeps_ret snt.keeps_rbind sends_build)
  fix balance gas_price x
  assume b: "\<exists>n. rpc_native_balance (node_of E) url sender n = Inr balance"
    and g: "\<exists>n. rpc_gas_price (node_of E) url n = Inr gas_price"
    and nz: "\<not> sat_sub balance (21000 * ucast (sat_mul gas_price 2)) = 0"
    and x: "requests (si_wallet session) sender investor [] (sat_sub balance (21000 * ucast (sat_mul gas_price 2))) chain_id x"
  have "unat gas_price < 2 ^ 127" using g assms(2) by blast
  from sweep_reserve [OF refl nz this] b g x assms(1) show "sweeps E session investor x"
    by (auto simp: sweeps_def requests_def asks_for_def) blast
qed

lemma sends_sweep_token:
  assumes "\<not> is_native_placeholder_address (si_target_token session)"
  shows "keeps (sends (sweeps E session investor)) (sweep_token E session chain_id url sender investor)"
proof -
  have "keeps (sends (sweeps E session investor)) (rbind (remote E (rpc_balance_of (node_of E) url token sender)) (\<lambda>balance.
     if balance = 0 then ret ()
     else rbind (build_sign_and_submit_tx E (si_chain session) chain_id (si_wallet session) sender token
                (abi_encode (lib_of E) (Transfer investor balance)) 0) (\<lambda>_. ret ())))"
    if "addr_parse (lib_of E) (si_target_token session) = Some token" for token
    using assms that
    by (intro snt.keeps_rbind_yields [OF snt.keeps_remote remote_yields] snt.keeps_if snt.keeps_ret
        snt.keeps_rbind sends_build) (auto simp: sweeps_def requests_def asks_for_def)
  then show ?thesis
    unfolding sweep_token_def
    by (intro snt.keeps_rbind_yields [OF snt.keeps_of_result, of "\<lambda>x. addr_parse (lib_of E) (si_target_token session) = Some x"])
      (auto simp: yields_def)
qed

text \<open>C31: The sweep pays nobody but the investor: every transaction it sends is from the wallet of
  the session and either transfers exactly the token balance reported to the investor's
  address, or, for a native target, sends him at most the balance less the reserve of twice
  21000 gas at the price reported.  It changes no table.\<close>

theorem sweep_only_to_investor:
  assumes "sweep_to_investor E session investor_addr s = (r, t)"
    and "addr_parse (lib_of E) investor_addr = Some investor"
    and "\<And>url n p. rpc_gas_price (node_of E) url n = Inr p \<Longrightarrow> unat p < 2 ^ 127"
  shows "sends (sweeps E session investor) s t \<and> same_tables s t"
proof
  have "keeps (sends (sweeps E session investor)) (sweep_to_investor E session investor_addr)"
    unfolding sweep_to_investor_def assms(2)
    by (intro snt.keeps_rbind_yields [OF snt.keeps_of_result, of "\<lambda>x. x = investor"] sends_resolve
        sends_sweep_native sends_sweep_token assms(3) snt.keeps_world)
      (auto simp: yields_def intro: sends_sweep_native sends_sweep_token assms(3))
  from keepsD [OF this assms(1)] show "sends (sweeps E session investor) s t" .
  have "keeps same_tables (sweep_to_investor E session investor_addr)"
    unfolding sweep_to_investor_def sweep_native_def sweep_token_def Let_def
    by (intro tables_build tab.keeps_resolve tab.keeps_world)
  from keepsD [OF this assms(1)] show "same_tables s t" .
qed

text \<open>What a sweep sends, as far as callers of the sweep care.\<close>

definition pays :: "env \<Rightarrow> session_info \<Rightarrow> addr \<Rightarrow> sent_tx \<Rightarrow> bool" where
  "pays E session investor x \<longleftrightarrow>
     x_wallet x = si_wallet session \<and>
     (tx_to (x_request x) = investor \<and> tx_input (x_request x) = [] \<or>
      tx_value (x_request x) = 0 \<and> (\<exists>balance. tx_input (x_request x) = abi_encode (lib_of E) (Transfer investor balance)))"

context world_rel begin

lemma keeps_sweep:
  assumes "\<And>investor s x. addr_parse (lib_of E) investor_addr = Some investor \<Longrightarrow> pays E session investor x \<Longrightarrow>
      R s (s\<lparr>sent := sent s @ [x]\<rparr>)"
  shows "keeps R (sweep_to_investor E session investor_addr)"
proof -
  have inv: "yields (\<lambda>a. addr_parse (lib_of E) investor_addr = Some a)
      (of_result (ok_or e (addr_parse (lib_of E) investor_addr)) :: (world, err, addr) rt)" for e
    by (auto simp: yields_def)
  have native: "keeps R (sweep_native E session c url sender a)"
    and token: "keeps R (sweep_token E session c url sender a)"
    if "addr_parse (lib_of E) investor_addr = Some a" for c url sender a
    unfolding sweep_native_def sweep_token_def Let_def
    by (intro keeps_world keeps_build assms [OF that]; auto simp: pays_def requests_def asks_for_def)+
  show ?thesis
    unfolding sweep_to_investor_def
    by (intro keeps_rbind_yields [OF keeps_of_result inv] keeps_resolve native token keeps_world)
qed

end

subsection \<open>The refund of what was not sold\<close>

definition leftover :: "env \<Rightarrow> session_info \<Rightarrow> refund_row \<Rightarrow> bool" where
  "leftover E session r \<longleftrightarrow>
     r_status r = ''pending'' \<and> \<not> r_verified r \<and> r_vtoken r = None \<and> r_token r = si_sell_token session \<and>
     (\<exists>token owner url n balance. addr_parse (lib_of E) (si_sell_token session) = Some token \<and>
        rpc_balance_of (node_of E) url token owner n = Inr balance \<and> balance \<noteq> 0 \<and>
        r_amount r = u256_show (lib_of E) balance)"

context world_rel begin

lemma keeps_excess_refund:
  assumes "\<And>s r. leftover E session r \<Longrightarrow> list_all (\<lambda>q. r_id q \<noteq> r_id r) (refunds s) \<Longrightarrow>
      R s (s\<lparr>refunds := refunds s @ [r]\<rparr>)"
  shows "keeps R (check_and_create_excess_refund E session)"
proof -
  have ins: "keeps R (sql E (insert_refund r))" if "leftover E session r" for r
    using assms [OF that] by (intro keeps_sql) (auto simp: insert_refund_def rel_refl list_all_iff list_ex_iff)
  have wallet: "keeps R (sql E (session_wallet E i))" for i
    by (rule keeps_sql) (simp add: session_wallet_def rel_refl split: option.split)
  have bal: "keeps R (if b = 0 then ret ()
     else
       rbind (sql E (session_wallet E (si_id session))) (\<lambda>row.
       case row of
         None \<Rightarrow> ret ()
       | Some w \<Rightarrow>
           rbind (fresh E) (\<lambda>refund_id.
           rbind (now E) (\<lambda>tm.
           rbind (attempt (sql E (insert_refund
             \<lparr>r_id = refund_id, r_user = w_user w, r_wallet = w_id w,
              r_amount = u256_show (lib_of E) b, r_token = si_sell_token session,
              r_symbol = si_sell_symbol session, r_status = ''pending'', r_note = None,
              r_amount_usd = None, r_destination = None, r_vtoken = None, r_vexpires = None,
              r_verified = False, r_created = tm, r_updated = tm\<rparr>) :: (world, err, unit) rt))
             (\<lambda>_. ret ())))))"
    if "addr_parse (lib_of E) (si_sell_token session) = Some token"
      "\<exists>n. rpc_balance_of (node_of E) url token owner n = Inr b" for token url owner b
    using that by (intro ins wallet keeps_world) (auto simp: leftover_def)
  have tok: "yields (\<lambda>token. addr_parse (lib_of E) (si_sell_token session) = Some token)
     (of_result (ok_or [] (addr_parse (lib_of E) (si_sell_token session))) :: (world, err, addr) rt)"
    by (auto simp: yields_def)
  show ?thesis
    unfolding check_and_create_excess_refund_def excess_refund_def
    by (intro keeps_rbind [OF keeps_attempt] keeps_ret keeps_rbind [OF keeps_resolve]
        keeps_rbind [OF keeps_of_result, of _ "provider_url E (si_chain session)"]
        keeps_rbind_yields [OF keeps_of_result tok] keeps_rbind_yields [OF keeps_remote remote_yields] bal)
qed

end

section \<open>Witnesses\<close>

definition sample_request :: tx_request where
  "sample_request = \<lparr>tx_from = 5, tx_to = 6, tx_value = 1, tx_input = [], tx_nonce = 0, tx_chain_id = 56,
     tx_gas_limit = Some 25200, tx_gas_price = Some 3\<rparr>"

definition keyed_settings :: settings where
  "keyed_settings = sample_settings\<lparr>kms := default_kms\<lparr>master_encryption_key := replicate 64 (CHR ''0'')\<rparr>\<rparr>"

definition keyed_lib :: lib where
  "keyed_lib = sample_lib\<lparr>tx_to_json := (\<lambda>t. if t = sample_request then Some [7] else None),
     tx_of_json := (\<lambda>b. Some sample_request)\<rparr>"

definition keyed_env :: env where
  "keyed_env = sample_env\<lparr>cfg := keyed_settings, lib_of := keyed_lib\<rparr>"

definition mute_env :: env where
  "mute_env = keyed_env\<lparr>node_of := sample_node\<lparr>rpc_send_raw := (\<lambda>url raw n. Inl ''already known'')\<rparr>\<rparr>"

definition sample_wallet :: wallet_row where
  "sample_wallet = \<lparr>w_id = 0, w_user = 3, w_chain = ''bsc'', w_address = sample_addr_show 5,
     w_key = replicate 32 7 @ [0], w_nonce = [], w_created = 0\<rparr>"

definition wallet_world :: world where
  "wallet_world = user_world\<lparr>wallets := [sample_wallet]\<rparr>"

definition zero_key :: "byte list" where
  "zero_key = replicate 32 0"

lemma keyed_master: "parse_master_key keyed_env = Inr zero_key"
  by code_simp

lemma keyed_json: "json_law (lib_of keyed_env)"
  by (simp add: json_law_def keyed_env_def keyed_lib_def)

lemma wallet_world_vault: "vault_ok keyed_env m wallet_world"
  by (simp add: vault_ok_def holds_key_def decrypt_key_def wallet_world_def sample_wallet_def keyed_env_def
      keyed_lib_def sample_lib_def sample_open_def)

lemma retry_first: "f s = (Inr v, t) \<Longrightarrow> retry E (Suc k) f s = (Inr v, t)"
  by (simp add: retry_def retry_loop_step)

lemma sample_prepare:
  "prepare_tx keyed_env ''bsc'' 56 5 6 [] 1 wallet_world =
     (Inr (''http://node'', sample_request, [7]), wallet_world\<lparr>calls := 3\<rparr>)"
  by code_simp

lemma sample_sign:
  "kms_sign keyed_env (show_hex 32 0) [7] (wallet_world\<lparr>calls := 3\<rparr>) =
     (Inr ([9, 9], sample_b256_show 77), wallet_world\<lparr>calls := 5\<rparr>)"
proof -
  have id: "uuid_parse (lib_of keyed_env) (show_hex 32 0) = Some 0" by code_simp
  have key: "key_ok (lib_of keyed_env) (replicate 32 7)" by code_simp
  have w: "wallets wallet_world = [sample_wallet]" by (simp add: wallet_world_def)
  have [simp]: "grpc_down keyed_env n = None" "db_reply keyed_env n = Served" for n
    by (simp_all add: keyed_env_def sample_env_def)
  have open_key: "decrypt_key keyed_env zero_key (w_key sample_wallet) (w_nonce sample_wallet) = Inr (replicate 32 7)"
    by (simp add: decrypt_key_def keyed_env_def keyed_lib_def sample_lib_def sample_open_def sample_wallet_def ok_or_def)
  have "w_id sample_wallet = 0" by (simp add: sample_wallet_def)
  moreover have "tx_of_json (lib_of keyed_env) [7] = Some sample_request"
    "sign_tx (lib_of keyed_env) k tx = Some ([9, 9], 77)" "b256_debug (lib_of keyed_env) = sample_b256_show" for k tx
    by (simp_all add: keyed_env_def keyed_lib_def sample_lib_def)
  ultimately show ?thesis
    using key
    by (simp add: kms_sign_def grpc_def keyed_master sign_transaction_def parse_id_def id status_err_def map_err_def
        rbind_def of_result_def ok_or_def query_def sql_def gets_def Let_def wallet_by_id_def w open_key ret_def)
qed

theorem submission_sound_witness:
  "\<exists>(t :: world) x j. 1 \<le> j \<and> j \<le> 3 \<and> sent t = replicate j x \<and>
     fst (build_sign_and_submit_tx keyed_env ''bsc'' 56 (show_hex 32 0) 5 6 [] 1 wallet_world) = Inr (sample_b256_show 77)"
proof -
  let ?m = "build_sign_and_submit_tx keyed_env ''bsc'' 56 (show_hex 32 0) 5 6 [] 1 wallet_world"
  let ?x = "\<lparr>x_wallet = show_hex 32 0, x_request = sample_request, x_raw = [9, 9]\<rparr>"
  have "send_raw keyed_env ''http://node'' ?x (wallet_world\<lparr>calls := 5\<rparr>) =
      (Inr 77, snd (send_raw keyed_env ''http://node'' ?x (wallet_world\<lparr>calls := 5\<rparr>)))"
    by (simp add: send_raw_def rbind_def modify_def remote_def keyed_env_def sample_env_def sample_node_def)
  then have send: "retry keyed_env 3 (send_raw keyed_env ''http://node'' ?x) (wallet_world\<lparr>calls := 5\<rparr>) =
      (Inr 77, snd (send_raw keyed_env ''http://node'' ?x (wallet_world\<lparr>calls := 5\<rparr>)))"
    unfolding numeral_3_eq_3 by (rule retry_first)
  have dbg: "b256_debug (lib_of keyed_env) = sample_b256_show"
    by (simp add: keyed_env_def keyed_lib_def sample_lib_def)
  have ok: "fst ?m = Inr (sample_b256_show 77)"
    by (simp add: build_sign_and_submit_tx_def rbind_def sample_prepare sample_sign send map_err_def ret_def Let_def
        dbg sample_b256_show_def)
  then obtain t where run: "?m = (Inr (sample_b256_show 77), t)" by (cases ?m) auto
  have "sent wallet_world = []" by (simp add: wallet_world_def user_world_def empty_world_def)
  with submission_sound [OF keyed_master wallet_world_vault keyed_json run] obtain x j
    where "1 \<le> j" "j \<le> 3" "sent t = replicate j x" by auto
  with ok show ?thesis by blast
qed

lemma retry_all_fail:
  "(\<And>u. \<exists>t. f u = (Inl e, t)) \<Longrightarrow> 0 < k \<Longrightarrow> \<exists>t. retry_loop E k d f s = (Inl (Gave_up e), t)"
proof (induction k arbitrary: d s)
  case (Suc k)
  obtain t where "f s = (Inl e, t)" using Suc.prems(1) by blast
  with Suc.IH [OF Suc.prems(1)] show ?case by (cases "k = 0") (auto simp: retry_loop_step)
qed simp

lemma mute_keyed:
  "prepare_tx mute_env = prepare_tx keyed_env" "kms_sign mute_env = kms_sign keyed_env"
  by (simp_all add: fun_eq_iff prepare_tx_def provider_url_def chain_rpc_url_def chain_cfg_of_def parse_url_def
      remote_def mute_env_def keyed_env_def sample_env_def sample_node_def kms_sign_def grpc_def
      parse_master_key_def sign_transaction_def parse_id_def query_def sql_def decrypt_key_def Let_def rbind_def
      cong: sum.case_cong option.case_cong)

theorem failed_submission_witness:
  "\<exists>e t x. build_sign_and_submit_tx mute_env ''bsc'' 56 (show_hex 32 0) 5 6 [] 1 wallet_world = (Inl e, t) \<and>
     sent t = [x, x, x] \<and> e = ''Failed to submit transaction to RPC: already known''"
proof -
  let ?m = "build_sign_and_submit_tx mute_env ''bsc'' 56 (show_hex 32 0) 5 6 [] 1 wallet_world"
  let ?x = "\<lparr>x_wallet = show_hex 32 0, x_request = sample_request, x_raw = [9, 9]\<rparr>"
  have "\<exists>t. retry_loop mute_env 3 1000 (send_raw mute_env ''http://node'' ?x) (wallet_world\<lparr>calls := 5\<rparr>) =
      (Inl (Gave_up ''already known''), t)"
    by (rule retry_all_fail) (simp_all add: send_raw_def rbind_def modify_def remote_def mute_env_def)
  then obtain t where send: "retry mute_env 3 (send_raw mute_env ''http://node'' ?x) (wallet_world\<lparr>calls := 5\<rparr>) =
      (Inl (Gave_up ''already known''), t)"
    by (auto simp: retry_def)
  have "sent t \<noteq> []" using retry_sends [OF _ send [unfolded retry_def]] by auto
  moreover have run: "?m = (Inl (''Failed to submit transaction to RPC: '' @ ''already known''), t)"
    by (simp add: build_sign_and_submit_tx_def rbind_def sample_prepare sample_sign mute_keyed send map_err_def)
  moreover have "sent wallet_world = []" by (simp add: wallet_world_def user_world_def empty_world_def)
  ultimately obtain x where "sent t = [x, x, x]" using failed_submission [OF run] by auto
  with run show ?thesis by (intro exI [of _ t] exI [of _ x] exI) simp
qed

text \<open>A node that reports no allowance.\<close>

definition stingy_env :: env where
  "stingy_env = sample_env\<lparr>cfg := keyed_settings,
     lib_of := sample_lib\<lparr>tx_to_json := (\<lambda>t. Some [7]), tx_of_json := (\<lambda>b. Some sample_request)\<rparr>,
     node_of := sample_node\<lparr>rpc_allowance := (\<lambda>url token owner spender n. Inr 0)\<rparr>\<rparr>"

lemma stingy_parts:
  "remote stingy_env f s = (f (calls s), s\<lparr>calls := Suc (calls s)\<rparr>)" "grpc_down stingy_env n = None" "db_reply stingy_env n = Served"
  "rpc_allowance (node_of stingy_env) url token owner router n = Inr 0" "rpc_send_raw (node_of stingy_env) url raw n = Inr 77"
  "rpc_receipt (node_of stingy_env) url h n = Inr (Some sample_receipt)"
  "tx_of_json (lib_of stingy_env) b = Some sample_request" "sign_tx (lib_of stingy_env) key x = Some ([9, 9], 77)"
  "b256_debug (lib_of stingy_env) = sample_b256_show" "b256_parse (lib_of stingy_env) = sample_b256_parse"
  by (cases s) (simp_all add: stingy_env_def sample_env_def remote_def sample_lib_def sample_node_def)

lemma stingy_texts:
  "provider_url stingy_env ''bsc'' = Inr ''http://node''"
  "addr_parse (lib_of stingy_env) ''0x0000000000000000000000000000000000000001'' = Some 1"
  "parse_master_key stingy_env = Inr zero_key" "key_ok (lib_of stingy_env) (replicate 32 7)"
  "uuid_parse (lib_of stingy_env) (show_hex 32 0) = Some 0" "sample_b256_show 77 \<noteq> []"
  "sample_b256_parse (sample_b256_show 77) = Some 77" "parse_receipt_success_from_json sample_receipt = Some True"
  by code_simp+

lemma stingy_sign:
  assumes "wallets s = [sample_wallet]"
  shows "kms_sign stingy_env (show_hex 32 0) [7] s = (Inr ([9, 9], sample_b256_show 77), s\<lparr>calls := Suc (Suc (calls s))\<rparr>)"
proof -
  have "decrypt_key stingy_env zero_key (w_key sample_wallet) (w_nonce sample_wallet) = Inr (replicate 32 7)"
    by (simp add: decrypt_key_def stingy_env_def sample_lib_def sample_open_def sample_wallet_def ok_or_def)
  moreover have "w_id sample_wallet = 0" by (simp add: sample_wallet_def)
  ultimately show ?thesis
    by (simp add: kms_sign_def grpc_def stingy_texts sign_transaction_def parse_id_def status_err_def map_err_def
        rbind_def of_result_def ok_or_def query_def sql_def gets_def Let_def wallet_by_id_def assms stingy_parts ret_def)
qed

lemma stingy_prepare:
  "\<exists>tx. prepare_tx stingy_env ''bsc'' c 5 1 data 0 s = (Inr (''http://node'', tx, [7]), s\<lparr>calls := calls s + 3\<rparr>)"
  by (simp add: prepare_tx_def rbind_def stingy_texts stingy_parts(1) of_result_def ok_or_def ret_def)
    (simp add: stingy_env_def sample_node_def sample_lib_def)

lemma stingy_approves:
  "\<exists>t. ensure_token_approval stingy_env ''bsc'' (show_hex 32 0) 5 ''0x0000000000000000000000000000000000000001'' 6 100
     wallet_world = (Inr (), t)"
proof -
  let ?data = "abi_encode (lib_of stingy_env) (Approve 6 u256_max)"
  obtain tx where prep: "prepare_tx stingy_env ''bsc'' (chain_id_of stingy_env ''bsc'') 5 1 ?data 0 (wallet_world\<lparr>calls := 1\<rparr>) =
      (Inr (''http://node'', tx, [7]), wallet_world\<lparr>calls := 4\<rparr>)"
    using stingy_prepare [of "chain_id_of stingy_env ''bsc''" ?data "wallet_world\<lparr>calls := 1\<rparr>"] by auto
  let ?x = "\<lparr>x_wallet = show_hex 32 0, x_request = tx, x_raw = [9, 9]\<rparr>"
  obtain u where "send_raw stingy_env ''http://node'' ?x (wallet_world\<lparr>calls := 6\<rparr>) = (Inr 77, u)"
    by (simp add: send_raw_run stingy_parts)
  then have send: "retry stingy_env 3 (send_raw stingy_env ''http://node'' ?x) (wallet_world\<lparr>calls := 6\<rparr>) = (Inr 77, u)"
    unfolding numeral_3_eq_3 by (rule retry_first)
  have w: "wallets (wallet_world\<lparr>calls := 4\<rparr>) = [sample_wallet]" "calls wallet_world = 0"
    by (simp_all add: wallet_world_def user_world_def empty_world_def)
  have build: "build_sign_and_submit_tx stingy_env ''bsc'' (chain_id_of stingy_env ''bsc'') (show_hex 32 0) 5 1 ?data 0
      (wallet_world\<lparr>calls := 1\<rparr>) = (Inr (sample_b256_show 77), u)"
    using stingy_sign [OF w(1)] send
    by (simp add: build_sign_and_submit_tx_def rbind_def prep [unfolded One_nat_def] map_err_def stingy_parts stingy_texts ret_def Let_def)
  have "approval_loop stingy_env ''http://node'' h' 77 d u = (Inr (), u\<lparr>calls := Suc (calls u)\<rparr>)" for h' d
    by (simp add: approval_loop.simps [of stingy_env "''http://node''" h' 77 d u] stingy_parts stingy_texts opt_bind_def)
  then show ?thesis
    using build
    by (simp add: ensure_token_approval_def stingy_texts rbind_def of_result_def ok_or_def stingy_parts w(2))
qed

theorem approval_sound_witness:
  "\<exists>t x j. ensure_token_approval stingy_env ''bsc'' (show_hex 32 0) 5 ''0x0000000000000000000000000000000000000001'' 6 100
     wallet_world = (Inr (), t) \<and> 1 \<le> j \<and> sent t = replicate j x \<and> x_wallet x = show_hex 32 0 \<and> tx_to (x_request x) = 1"
proof -
  obtain t where run: "ensure_token_approval stingy_env ''bsc'' (show_hex 32 0) 5 ''0x0000000000000000000000000000000000000001'' 6 100
     wallet_world = (Inr (), t)"
    using stingy_approves by blast
  have none: "\<not> (100 :: u256) \<le> 0" "sent wallet_world = []"
    by (simp_all add: wallet_world_def user_world_def empty_world_def)
  from approval_sound [OF run stingy_texts(2), THEN conjunct2] obtain x j where
    "1 \<le> j" "sent t = sent wallet_world @ replicate j x"
    "requests (show_hex 32 0) 5 1 (abi_encode (lib_of stingy_env) (Approve 6 u256_max)) 0 (chain_id_of stingy_env ''bsc'') x"
    unfolding stingy_parts(4) sum.inject using none(1) by auto
  then show ?thesis using run none(2) by (auto simp: requests_def asks_for_def)
qed

theorem sweep_only_to_investor_witness:
  "sends (sweeps mute_env sample_session 6) wallet_world
     (snd (sweep_to_investor mute_env sample_session ''0x0000000000000000000000000000000000000006'' wallet_world))"
proof -
  obtain r t where run: "sweep_to_investor mute_env sample_session ''0x0000000000000000000000000000000000000006'' wallet_world = (r, t)"
    by (cases "sweep_to_investor mute_env sample_session ''0x0000000000000000000000000000000000000006'' wallet_world")
  have inv: "addr_parse (lib_of mute_env) ''0x0000000000000000000000000000000000000006'' = Some 6" by code_simp
  have "sends (sweeps mute_env sample_session 6) wallet_world t"
    by (rule sweep_only_to_investor [OF run inv, THEN conjunct1]) (auto simp: mute_env_def sample_node_def)
  with run show ?thesis by simp
qed

end
