(* ===== verification/Oracle.thy ===== *)
theory Oracle
  imports Submit
begin

text \<open>
  Valuation by the price oracle (\<open>crates/execution-engine/src/main.rs\<close>): the oracle answers a USD
  price per token scaled by \<open>10^36\<close>; the engine turns it into a floating-point value of a buy and
  into a market capitalisation, from which the balances of three burn addresses are deducted.
\<close>

definition pool_type_to_oracle_version :: "pool_type \<Rightarrow> byte" where
  "pool_type_to_oracle_version pt = (case pt of V2 \<Rightarrow> 2 | V3 \<Rightarrow> 3)"

definition usd_value_from_oracle_price_36 :: "lib \<Rightarrow> u256 \<Rightarrow> u32 \<Rightarrow> u256 \<Rightarrow> f64 option" where
  "usd_value_from_oracle_price_36 L amount_raw token_decimals usd_price_36 =
     (if amount_raw = 0 \<or> usd_price_36 = 0 then Some (Fin 0)
      else
        opt_bind (f_parse (u256_show L amount_raw)) (\<lambda>amount.
        opt_bind (f_parse (u256_show L usd_price_36)) (\<lambda>price.
        let amount_tokens = f_div amount (f_powi (Fin 10) (sint token_decimals));
            usd_per_token = f_div price (rnd (10 ^ 36));
            usd_value = f_mul amount_tokens usd_per_token
        in if is_finite usd_value then Some usd_value else None)))"

definition fetch_oracle_usd_price_36 ::
  "env \<Rightarrow> string \<Rightarrow> addr \<Rightarrow> string \<Rightarrow> string \<Rightarrow> byte \<Rightarrow> (world, err, u256) rt" where
  "fetch_oracle_usd_price_36 E url oracle_address token_address pair_address version =
     rbind (of_result (ok_or (''Invalid trigger token address: '' @ token_address)
              (addr_parse (lib_of E) token_address))) (\<lambda>token.
     rbind (of_result (ok_or (''Invalid pair address: '' @ pair_address)
              (addr_parse (lib_of E) pair_address))) (\<lambda>pair.
     remote E (rpc_usd_price (node_of E) url oracle_address token pair version)))"

definition fetch_buy_amount_usd_from_oracle ::
  "env \<Rightarrow> string \<Rightarrow> addr \<Rightarrow> string \<Rightarrow> string \<Rightarrow> byte \<Rightarrow> u256 \<Rightarrow> u32 \<Rightarrow> (world, err, f64 option) rt" where
  "fetch_buy_amount_usd_from_oracle E chain oracle_address token_address pair_address version amount_raw token_decimals =
     (if amount_raw = 0 then ret (Some (Fin 0))
      else
        rbind (of_result (provider_url E chain)) (\<lambda>url.
        rbind (fetch_oracle_usd_price_36 E url oracle_address token_address pair_address version) (\<lambda>quote.
        ret (usd_value_from_oracle_price_36 (lib_of E) amount_raw token_decimals quote))))"

definition known_burn_addresses :: "lib \<Rightarrow> addr list" where
  "known_burn_addresses L = List.map_filter (addr_parse L)
     [''0x0000000000000000000000000000000000000000'',
      ''0x000000000000000000000000000000000000dEaD'',
      ''0xdead000000000000000042069420694206942069'']"

text \<open>A balance that cannot be read counts as zero; the sum saturates.\<close>

fun burned_supply :: "env \<Rightarrow> string \<Rightarrow> addr \<Rightarrow> addr list \<Rightarrow> u256 \<Rightarrow> (world, err, u256) rt" where
  "burned_supply E url token [] acc = ret acc"
| "burned_supply E url token (a # as) acc =
     rbind (attempt (remote E (rpc_balance_of (node_of E) url token a) :: (world, err, u256) rt)) (\<lambda>r.
     burned_supply E url token as (case r of Inl _ \<Rightarrow> acc | Inr balance \<Rightarrow> sat_add acc balance))"

definition fetch_token_market_cap_usd_from_oracle ::
  "env \<Rightarrow> string \<Rightarrow> addr \<Rightarrow> string \<Rightarrow> string \<Rightarrow> byte \<Rightarrow> u32 \<Rightarrow> (world, err, f64 option) rt" where
  "fetch_token_market_cap_usd_from_oracle E chain oracle_address token_address pair_address version token_decimals =
     rbind (of_result (provider_url E chain)) (\<lambda>url.
     rbind (fetch_oracle_usd_price_36 E url oracle_address token_address pair_address version) (\<lambda>usd_price_36.
     if usd_price_36 = 0 then ret (Some (Fin 0))
     else
       rbind (of_result (ok_or (''Invalid token address for market cap: '' @ token_address)
                (addr_parse (lib_of E) token_address))) (\<lambda>token.
       rbind (remote E (rpc_total_supply (node_of E) url token)) (\<lambda>total_supply_raw.
       rbind (burned_supply E url token (known_burn_addresses (lib_of E)) 0) (\<lambda>burned_supply_raw.
       ret (usd_value_from_oracle_price_36 (lib_of E) (sat_sub total_supply_raw burned_supply_raw) token_decimals
              usd_price_36))))))"

context world_rel begin

lemma keeps_oracle_price: "keeps R (fetch_oracle_usd_price_36 E url orc token pair v)"
  unfolding fetch_oracle_usd_price_36_def by (intro keeps_world)

lemma keeps_buy_amount: "keeps R (fetch_buy_amount_usd_from_oracle E chain orc token pair v a d)"
  unfolding fetch_buy_amount_usd_from_oracle_def by (intro keeps_oracle_price keeps_world)

lemma keeps_burned: "keeps R (burned_supply E url token as acc)"
proof (induction as arbitrary: acc)
  case (Cons a as)
  show ?case unfolding burned_supply.simps by (intro Cons keeps_world)
qed (simp add: keeps_ret)

lemma keeps_market_cap: "keeps R (fetch_token_market_cap_usd_from_oracle E chain orc token pair v d)"
  unfolding fetch_token_market_cap_usd_from_oracle_def by (intro keeps_oracle_price keeps_burned keeps_world)

end

end
