(* ===== verification/Pools.thy ===== *)
theory Pools
  imports Kms
begin

text \<open>
  Discovery of the pools of a token (\<open>crates/session-api/src/pools.rs\<close>): every configured factory
  is asked for the pool of the token with every base token, the results are sorted and freed of
  duplicates, and USD prices are added from the price feeds of the base tokens.
\<close>

record discovered_pool =
  dp_address :: string
  dp_type :: pool_type
  dp_dex :: string
  dp_token0 :: string
  dp_token1 :: string
  dp_fee :: u32
  dp_reserve0 :: "string option"
  dp_reserve1 :: "string option"
  dp_liquidity :: "string option"
  dp_balance0 :: "string option"
  dp_balance1 :: "string option"
  dp_price0 :: f64
  dp_price1 :: f64

section \<open>Asking a factory\<close>

text \<open>The result of a call whose failure is only logged.\<close>

definition ok :: "'e + 'a \<Rightarrow> 'a option" where
  "ok r = (case r of Inl e \<Rightarrow> None | Inr x \<Rightarrow> Some x)"

definition discover_v2_pool ::
  "env \<Rightarrow> string \<Rightarrow> addr \<Rightarrow> addr \<Rightarrow> addr \<Rightarrow> dex_factory_config \<Rightarrow> (world, err, discovered_pool option) rt" where
  "discover_v2_pool E url factory_addr token_a token_b factory =
     (let N = node_of E; L = lib_of E in
      rbind (remote E (rpc_get_pair N url factory_addr token_a token_b)) (\<lambda>pair.
      if pair = 0 then ret None
      else
        rbind (remote E (rpc_token0 N url pair)) (\<lambda>token0.
        rbind (remote E (rpc_token1 N url pair)) (\<lambda>token1.
        rbind (attempt (remote E (rpc_reserves N url pair))) (\<lambda>res.
        ret (Some \<lparr>dp_address = addr_debug L pair, dp_type = V2, dp_dex = dex_name factory,
          dp_token0 = addr_debug L token0, dp_token1 = addr_debug L token1, dp_fee = 0,
          dp_reserve0 = map_option (\<lambda>(r0, _, _). u256_show L (ucast r0)) (ok res),
          dp_reserve1 = map_option (\<lambda>(_, r1, _). u256_show L (ucast r1)) (ok res),
          dp_liquidity = None, dp_balance0 = None, dp_balance1 = None,
          dp_price0 = Fin 0, dp_price1 = Fin 0\<rparr>))))))"

definition discover_v3_pool ::
  "env \<Rightarrow> string \<Rightarrow> addr \<Rightarrow> addr \<Rightarrow> addr \<Rightarrow> u32 \<Rightarrow> dex_factory_config
     \<Rightarrow> (world, err, discovered_pool option) rt" where
  "discover_v3_pool E url factory_addr token_a token_b fee factory =
     (let N = node_of E; L = lib_of E in
      if 0x00FFFFFF < fee then fail ''out of range integral type conversion attempted''
      else
        rbind (remote E (rpc_get_pool N url factory_addr token_a token_b fee)) (\<lambda>pool.
        if pool = 0 then ret None
        else
          rbind (attempt (remote E (rpc_liquidity N url pool))) (\<lambda>liq.
          rbind (attempt (remote E (rpc_balance_of N url token_a pool))) (\<lambda>balance0.
          rbind (attempt (remote E (rpc_balance_of N url token_b pool))) (\<lambda>balance1.
          ret (Some \<lparr>dp_address = addr_debug L pool, dp_type = V3, dp_dex = dex_name factory,
            dp_token0 = addr_debug L token_a, dp_token1 = addr_debug L token_b, dp_fee = fee,
            dp_reserve0 = None, dp_reserve1 = None,
            dp_liquidity = map_option (\<lambda>l. show_nat (unat l)) (ok liq),
            dp_balance0 = map_option (u256_show L) (ok balance0),
            dp_balance1 = map_option (u256_show L) (ok balance1),
            dp_price0 = Fin 0, dp_price1 = Fin 0\<rparr>))))))"

section \<open>The search\<close>

text \<open>A failed or empty query contributes no pool.\<close>

definition found :: "(world, err, discovered_pool option) rt \<Rightarrow> (world, err, discovered_pool list) rt" where
  "found m = rbind (attempt m) (\<lambda>r. ret (case opt_bind (ok r) id of None \<Rightarrow> [] | Some p \<Rightarrow> [p]))"

fun concat_each :: "'x list \<Rightarrow> ('x \<Rightarrow> ('s, 'e, 'a list) rt) \<Rightarrow> ('s, 'e, 'a list) rt" where
  "concat_each [] f = ret []"
| "concat_each (x # xs) f = rbind (f x) (\<lambda>ys. rbind (concat_each xs f) (\<lambda>zs. ret (ys @ zs)))"

definition discover_with_base ::
  "env \<Rightarrow> string \<Rightarrow> string \<Rightarrow> addr \<Rightarrow> dex_factory_config \<Rightarrow> addr \<Rightarrow> string
     \<Rightarrow> (world, err, discovered_pool list) rt" where
  "discover_with_base E url token_address token factory factory_addr base =
     (if eq_ic base token_address then ret []
      else
        rbind (of_result (ok_or ''invalid address'' (addr_parse (lib_of E) base))) (\<lambda>base_addr.
        case dex_pool_type factory of
          V2 \<Rightarrow> found (discover_v2_pool E url factory_addr token base_addr factory)
        | V3 \<Rightarrow> concat_each (dex_fee_tiers factory)
                  (\<lambda>fee. found (discover_v3_pool E url factory_addr token base_addr fee factory))))"

definition discover_in_factory ::
  "env \<Rightarrow> string \<Rightarrow> string \<Rightarrow> string \<Rightarrow> addr \<Rightarrow> dex_factory_config
     \<Rightarrow> (world, err, discovered_pool list) rt" where
  "discover_in_factory E url chain token_address token factory =
     rbind (of_result (ok_or ''invalid address'' (addr_parse (lib_of E) (dex_factory_address factory)))) (\<lambda>fa.
     concat_each (base_tokens_for_chain (cfg E) chain) (discover_with_base E url token_address token factory fa))"

text \<open>\<open>Vec::dedup_by\<close>: an element is dropped if it equals the last one kept.\<close>

fun dedup_by :: "('a \<Rightarrow> 'a \<Rightarrow> bool) \<Rightarrow> 'a list \<Rightarrow> 'a list" where
  "dedup_by P (x # y # xs) = (if P y x then dedup_by P (x # xs) else x # dedup_by P (y # xs))"
| "dedup_by P xs = xs"

definition same_pool :: "discovered_pool \<Rightarrow> discovered_pool \<Rightarrow> bool" where
  "same_pool a b \<longleftrightarrow> eq_ic (dp_address a) (dp_address b)"

definition unique_pools :: "discovered_pool list \<Rightarrow> discovered_pool list" where
  "unique_pools pools = dedup_by same_pool (sort_key (\<lambda>p. lower (dp_address p)) pools)"

section \<open>Prices\<close>

definition parse_amount :: "string \<Rightarrow> f64 option" where
  "parse_amount s = (if s = [] then None else opt_bind (f_parse s) (\<lambda>v. if f_lt (Fin 0) v then Some v else None))"

definition or_else :: "'a option \<Rightarrow> 'a option \<Rightarrow> 'a option" where
  "or_else a b = (case a of None \<Rightarrow> b | Some x \<Rightarrow> Some x)"

definition amount0 :: "discovered_pool \<Rightarrow> f64 option" where
  "amount0 p = or_else (opt_bind (dp_reserve0 p) parse_amount) (opt_bind (dp_balance0 p) parse_amount)"

definition amount1 :: "discovered_pool \<Rightarrow> f64 option" where
  "amount1 p = or_else (opt_bind (dp_reserve1 p) parse_amount) (opt_bind (dp_balance1 p) parse_amount)"

definition derive_price_from_pool :: "discovered_pool \<Rightarrow> bool \<Rightarrow> f64" where
  "derive_price_from_pool p derive_token0 =
     (let (known, unknown, known_price) =
            (if derive_token0 then (amount1 p, amount0 p, dp_price1 p) else (amount0 p, amount1 p, dp_price0 p))
      in case (known, unknown) of
           (Some ak, Some au) \<Rightarrow> if f_lt (Fin 0) au then f_mul (f_div ak au) known_price else Fin 0
         | _ \<Rightarrow> Fin 0)"

definition base_price :: "env \<Rightarrow> string \<Rightarrow> base_token \<Rightarrow> (world, err, (string \<times> f64) list) rt" where
  "base_price E url bt =
     (if bt_chainlink_oracle bt = [] then ret []
      else case addr_parse (lib_of E) (bt_chainlink_oracle bt) of
        None \<Rightarrow> ret []
      | Some feed \<Rightarrow>
          rbind (attempt (remote E (\<lambda>n. map_sum id fst (rpc_feed (node_of E) url feed n)))) (\<lambda>dec.
          let feed_decimals = (case dec of Inr d \<Rightarrow> unat (d :: byte) | Inl e \<Rightarrow> 8) in
          rbind (attempt (remote E (\<lambda>n. map_sum id snd (rpc_feed (node_of E) url feed n)))) (\<lambda>answer.
          ret (case answer of
                 Inl e \<Rightarrow> []
               | Inr a \<Rightarrow>
                   let price = f_div (f_of_int a) (f_powi (Fin 10) (int feed_decimals)) in
                   if f_lt (Fin 0) price then [(lower (bt_address bt), price)] else []))))"

text \<open>A later feed of the same address overwrites an earlier one.\<close>

definition fetch_base_token_prices :: "env \<Rightarrow> string \<Rightarrow> string \<Rightarrow> (world, err, string \<rightharpoonup> f64) rt" where
  "fetch_base_token_prices E url chain =
     (case map_of (chain_entries (cfg E)) chain of
        None \<Rightarrow> ret Map.empty
      | Some c \<Rightarrow> rbind (concat_each (cc_base_tokens c) (base_price E url)) (\<lambda>kvs. ret (map_of (rev kvs))))"

definition enrich :: "(string \<rightharpoonup> f64) \<Rightarrow> discovered_pool \<Rightarrow> discovered_pool" where
  "enrich prices p =
     (let p0 = opt_or (dp_price0 p) (prices (lower (dp_token0 p)));
          p1 = opt_or (dp_price1 p) (prices (lower (dp_token1 p)));
          q = p\<lparr>dp_price0 := p0, dp_price1 := p1\<rparr>
      in if f_eq p0 (Fin 0) \<and> f_lt (Fin 0) p1 then q\<lparr>dp_price0 := derive_price_from_pool q True\<rparr>
         else if f_eq p1 (Fin 0) \<and> f_lt (Fin 0) p0 then q\<lparr>dp_price1 := derive_price_from_pool q False\<rparr>
         else q)"

definition discover_pools :: "env \<Rightarrow> string \<Rightarrow> string \<Rightarrow> string \<Rightarrow> (world, err, discovered_pool list) rt" where
  "discover_pools E url chain token_address =
     rbind (of_result (ok_or ''invalid address'' (addr_parse (lib_of E) token_address))) (\<lambda>token.
     rbind (concat_each (dex_factories_for_chain (cfg E) chain) (discover_in_factory E url chain token_address token)) (\<lambda>pools.
     rbind (fetch_base_token_prices E url chain) (\<lambda>prices.
     ret (map (enrich prices) (unique_pools pools)))))"

section \<open>Lemmas\<close>

context world_rel begin

lemma keeps_concat_each: "(\<And>x. x \<in> set xs \<Longrightarrow> keeps R (f x)) \<Longrightarrow> keeps R (concat_each xs f)"
  by (induction xs) (auto intro!: keeps_ret keeps_rbind)

lemma keeps_found: "keeps R m \<Longrightarrow> keeps R (found m)"
  unfolding found_def by (intro keeps_world)

lemma keeps_discover_pools: "keeps R (discover_pools E url chain token)"
proof -
  have v2: "keeps R (found (discover_v2_pool E url fa a b f))" for fa a b f
    unfolding discover_v2_pool_def Let_def by (intro keeps_found keeps_world)
  have v3: "keeps R (found (discover_v3_pool E url fa a b fee f))" for fa a b fee f
    unfolding discover_v3_pool_def Let_def by (intro keeps_found keeps_world)
  have base: "keeps R (discover_with_base E url token a f fa b)" for a f fa b
    unfolding discover_with_base_def by (intro v2 v3 keeps_concat_each keeps_world)
  have "keeps R (base_price E url bt)" for bt
    unfolding base_price_def Let_def by (intro keeps_world)
  then have "keeps R (fetch_base_token_prices E url chain)"
    unfolding fetch_base_token_prices_def by (intro keeps_concat_each keeps_world)
  then show ?thesis
    unfolding discover_pools_def discover_in_factory_def
    by (intro base keeps_concat_each keeps_world)
qed

end

lemma yields_concat_each:
  "(\<And>x. x \<in> set xs \<Longrightarrow> yields (list_all P) (f x)) \<Longrightarrow> yields (list_all P) (concat_each xs f)"
proof (induction xs)
  case (Cons x xs)
  have hd: "yields (list_all P) (f x)" and tl: "yields (list_all P) (concat_each xs f)" using Cons by auto
  show ?case
    unfolding concat_each.simps
    by (rule yields_rbind_dep [OF hd], rule yields_rbind_dep [OF tl], rule yields_ret) simp
qed (simp add: yields_def)

lemma yields_found:
  assumes "yields (\<lambda>r. \<forall>p. r = Some p \<longrightarrow> P p) m"
  shows "yields (list_all P) (found m)"
  unfolding found_def
proof (rule yields_rbind_dep)
  show "yields (\<lambda>r. \<forall>x. r = Inr x \<longrightarrow> (\<forall>p. x = Some p \<longrightarrow> P p)) (attempt m)"
    using assms by (simp add: yields_attempt)
  show "yields (list_all P) (ret (case opt_bind (ok r) id of None \<Rightarrow> [] | Some p \<Rightarrow> [p]))"
    if "\<forall>x. r = Inr x \<longrightarrow> (\<forall>p. x = Some p \<longrightarrow> P p)" for r
    using that by (intro yields_ret) (auto simp: ok_def opt_bind_def split: option.split sum.split)
qed

lemma set_dedup_by: "set (dedup_by P xs) \<subseteq> set xs"
  by (induction P xs rule: dedup_by.induct) auto

lemma map_dedup_by:
  "(\<And>a b. P a b \<longleftrightarrow> f a = f b) \<Longrightarrow> map f (dedup_by P xs) = remdups_adj (map f xs)"
  by (induction P xs rule: dedup_by.induct) auto

lemma sorted_strict_remdups_adj: "sorted xs \<Longrightarrow> sorted_wrt (<) (remdups_adj xs)"
  by (induction xs rule: remdups_adj.induct) (auto simp: order_less_le)

definition pool_key :: "discovered_pool \<Rightarrow> string" where
  "pool_key p = lower (dp_address p)"

lemma unique_pools_keys:
  "sorted_wrt (<) (map pool_key (unique_pools pools)) \<and>
   set (map pool_key (unique_pools pools)) = set (map pool_key pools)"
proof -
  have "map pool_key (unique_pools pools) = remdups_adj (map pool_key (sort_key pool_key pools))"
    unfolding unique_pools_def pool_key_def [symmetric]
    by (rule map_dedup_by) (simp add: same_pool_def eq_ic_def pool_key_def)
  moreover have "sorted (map pool_key (sort_key pool_key pools))" by simp
  ultimately show ?thesis by (simp add: sorted_strict_remdups_adj)
qed

lemma enrich_fixed [simp]:
  "dp_address (enrich m p) = dp_address p" "dp_type (enrich m p) = dp_type p"
  "dp_dex (enrich m p) = dp_dex p" "dp_token0 (enrich m p) = dp_token0 p"
  "dp_token1 (enrich m p) = dp_token1 p" "dp_fee (enrich m p) = dp_fee p"
  by (simp_all add: enrich_def Let_def)

text \<open>A pair of tokens that is asked for: a factory of the chain at its address, and a base token that is not
  the token searched.\<close>

definition asked :: "env \<Rightarrow> string \<Rightarrow> string \<Rightarrow> dex_factory_config \<Rightarrow> addr \<Rightarrow> addr \<Rightarrow> bool" where
  "asked E chain token_address f fa b \<longleftrightarrow>
     f \<in> set (dex_factories_for_chain (cfg E) chain) \<and> addr_parse (lib_of E) (dex_factory_address f) = Some fa \<and>
     (\<exists>base \<in> set (base_tokens_for_chain (cfg E) chain). \<not> eq_ic base token_address \<and> addr_parse (lib_of E) base = Some b)"

text \<open>Where a pool comes from: its address is not zero and the answer of such a factory for the token and the
  base token, for V3 with a fee tier of that factory; the tokens of a V2 pool are those that the pool itself
  answers, those of a V3 pool the token searched and the base token.\<close>

definition comes_from :: "env \<Rightarrow> string \<Rightarrow> string \<Rightarrow> string \<Rightarrow> addr \<Rightarrow> discovered_pool \<Rightarrow> bool" where
  "comes_from E url chain token_address token p \<longleftrightarrow>
     (\<exists>f fa b pool n. asked E chain token_address f fa b \<and> pool \<noteq> 0 \<and> dp_address p = addr_debug (lib_of E) pool \<and>
        dp_dex p = dex_name f \<and> dp_type p = dex_pool_type f \<and>
        (case dex_pool_type f of
           V2 \<Rightarrow> rpc_get_pair (node_of E) url fa token b n = Inr pool \<and> dp_fee p = 0 \<and>
             (\<exists>k t0. rpc_token0 (node_of E) url pool k = Inr t0 \<and> dp_token0 p = addr_debug (lib_of E) t0) \<and>
             (\<exists>k t1. rpc_token1 (node_of E) url pool k = Inr t1 \<and> dp_token1 p = addr_debug (lib_of E) t1)
         | V3 \<Rightarrow> rpc_get_pool (node_of E) url fa token b (dp_fee p) n = Inr pool \<and>
             dp_fee p \<in> set (dex_fee_tiers f) \<and> unat (dp_fee p) < 2 ^ 24 \<and>
             dp_token0 p = addr_debug (lib_of E) token \<and> dp_token1 p = addr_debug (lib_of E) b))"

text \<open>A pool that the node steadily reports: whenever it is asked, it gives this address, and for V2 it also
  answers the tokens of the pool.\<close>

definition reported :: "env \<Rightarrow> string \<Rightarrow> string \<Rightarrow> string \<Rightarrow> addr \<Rightarrow> addr \<Rightarrow> bool" where
  "reported E url chain token_address token pool \<longleftrightarrow> pool \<noteq> 0 \<and>
     (\<exists>f fa b. asked E chain token_address f fa b \<and>
        (case dex_pool_type f of
           V2 \<Rightarrow> \<forall>n. rpc_get_pair (node_of E) url fa token b n = Inr pool \<and>
             (\<exists>t0. rpc_token0 (node_of E) url pool n = Inr t0) \<and> (\<exists>t1. rpc_token1 (node_of E) url pool n = Inr t1)
         | V3 \<Rightarrow> \<exists>fee \<in> set (dex_fee_tiers f). unat fee < 2 ^ 24 \<and>
             (\<forall>n. rpc_get_pool (node_of E) url fa token b fee n = Inr pool)))"

lemma v2_comes_from:
  assumes "asked E chain token_address f fa b" "dex_pool_type f = V2"
  shows "yields (\<lambda>r. \<forall>p. r = Some p \<longrightarrow> comes_from E url chain token_address token p) (discover_v2_pool E url fa token b f)"
  unfolding yields_def
proof (intro allI impI)
  fix s x t p
  assume "discover_v2_pool E url fa token b f s = (Inr x, t)" "x = Some p"
  then obtain n pool k0 t0 k1 t1 where "rpc_get_pair (node_of E) url fa token b n = Inr pool" "pool \<noteq> 0"
      "rpc_token0 (node_of E) url pool k0 = Inr t0" "rpc_token1 (node_of E) url pool k1 = Inr t1"
      "dp_address p = addr_debug (lib_of E) pool" "dp_dex p = dex_name f" "dp_type p = V2" "dp_fee p = 0"
      "dp_token0 p = addr_debug (lib_of E) t0" "dp_token1 p = addr_debug (lib_of E) t1"
    by (auto simp: discover_v2_pool_def Let_def rbind_Inr_iff remote_def split: if_splits)
  with assms show "comes_from E url chain token_address token p"
    unfolding comes_from_def by (intro exI [of _ f] exI [of _ fa] exI [of _ b] exI [of _ pool] exI [of _ n]) auto
qed

lemma v3_comes_from:
  assumes "asked E chain token_address f fa b" "dex_pool_type f = V3" "fee \<in> set (dex_fee_tiers f)"
  shows "yields (\<lambda>r. \<forall>p. r = Some p \<longrightarrow> comes_from E url chain token_address token p) (discover_v3_pool E url fa token b fee f)"
  unfolding yields_def
proof (intro allI impI)
  fix s x t p
  assume run: "discover_v3_pool E url fa token b fee f s = (Inr x, t)" "x = Some p"
  then have "\<not> 0x00FFFFFF < fee" by (auto simp: discover_v3_pool_def Let_def)
  then have fee: "unat fee < 2 ^ 24" by (simp add: word_less_nat_alt)
  from run obtain n pool where "rpc_get_pool (node_of E) url fa token b fee n = Inr pool" "pool \<noteq> 0"
      "dp_address p = addr_debug (lib_of E) pool" "dp_dex p = dex_name f" "dp_type p = V3" "dp_fee p = fee"
      "dp_token0 p = addr_debug (lib_of E) token" "dp_token1 p = addr_debug (lib_of E) b"
    by (auto simp: discover_v3_pool_def Let_def rbind_Inr_iff remote_def split: if_splits)
  with assms fee show "comes_from E url chain token_address token p"
    unfolding comes_from_def by (intro exI [of _ f] exI [of _ fa] exI [of _ b] exI [of _ pool] exI [of _ n]) simp
qed

lemma found_comes_from:
  assumes f: "f \<in> set (dex_factories_for_chain (cfg E) chain)" "addr_parse (lib_of E) (dex_factory_address f) = Some fa"
    and base: "base \<in> set (base_tokens_for_chain (cfg E) chain)"
  shows "yields (list_all (comes_from E url chain token_address token)) (discover_with_base E url token_address token f fa base)"
proof (cases "eq_ic base token_address \<or> addr_parse (lib_of E) base = None")
  case True
  then show ?thesis by (auto simp: discover_with_base_def yields_def ok_or_def rbind_Inr_iff)
next
  case False
  then obtain b where b: "addr_parse (lib_of E) base = Some b" "\<not> eq_ic base token_address" by auto
  then have "asked E chain token_address f fa b" using f base by (auto simp: asked_def)
  note sound = v2_comes_from [OF this] v3_comes_from [OF this]
  have "discover_with_base E url token_address token f fa base =
      (case dex_pool_type f of
          V2 \<Rightarrow> found (discover_v2_pool E url fa token b f)
        | V3 \<Rightarrow> concat_each (dex_fee_tiers f) (\<lambda>fee. found (discover_v3_pool E url fa token b fee f)))"
    by (simp add: discover_with_base_def b ok_or_def rbind_def of_result_def fun_eq_iff)
  then show ?thesis
    by (cases "dex_pool_type f") (use sound in \<open>auto intro!: yields_found yields_concat_each\<close>)
qed

lemma factory_comes_from:
  assumes "f \<in> set (dex_factories_for_chain (cfg E) chain)"
  shows "yields (list_all (comes_from E url chain token_address token)) (discover_in_factory E url chain token_address token f)"
proof (cases "addr_parse (lib_of E) (dex_factory_address f)")
  case None
  then show ?thesis by (auto simp: discover_in_factory_def yields_def ok_or_def rbind_Inr_iff)
next
  case (Some fa)
  have "discover_in_factory E url chain token_address token f =
      concat_each (base_tokens_for_chain (cfg E) chain) (discover_with_base E url token_address token f fa)"
    by (simp add: discover_in_factory_def Some ok_or_def rbind_def of_result_def fun_eq_iff)
  then show ?thesis using found_comes_from [OF assms Some] by (auto intro: yields_concat_each)
qed

text \<open>Every element of a list that is searched contributes what it finds.\<close>

lemma concat_each_in:
  "concat_each xs f s = (Inr ys, t) \<Longrightarrow> x \<in> set xs \<Longrightarrow> \<exists>u v zs. f x u = (Inr zs, v) \<and> set zs \<subseteq> set ys"
proof (induction xs arbitrary: s ys t)
  case (Cons a xs)
  then obtain as u bs where "f a s = (Inr as, u)" "concat_each xs f u = (Inr bs, t)" "ys = as @ bs"
    by (auto simp: rbind_Inr_iff)
  then show ?case using Cons.IH [of u bs t] Cons.prems(2) by (cases "x = a") fastforce+
qed simp

lemma found_run: "m s = (Inr (Some p), t) \<Longrightarrow> found m s = (Inr [p], t)"
  by (simp add: found_def rbind_def attempt_def ret_def ok_def opt_bind_def)

lemma v2_reports:
  assumes "\<forall>n. rpc_get_pair (node_of E) url fa token b n = Inr pool \<and>
      (\<exists>t0. rpc_token0 (node_of E) url pool n = Inr t0) \<and> (\<exists>t1. rpc_token1 (node_of E) url pool n = Inr t1)" "pool \<noteq> 0"
  shows "\<exists>p t. discover_v2_pool E url fa token b f s = (Inr (Some p), t) \<and> dp_address p = addr_debug (lib_of E) pool"
proof -
  obtain t0 t1 where "\<And>n. rpc_token0 (node_of E) url pool n = Inr (t0 n)" "\<And>n. rpc_token1 (node_of E) url pool n = Inr (t1 n)"
    using assms(1) by metis
  then show ?thesis
    using assms by (simp add: discover_v2_pool_def rbind_def remote_def attempt_def ret_def Let_def split: prod.split)
qed

lemma v3_reports:
  assumes "\<forall>n. rpc_get_pool (node_of E) url fa token b fee n = Inr pool" "pool \<noteq> 0" "unat fee < 2 ^ 24"
  shows "\<exists>p t. discover_v3_pool E url fa token b fee f s = (Inr (Some p), t) \<and> dp_address p = addr_debug (lib_of E) pool"
proof -
  have "\<not> 0x00FFFFFF < fee" using assms(3) by (simp add: word_less_nat_alt)
  then show ?thesis
    using assms(1,2) by (simp add: discover_v3_pool_def rbind_def remote_def attempt_def ret_def Let_def)
qed

lemma reported_found:
  assumes run: "concat_each (dex_factories_for_chain (cfg E) chain) (discover_in_factory E url chain token_address token) s = (Inr raw, t)"
    and rep: "reported E url chain token_address token pool"
  shows "\<exists>p \<in> set raw. dp_address p = addr_debug (lib_of E) pool"
proof -
  have nz: "pool \<noteq> 0" using rep by (simp add: reported_def)
  from rep obtain f fa b where asks: "asked E chain token_address f fa b"
    and node: "case dex_pool_type f of
           V2 \<Rightarrow> \<forall>n. rpc_get_pair (node_of E) url fa token b n = Inr pool \<and>
             (\<exists>t0. rpc_token0 (node_of E) url pool n = Inr t0) \<and> (\<exists>t1. rpc_token1 (node_of E) url pool n = Inr t1)
         | V3 \<Rightarrow> \<exists>fee \<in> set (dex_fee_tiers f). unat fee < 2 ^ 24 \<and>
             (\<forall>n. rpc_get_pool (node_of E) url fa token b fee n = Inr pool)"
    unfolding reported_def by (elim conjE exE)
  from asks have f: "f \<in> set (dex_factories_for_chain (cfg E) chain)" "addr_parse (lib_of E) (dex_factory_address f) = Some fa"
    by (simp_all add: asked_def)
  from asks obtain base where base: "base \<in> set (base_tokens_for_chain (cfg E) chain)" "\<not> eq_ic base token_address"
      "addr_parse (lib_of E) base = Some b"
    by (auto simp: asked_def)
  obtain u v ys where "discover_in_factory E url chain token_address token f u = (Inr ys, v)" and ys: "set ys \<subseteq> set raw"
    using concat_each_in [OF run f(1)] by blast
  then have "concat_each (base_tokens_for_chain (cfg E) chain) (discover_with_base E url token_address token f fa) u = (Inr ys, v)"
    by (simp add: discover_in_factory_def f(2) ok_or_def rbind_def of_result_def)
  from concat_each_in [OF this base(1)] obtain u' v' zs where
    found: "discover_with_base E url token_address token f fa base u' = (Inr zs, v')" and zs: "set zs \<subseteq> set ys" by blast
  have "\<exists>p \<in> set zs. dp_address p = addr_debug (lib_of E) pool"
  proof (cases "dex_pool_type f")
    case V2
    obtain p w where p: "discover_v2_pool E url fa token b f u' = (Inr (Some p), w)" "dp_address p = addr_debug (lib_of E) pool"
      using v2_reports [OF node [unfolded V2 pool_type.case] nz] by blast
    then have "zs = [p]"
      using found found_run [of "discover_v2_pool E url fa token b f", OF p(1)] by (simp add: discover_with_base_def base(2,3) ok_or_def rbind_def of_result_def V2)
    with p(2) show ?thesis by simp
  next
    case V3
    then obtain fee where fee: "fee \<in> set (dex_fee_tiers f)" "unat fee < 2 ^ 24"
      "\<forall>n. rpc_get_pool (node_of E) url fa token b fee n = Inr pool"
      using node by auto
    have "concat_each (dex_fee_tiers f) (\<lambda>fee. found (discover_v3_pool E url fa token b fee f)) u' = (Inr zs, v')"
      using found by (simp add: discover_with_base_def base(2,3) ok_or_def rbind_def of_result_def V3)
    from concat_each_in [OF this fee(1)] obtain w w' qs where
      qs: "found (discover_v3_pool E url fa token b fee f) w = (Inr qs, w')" "set qs \<subseteq> set zs" by blast
    obtain p w2 where p: "discover_v3_pool E url fa token b fee f w = (Inr (Some p), w2)" "dp_address p = addr_debug (lib_of E) pool"
      using v3_reports [OF fee(3) nz fee(2)] by blast
    with found_run [of "discover_v3_pool E url fa token b fee f", OF p(1)] qs show ?thesis by auto
  qed
  then show ?thesis using ys zs by blast
qed

text \<open>C36: Discovery lists every pool once, in the order of the lower-case address, and only pools whose address is
  not zero and was answered by a factory configured for the chain to the question for the token and a base token (and a
  fee tier of that factory); it lists every pool that the node steadily reports to one of these questions; and it
  changes no table.  A V2 pool lists its own tokens, while a V3 pool always lists the token asked for as its first
  token, whatever the order of the tokens in the pool.\<close>

theorem discover_pools_correct:
  assumes "discover_pools E url chain token_address s = (Inr pools, t)"
  shows "sorted_wrt (<) (map pool_key pools) \<and> same_tables s t \<and>
     (\<exists>token. addr_parse (lib_of E) token_address = Some token \<and>
        list_all (comes_from E url chain token_address token) pools \<and>
        (\<forall>pool. reported E url chain token_address token pool \<longrightarrow>
           lower (addr_debug (lib_of E) pool) \<in> set (map pool_key pools)))"
proof (intro conjI)
  obtain token raw prices s1 s2 where tok: "addr_parse (lib_of E) token_address = Some token"
    and raw: "concat_each (dex_factories_for_chain (cfg E) chain) (discover_in_factory E url chain token_address token) s = (Inr raw, s1)"
    and pools: "pools = map (enrich prices) (unique_pools raw)"
    using assms by (auto simp: discover_pools_def rbind_Inr_iff)
  have keys: "map pool_key pools = map pool_key (unique_pools raw)"
    by (simp add: pools pool_key_def)
  then show "sorted_wrt (<) (map pool_key pools)" using unique_pools_keys by simp
  have "list_all (comes_from E url chain token_address token) raw"
    using yieldsD [OF yields_concat_each [OF factory_comes_from] raw] .
  moreover have "set (unique_pools raw) \<subseteq> set raw"
    using set_dedup_by unfolding unique_pools_def by fastforce
  moreover have "comes_from E url chain token_address token (enrich prices p) = comes_from E url chain token_address token p" for p
    unfolding comes_from_def enrich_fixed ..
  ultimately have "list_all (comes_from E url chain token_address token) pools"
    by (auto simp: pools list_all_iff)
  moreover have "lower (addr_debug (lib_of E) pool) \<in> set (map pool_key pools)"
    if "reported E url chain token_address token pool" for pool
    using reported_found [OF raw that] unfolding keys conjunct2 [OF unique_pools_keys] by (auto simp: pool_key_def image_iff) metis
  ultimately show "\<exists>token. addr_parse (lib_of E) token_address = Some token \<and>
        list_all (comes_from E url chain token_address token) pools \<and>
        (\<forall>pool. reported E url chain token_address token pool \<longrightarrow>
           lower (addr_debug (lib_of E) pool) \<in> set (map pool_key pools))"
    using tok by blast
  show "same_tables s t" using keepsD [OF tab.keeps_discover_pools assms] .
qed

theorem discover_pools_correct_witness:
  "\<exists>pools t. discover_pools sample_env ''http://node'' ''bsc'' ''0x0000000000000000000000000000000000000001'' empty_world
     = (Inr pools, t) \<and> sorted_wrt (<) (map pool_key pools) \<and>
     lower (addr_debug (lib_of sample_env) 0xaa) \<in> set (map pool_key pools)"
proof -
  let ?m = "discover_pools sample_env ''http://node'' ''bsc'' ''0x0000000000000000000000000000000000000001'' empty_world"
  have conf: "dex_factories_for_chain sample_settings ''bsc'' = cc_dex_factories sample_chain"
    "base_tokens_for_chain sample_settings ''bsc'' = [''0x0000000000000000000000000000000000000002'']"
    "map_of (chain_entries sample_settings) ''bsc'' = Some sample_chain"
    by code_simp+
  have parse: "addr_parse sample_lib ''0x0000000000000000000000000000000000000001'' = Some 1"
    "addr_parse sample_lib ''0x0000000000000000000000000000000000000002'' = Some 2"
    "addr_parse sample_lib ''0x00000000000000000000000000000000000000fa'' = Some 0xfa"
    "addr_parse sample_lib ''0x0000000000000000000000000000000000000009'' = Some 9"
    "eq_ic ''0x0000000000000000000000000000000000000002'' ''0x0000000000000000000000000000000000000001'' = False"
    by code_simp+
  have "\<not> isl (fst ?m)"
    by (simp add: discover_pools_def conf parse rbind_def of_result_def ok_or_def sample_chain_def
        discover_in_factory_def discover_with_base_def found_def attempt_def discover_v2_pool_def remote_def
        ret_def Let_def fetch_base_token_prices_def base_price_def sample_parts)
  then obtain pools t where run: "?m = (Inr pools, t)" by (cases ?m; cases "fst ?m") auto
  have "reported sample_env ''http://node'' ''bsc'' ''0x0000000000000000000000000000000000000001'' 1 0xaa"
    unfolding reported_def asked_def
    by (intro conjI exI [of _ "hd (cc_dex_factories sample_chain)"] exI [of _ "0xfa"] exI [of _ "2"] bexI)
      (simp_all add: conf parse sample_chain_def sample_env_def sample_node_def)
  moreover have "addr_parse (lib_of sample_env) ''0x0000000000000000000000000000000000000001'' = Some 1"
    using parse(1) by (simp add: sample_parts)
  ultimately show ?thesis using discover_pools_correct [OF run] run by auto
qed

end
