(* ===== verification/Paths.thy ===== *)
theory Paths
  imports Pools Route "HOL-Library.Multiset"
begin

text \<open>
  Swap paths of the session service (\<open>crates/session-api/src/main.rs\<close>): checking the route of a
  pool, one- and two-hop paths from the pools of the sell and the target token, their scores and
  ranking, the default route of a pool, and the cache of computed paths.
\<close>

section \<open>Checking a submitted route\<close>

text \<open>The \<open>?\<close> operator on plain results.\<close>

definition sbind :: "'e + 'a \<Rightarrow> ('a \<Rightarrow> 'e + 'b) \<Rightarrow> 'e + 'b" where
  [rt_simps]: "sbind r f = (case r of Inl e \<Rightarrow> Inl e | Inr x \<Rightarrow> f x)"

lemma sbind_Inr: "sbind r f = Inr y \<longleftrightarrow> (\<exists>x. r = Inr x \<and> f x = Inr y)"
  by (simp add: sbind_def split: sum.split)

definition ensure :: "'e \<Rightarrow> bool \<Rightarrow> 'e + unit" where
  [rt_simps]: "ensure e b = (if b then Inr () else Inl e)"

lemma ensure_Inr [simp]: "ensure e b = Inr u \<longleftrightarrow> b"
  by (simp add: ensure_def)

definition parse_pool_swap_path_json :: "lib \<Rightarrow> string \<Rightarrow> string \<Rightarrow> status + json" where
  "parse_pool_swap_path_json L path pool_address =
     (let trimmed = trim path; bad = Pair InvalidArgument in
      sbind (ensure (bad ''Pool swap_path_json is required for every selected pool'') (trimmed \<noteq> [])) (\<lambda>_.
      sbind (ok_or (bad ''Invalid pool swap_path_json'') (json_parse L trimmed)) (\<lambda>v.
      sbind (ok_or (bad ''Pool route must include hops'') (opt_bind (j_get ''hops'' v) j_array)) (\<lambda>hops.
      sbind (ensure (bad ''Pool route must include at least one hop'') (hops \<noteq> [])) (\<lambda>_.
      sbind (ok_or (bad ''Pool route first hop must be a string'') (j_str (hd hops))) (\<lambda>first_hop.
      sbind (ensure (bad ''Pool route first hop must match pool_address'') (eq_ic first_hop pool_address)) (\<lambda>_.
      sbind (ok_or (bad ''Pool route must include hop_tokens'') (opt_bind (j_get ''hop_tokens'' v) j_array)) (\<lambda>hop_tokens.
      sbind (ensure (bad ''Pool route hop_tokens length must equal hops length + 1'')
               (length hop_tokens = length hops + 1)) (\<lambda>_.
      Inr v)))))))))"

section \<open>Scores\<close>

definition fee_percent_from_tier :: "u32 \<Rightarrow> f64" where
  "fee_percent_from_tier fee = (if 0 < fee then f_div (f_of_int (uint fee)) (Fin 10000) else rnd (3 / 10))"

definition adjusted_output :: "string \<Rightarrow> f64 \<Rightarrow> f64 \<Rightarrow> string" where
  "adjusted_output raw_amount fee_percent amount =
     (if is_finite amount \<and> f_lt (Fin 0) amount
      then f_show_fixed 0 (f_max (f_mul amount (f_sub (Fin 1) (f_div fee_percent (Fin 100)))) (Fin 0))
      else raw_amount)"

definition estimate_output :: "string option \<Rightarrow> f64 \<Rightarrow> string" where
  "estimate_output amount_hint fee_percent =
     (case map_option trim amount_hint of
        None \<Rightarrow> ''0''
      | Some raw_amount \<Rightarrow>
          if raw_amount = [] then ''0''
          else opt_or raw_amount (map_option (adjusted_output raw_amount fee_percent) (f_parse raw_amount)))"

definition estimate_price_impact :: "nat \<Rightarrow> f64 \<Rightarrow> f64" where
  "estimate_price_impact hop_count fee_percent =
     f_add (f_mul (f_of_int (int (max hop_count 1))) (rnd (1 / 10))) (f_mul fee_percent (rnd (1 / 2)))"

section \<open>Paths\<close>

definition other_token_in_pool :: "string \<Rightarrow> string \<Rightarrow> string \<Rightarrow> string option" where
  "other_token_in_pool sell_token token0 token1 =
     (if eq_ic token0 sell_token then Some token1
      else if eq_ic token1 sell_token then Some token0 else None)"

definition bridges :: "string \<Rightarrow> string \<Rightarrow> discovered_pool \<Rightarrow> bool" where
  "bridges other target p \<longleftrightarrow>
     (lower (dp_token0 p) = lower other \<and> lower (dp_token1 p) = lower target) \<or>
     (lower (dp_token1 p) = lower other \<and> lower (dp_token0 p) = lower target)"

text \<open>\<open>Iterator::min_by\<close> keeps the first of equally small elements.\<close>

fun min_fee :: "discovered_pool list \<Rightarrow> discovered_pool option" where
  "min_fee [] = None"
| "min_fee (p # ps) = Some (foldl (\<lambda>b q.
     if f_lt (fee_percent_from_tier (dp_fee q)) (fee_percent_from_tier (dp_fee b)) then q else b) p ps)"

definition build_swap_path ::
  "string \<Rightarrow> string \<Rightarrow> string \<Rightarrow> u32 \<Rightarrow> string \<Rightarrow> string \<Rightarrow> discovered_pool list \<Rightarrow> string option
     \<Rightarrow> swap_path option" where
  "build_swap_path pool_address token0 token1 fee_tier sell_token target_token target_pools amount_hint =
     opt_bind (other_token_in_pool sell_token token0 token1) (\<lambda>other_token.
     let direct_fee = fee_percent_from_tier fee_tier in
     if eq_ic token0 target_token \<or> eq_ic token1 target_token then
       Some \<lparr>sw_rank = 0, sw_hops = [pool_address], sw_hop_tokens = [sell_token, target_token],
         sw_output = estimate_output amount_hint direct_fee,
         sw_impact = estimate_price_impact 1 direct_fee, sw_fee = direct_fee\<rparr>
     else
       opt_bind (min_fee (filter (bridges other_token target_token) target_pools)) (\<lambda>bridge.
       let total_fee = f_add direct_fee (fee_percent_from_tier (dp_fee bridge)) in
       Some \<lparr>sw_rank = 0, sw_hops = [pool_address, dp_address bridge],
         sw_hop_tokens = [sell_token, other_token, target_token],
         sw_output = estimate_output amount_hint total_fee,
         sw_impact = estimate_price_impact 2 total_fee, sw_fee = total_fee\<rparr>))"

definition path_score :: "swap_path \<Rightarrow> f64" where
  "path_score p = f_add (sw_impact p) (sw_fee p)"

text \<open>A stable sort; scores that do not compare count as equal.\<close>

definition path_less :: "swap_path \<Rightarrow> swap_path \<Rightarrow> bool" where
  "path_less a b \<longleftrightarrow> f_lt (path_score a) (path_score b)"

fun insert_path :: "swap_path \<Rightarrow> swap_path list \<Rightarrow> swap_path list" where
  "insert_path p [] = [p]"
| "insert_path p (q # qs) = (if path_less q p then q # insert_path p qs else p # q # qs)"

definition sort_paths :: "swap_path list \<Rightarrow> swap_path list" where
  "sort_paths ps = foldr insert_path ps []"

definition path_key :: "swap_path \<Rightarrow> string" where
  "path_key p = join '','' (sw_hops p) @ ''|'' @ join '','' (sw_hop_tokens p)"

fun dedupe_loop :: "string list \<Rightarrow> swap_path list \<Rightarrow> swap_path list" where
  "dedupe_loop seen [] = []"
| "dedupe_loop seen (p # ps) =
     (if path_key p \<in> set seen then dedupe_loop seen ps else p # dedupe_loop (path_key p # seen) ps)"

definition dedupe_paths :: "swap_path list \<Rightarrow> swap_path list" where
  "dedupe_paths ps = dedupe_loop [] ps"

definition rank_paths :: "swap_path list \<Rightarrow> swap_path list" where
  "rank_paths ps = map (\<lambda>(i, p). p\<lparr>sw_rank := of_nat (i + 1)\<rparr>) (enumerate 0 (take 5 (sort_paths (dedupe_paths ps))))"

definition path_of_pool :: "string \<Rightarrow> string \<Rightarrow> discovered_pool list \<Rightarrow> string \<Rightarrow> discovered_pool \<Rightarrow> swap_path option" where
  "path_of_pool sell target target_pools amount p =
     build_swap_path (dp_address p) (dp_token0 p) (dp_token1 p) (dp_fee p) sell target target_pools (Some amount)"

definition get_swap_paths ::
  "env \<Rightarrow> string \<Rightarrow> string \<Rightarrow> string \<Rightarrow> string \<Rightarrow> (world, status, swap_path list) rt" where
  "get_swap_paths E chain sell_token0 target_token0 amount =
     (let sell = normalize_token_for_chain (cfg E) chain sell_token0;
          target = normalize_token_for_chain (cfg E) chain target_token0;
          url = sa_evm_rpc_url (session_api (cfg E)) in
      if \<not> url_ok (lib_of E) url then fail (Internal, ''Invalid RPC URL'')
      else
        rbind (status_err Internal ''Pool discovery failed: '' (discover_pools E url chain sell)) (\<lambda>sell_pools.
        rbind (if eq_ic sell target then ret []
               else status_err Internal ''Pool discovery failed: '' (discover_pools E url chain target)) (\<lambda>target_pools.
        ret (rank_paths (List.map_filter (path_of_pool sell target target_pools amount) sell_pools)))))"

section \<open>The default route of a pool\<close>

definition route_json :: "string list \<Rightarrow> string list \<Rightarrow> u32 list \<Rightarrow> json" where
  "route_json hops hop_tokens fees =
     JObj [(''hops'', JArr (map JStr hops)), (''hop_tokens'', JArr (map JStr hop_tokens)),
           (''fee_tiers'', JArr (map (\<lambda>f. JPos (ucast f)) fees))]"

definition default_route :: "discovered_pool \<Rightarrow> string \<Rightarrow> json" where
  "default_route p token_address =
     (let (from_token, to_token) =
            (if eq_ic (dp_token0 p) token_address then (dp_token0 p, dp_token1 p)
             else if eq_ic (dp_token1 p) token_address then (dp_token1 p, dp_token0 p)
             else (dp_token0 p, dp_token1 p));
          fee_tiers = (if dp_type p = V3 then [dp_fee p] else [])
      in route_json [dp_address p] [from_token, to_token] fee_tiers)"

definition build_default_pool_swap_path_json :: "lib \<Rightarrow> discovered_pool \<Rightarrow> string \<Rightarrow> string" where
  "build_default_pool_swap_path_json L p token_address = json_show L (default_route p token_address)"

definition pool_info_of :: "env \<Rightarrow> string \<Rightarrow> discovered_pool \<Rightarrow> pool_info" where
  "pool_info_of E token_address p =
     \<lparr>pi_address = dp_address p, pi_type = show_pool_type (dp_type p), pi_dex = dp_dex p,
      pi_token0 = dp_token0 p, pi_token1 = dp_token1 p, pi_fee = dp_fee p,
      pi_reserve0 = opt_or [] (dp_reserve0 p), pi_reserve1 = opt_or [] (dp_reserve1 p),
      pi_liquidity = opt_or [] (dp_liquidity p), pi_balance0 = opt_or [] (dp_balance0 p),
      pi_balance1 = opt_or [] (dp_balance1 p), pi_price0 = dp_price0 p, pi_price1 = dp_price1 p,
      pi_path_json = build_default_pool_swap_path_json (lib_of E) p token_address\<rparr>"

definition discover_pools_rpc :: "env \<Rightarrow> string \<Rightarrow> string \<Rightarrow> (world, status, pool_info list) rt" where
  "discover_pools_rpc E chain token0 =
     (let token = normalize_token_for_chain (cfg E) chain token0;
          url = sa_evm_rpc_url (session_api (cfg E)) in
      if \<not> url_ok (lib_of E) url then fail (Internal, ''Invalid RPC URL configured'')
      else
        rbind (status_err Internal ''Pool discovery failed: '' (discover_pools E url chain token)) (\<lambda>pools.
        ret (map (pool_info_of E token) pools)))"

section \<open>The path of one pool, cached\<close>

type_synonym path_cache_key = "string \<times> string \<times> string \<times> string"

record cached_path =
  cp_path :: "swap_path option"
  cp_inserted_at :: nat

type_synonym path_cache = "path_cache_key \<rightharpoonup> cached_path"

definition cache_get :: "path_cache \<Rightarrow> path_cache_key \<Rightarrow> cached_path option" where
  "cache_get cache k = cache k"

definition cache_insert :: "path_cache \<Rightarrow> path_cache_key \<Rightarrow> cached_path \<Rightarrow> path_cache" where
  "cache_insert cache k v = cache(k \<mapsto> v)"

record pool_path_request =
  pq_chain :: string
  pq_pool :: string
  pq_token0 :: string
  pq_token1 :: string
  pq_fee :: u32
  pq_sell :: string
  pq_target :: string

definition pool_path_cache_ttl_secs :: nat where
  "pool_path_cache_ttl_secs = 300"

definition fresh_entry :: "nat \<Rightarrow> cached_path \<Rightarrow> bool" where
  "fresh_entry tm c \<longleftrightarrow> (tm - cp_inserted_at c) div 1000 < pool_path_cache_ttl_secs"

definition norm_of :: "env \<Rightarrow> pool_path_request \<Rightarrow> string \<Rightarrow> string" where
  "norm_of E req token = normalize_token_for_chain (cfg E) (pq_chain req) token"

definition cache_key_of :: "env \<Rightarrow> pool_path_request \<Rightarrow> path_cache_key" where
  "cache_key_of E req =
     (lower (pq_chain req), lower (pq_pool req), lower (norm_of E req (pq_sell req)),
      lower (norm_of E req (pq_target req)))"

definition compute_path_miss ::
  "env \<Rightarrow> path_cache \<Rightarrow> pool_path_request \<Rightarrow> (world, status, swap_path option \<times> path_cache) rt" where
  "compute_path_miss E cache req =
     (let url = sa_evm_rpc_url (session_api (cfg E)); target = norm_of E req (pq_target req) in
      if \<not> url_ok (lib_of E) url then fail (Internal, ''Invalid RPC URL'')
      else
        rbind (status_err Internal ''Pool discovery failed: '' (discover_pools E url (pq_chain req) target)) (\<lambda>second_pools.
        let path = map_option (\<lambda>p. p\<lparr>sw_rank := 1\<rparr>)
              (build_swap_path (pq_pool req) (norm_of E req (pq_token0 req)) (norm_of E req (pq_token1 req))
                 (pq_fee req) (norm_of E req (pq_sell req)) target second_pools None) in
        rbind (gets clock) (\<lambda>tm.
        ret (path, cache_insert cache (cache_key_of E req) \<lparr>cp_path = path, cp_inserted_at = tm\<rparr>))))"

definition compute_pool_path ::
  "env \<Rightarrow> path_cache \<Rightarrow> pool_path_request \<Rightarrow> (world, status, swap_path option \<times> path_cache) rt" where
  "compute_pool_path E cache req =
     (if other_token_in_pool (norm_of E req (pq_sell req)) (norm_of E req (pq_token0 req)) (norm_of E req (pq_token1 req)) = None
      then fail (InvalidArgument, ''Sell token not found in pool's token pair'')
      else
        rbind (gets clock) (\<lambda>tm.
        case cache_get cache (cache_key_of E req) of
          Some c \<Rightarrow> if fresh_entry tm c then ret (cp_path c, cache) else compute_path_miss E cache req
        | None \<Rightarrow> compute_path_miss E cache req))"

section \<open>Lemmas\<close>

interpretation path_cache: kv_cache cache_get cache_insert "(=)"
  by unfold_locales (auto simp: cache_get_def cache_insert_def)

text \<open>A path starts with the token sold, ends with the target, and has one token more than hops.\<close>

definition good_path :: "string \<Rightarrow> string \<Rightarrow> swap_path \<Rightarrow> bool" where
  "good_path sell target p \<longleftrightarrow>
     sw_hops p \<noteq> [] \<and> length (sw_hops p) \<le> 2 \<and> length (sw_hop_tokens p) = length (sw_hops p) + 1 \<and>
     hd (sw_hop_tokens p) = sell \<and> last (sw_hop_tokens p) = target"

lemma build_swap_path_good:
  "build_swap_path a t0 t1 fee sell target pools h = Some p \<Longrightarrow> good_path sell target p"
  by (auto simp: build_swap_path_def good_path_def Let_def split: if_splits)

lemma min_fee_in: "min_fee ps = Some p \<Longrightarrow> p \<in> set ps"
proof -
  have *: "foldl (\<lambda>b q. if f_lt (g q) (g b) then q else b) p qs \<in> insert p (set qs)"
    for g :: "discovered_pool \<Rightarrow> f64" and p qs
  proof (induction qs arbitrary: p)
    case (Cons a qs)
    show ?case using Cons [of "if f_lt (g a) (g p) then a else p"] by (auto split: if_splits)
  qed simp
  show "min_fee ps = Some p \<Longrightarrow> p \<in> set ps"
    using * [of "\<lambda>q. fee_percent_from_tier (dp_fee q)"] by (cases ps) auto
qed

lemma mset_insert_path: "mset (insert_path p qs) = add_mset p (mset qs)"
  by (induction qs) auto

lemma mset_sort_paths: "mset (sort_paths ps) = mset ps"
  by (induction ps) (auto simp: sort_paths_def mset_insert_path)

lemma set_sort_paths: "set (sort_paths ps) = set ps"
  using mset_sort_paths by (metis set_mset_mset)

lemma path_less_total_order:
  assumes "\<forall>p \<in> set (x # y # z # []). is_finite (path_score p)"
  shows "\<not> path_less x y \<Longrightarrow> \<not> path_less y z \<Longrightarrow> \<not> path_less x z"
  using assms unfolding path_less_def
  by (cases "path_score x"; cases "path_score y"; cases "path_score z") auto

lemma sorted_insert_path:
  "\<forall>q \<in> set (p # qs). is_finite (path_score q) \<Longrightarrow>
    sorted_wrt (\<lambda>a b. \<not> path_less b a) qs \<Longrightarrow> sorted_wrt (\<lambda>a b. \<not> path_less b a) (insert_path p qs)"
proof (induction qs)
  case (Cons q qs)
  have set: "set (insert_path p qs) = insert p (set qs)"
    using mset_insert_path by (metis set_mset_add_mset_insert set_mset_mset)
  show ?case
  proof (cases "path_less q p")
    case True
    then have "\<not> path_less p q"
      using Cons.prems(1) unfolding path_less_def by (cases "path_score p"; cases "path_score q") auto
    then show ?thesis using True Cons set by auto
  next
    case False
    have "\<not> path_less r p" if "r \<in> set qs" for r
      using path_less_total_order [of r q p] Cons.prems that False by auto
    then show ?thesis using False Cons.prems by auto
  qed
qed simp

lemma sorted_sort_paths:
  "\<forall>p \<in> set ps. is_finite (path_score p) \<Longrightarrow> sorted_wrt (\<lambda>a b. \<not> path_less b a) (sort_paths ps)"
proof (induction ps)
  case (Cons p ps)
  then show ?case
    using sorted_insert_path [of p "sort_paths ps"] set_sort_paths [of ps] by (simp add: sort_paths_def)
qed (simp add: sort_paths_def)

lemma dedupe_loop_props:
  "set (dedupe_loop seen ps) \<subseteq> set ps \<and> distinct (map path_key (dedupe_loop seen ps)) \<and>
     path_key ` set (dedupe_loop seen ps) = path_key ` set ps - set seen"
  by (induction seen ps rule: dedupe_loop.induct) auto

lemma fee_percent_within: "f_within 34359738368 (fee_percent_from_tier fee)"
proof (cases "0 < fee")
  case True
  obtain n where n: "uint fee = n" "n < 2 ^ 32" "0 \<le> n" using uint_lt2p [of fee] by simp
  then have "f_of_int n = Fin (of_int n)" using rnd_int_exact [of n] by (simp add: f_of_int_def)
  moreover have "f_within (2 * 2 ^ 32 + 1) (rnd (of_int n / 10000))"
  proof (rule f_within_rnd)
    have "rat_of_int n < 2 ^ 32" using n by (metis of_int_less_iff of_int_numeral of_int_power)
    then show "\<bar>rat_of_int n / 10000\<bar> \<le> 2 ^ 32" using n(3) by simp
  qed (simp add: pow2_power_int)
  ultimately show ?thesis
    using True n by (auto simp: fee_percent_from_tier_def elim!: f_within_mono)
next
  case False
  have "f_within (2 * (3 / 10) + 1) (rnd (3 / 10))"
    by (rule f_within_rnd) (simp_all add: pow2_power_int)
  then show ?thesis using False by (auto simp: fee_percent_from_tier_def elim!: f_within_mono)
qed

lemma path_score_within:
  assumes "f_within (2 ^ 40) fee" "n \<le> 2"
  shows "is_finite (f_add (estimate_price_impact n fee) fee)"
proof -
  have tenth: "f_within (2 * 1 + 1) (rnd (1 / 10))"
    by (rule f_within_rnd) (simp_all add: pow2_power_int)
  have half: "f_within (2 * 1 + 1) (rnd (1 / 2))"
    by (rule f_within_rnd) (simp_all add: pow2_power_int)
  have "n = 0 \<or> n = 1 \<or> n = 2" using assms(2) by auto
  then have hops: "f_within 2 (f_of_int (int (max n 1)))"
    using rnd_numeral [of "num.Bit0 num.One"] rnd_int_exact [of 1] by (auto simp: f_of_int_def f_within_def)
  have "f_within (2 * (2 * (2 * 1 + 1)) + 1) (f_mul (f_of_int (int (max n 1))) (rnd (1 / 10)))"
    by (rule f_within_mul [OF hops tenth]) (simp add: pow2_power_int)
  moreover have "f_within (2 * (2 ^ 40 * (2 * 1 + 1)) + 1) (f_mul fee (rnd (1 / 2)))"
    by (rule f_within_mul [OF assms(1) half]) (simp add: pow2_power_int)
  ultimately have "f_within (2 ^ 50) (estimate_price_impact n fee)"
    unfolding estimate_price_impact_def by (rule f_within_mono [OF f_within_add]) (simp_all add: pow2_power_int)
  then have "f_within (2 * (2 ^ 50 + 2 ^ 40) + 1) (f_add (estimate_price_impact n fee) fee)"
    using assms(1) by (rule f_within_add) (simp add: pow2_power_int)
  then show ?thesis by (rule f_within_finite)
qed

lemma build_swap_path_score:
  assumes "build_swap_path a t0 t1 fee sell target pools h = Some p"
  shows "is_finite (path_score p)"
proof -
  have one: "f_within (2 ^ 40) (fee_percent_from_tier f)" for f
    using fee_percent_within by (rule f_within_mono) simp
  have two: "f_within (2 ^ 40) (f_add (fee_percent_from_tier f) (fee_percent_from_tier g))" for f g
    by (rule f_within_mono [OF f_within_add [OF fee_percent_within fee_percent_within]]) (simp_all add: pow2_power_int)
  show ?thesis
    using assms path_score_within [OF one, of 1] path_score_within [OF two, of 2]
    by (auto simp: build_swap_path_def path_score_def Let_def split: if_splits)
qed

definition ranked :: "string \<Rightarrow> string \<Rightarrow> swap_path list \<Rightarrow> bool" where
  "ranked sell target ps \<longleftrightarrow>
     length ps \<le> 5 \<and> map sw_rank ps = map (\<lambda>i. of_nat (i + 1)) [0..<length ps] \<and>
     distinct (map path_key ps) \<and> sorted_wrt (\<lambda>p q. f_le (path_score p) (path_score q)) ps \<and>
     list_all (good_path sell target) ps"

lemma not_less_le: "is_finite a \<Longrightarrow> is_finite b \<Longrightarrow> \<not> f_lt b a \<Longrightarrow> f_le a b"
  by (cases a; cases b) (auto simp: f_le_def f_eq_def)

lemma sorted_wrt_mono_set:
  "sorted_wrt P xs \<Longrightarrow> (\<And>x y. x \<in> set xs \<Longrightarrow> y \<in> set xs \<Longrightarrow> P x y \<Longrightarrow> Q x y) \<Longrightarrow> sorted_wrt Q xs"
  by (induction xs) auto

lemma rank_paths_ranked:
  assumes fin: "\<forall>p \<in> set ps. is_finite (path_score p)" and good: "list_all (good_path sell target) ps"
  shows "ranked sell target (rank_paths ps)"
proof -
  define qs where "qs = take 5 (sort_paths (dedupe_paths ps))"
  have sub: "set (dedupe_paths ps) \<subseteq> set ps" and dist: "distinct (map path_key (dedupe_paths ps))"
    using dedupe_loop_props [of "[]" ps] by (auto simp: dedupe_paths_def)
  have set: "set qs \<subseteq> set ps"
    using sub set_sort_paths [of "dedupe_paths ps"] by (auto simp: qs_def dest: in_set_takeD)
  have "mset (map path_key (sort_paths (dedupe_paths ps))) = mset (map path_key (dedupe_paths ps))"
    using mset_sort_paths [of "dedupe_paths ps"] by simp
  then have keys: "distinct (map path_key qs)"
    using dist mset_eq_imp_distinct_iff unfolding qs_def take_map [symmetric] by (blast intro: distinct_take)
  have "sorted_wrt (\<lambda>a b. \<not> path_less b a) (sort_paths (dedupe_paths ps))"
    using sub fin by (intro sorted_sort_paths) auto
  then have "sorted_wrt (\<lambda>a b. \<not> path_less b a) qs" unfolding qs_def by (rule sorted_wrt_take)
  then have sorted: "sorted_wrt (\<lambda>p q. f_le (path_score p) (path_score q)) qs"
  proof (rule sorted_wrt_mono_set)
    fix a b assume "a \<in> set qs" "b \<in> set qs" "\<not> path_less b a"
    then show "f_le (path_score a) (path_score b)"
      using fin set by (intro not_less_le) (auto simp: path_less_def)
  qed
  have r: "rank_paths ps = map (\<lambda>(i, p). p\<lparr>sw_rank := of_nat (i + 1)\<rparr>) (enumerate 0 qs)"
    by (simp add: rank_paths_def qs_def)
  have proj: "map f (rank_paths ps) = map f qs" if "\<And>p n. f (p\<lparr>sw_rank := n\<rparr>) = f p" for f :: "swap_path \<Rightarrow> 'b"
  proof -
    have "map f (rank_paths ps) = map (f \<circ> snd) (enumerate 0 qs)"
      unfolding r using that by (auto simp: comp_def split_def)
    then show ?thesis by (simp flip: List.map_map)
  qed
  have rel: "sorted_wrt (\<lambda>p q. P (f p) (f q)) (rank_paths ps) = sorted_wrt (\<lambda>p q. P (f p) (f q)) qs"
    if "\<And>p n. f (p\<lparr>sw_rank := n\<rparr>) = f p" for f :: "swap_path \<Rightarrow> 'b" and P
    using arg_cong [OF proj [of f], of "sorted_wrt P"] that by (simp add: sorted_wrt_map)
  have ranks: "map sw_rank (rank_paths ps) = map (\<lambda>i. of_nat (i + 1)) [0..<length (rank_paths ps)]"
  proof -
    have "map sw_rank (rank_paths ps) = map ((\<lambda>i. of_nat (i + 1)) \<circ> fst) (enumerate 0 qs)"
      unfolding r by (auto simp: comp_def split_def)
    then show ?thesis by (simp add: r flip: List.map_map)
  qed
  have "map (\<lambda>p. (sw_hops p, sw_hop_tokens p)) (rank_paths ps) = map (\<lambda>p. (sw_hops p, sw_hop_tokens p)) qs"
    by (rule proj) simp
  then have same: "\<exists>q \<in> set qs. sw_hops q = sw_hops p \<and> sw_hop_tokens q = sw_hop_tokens p" if "p \<in> set (rank_paths ps)" for p
  proof -
    have "(sw_hops p, sw_hop_tokens p) \<in> set (map (\<lambda>p. (sw_hops p, sw_hop_tokens p)) (rank_paths ps))"
      using that by simp
    also note \<open>map (\<lambda>p. (sw_hops p, sw_hop_tokens p)) (rank_paths ps) = map (\<lambda>p. (sw_hops p, sw_hop_tokens p)) qs\<close>
    finally show ?thesis by auto
  qed
  have "list_all (good_path sell target) (rank_paths ps)"
    unfolding list_all_iff
  proof
    fix p assume "p \<in> set (rank_paths ps)"
    then obtain q where "q \<in> set qs" "sw_hops q = sw_hops p" "sw_hop_tokens q = sw_hop_tokens p" using same by blast
    moreover from this have "good_path sell target q" using set good by (auto simp: list_all_iff)
    ultimately show "good_path sell target p" by (simp add: good_path_def)
  qed
  moreover have "length (rank_paths ps) \<le> 5" by (simp add: r qs_def)
  moreover have "distinct (map path_key (rank_paths ps))"
    using keys proj [of path_key] by (simp add: path_key_def)
  moreover have "sorted_wrt (\<lambda>p q. f_le (path_score p) (path_score q)) (rank_paths ps)"
    using sorted rel [of path_score f_le] by (simp add: path_score_def)
  ultimately show ?thesis using ranks unfolding ranked_def by blast
qed

section \<open>What the paths promise\<close>

lemma map_filter_all: "(\<And>x y. x \<in> set xs \<Longrightarrow> f x = Some y \<Longrightarrow> P y) \<Longrightarrow> \<forall>y \<in> set (List.map_filter f xs). P y"
  by (auto simp: List.map_filter_def)

text \<open>C37: The swap paths offered for a pair of tokens are at most five, numbered from 1, sorted by fee plus
  estimated impact, free of duplicates (by hops and tokens), and every one of them has one or two
  hops, starts with the token sold and ends with the target; asking changes no table.\<close>

theorem swap_paths_ranked:
  assumes "get_swap_paths E chain sell target amount s = (Inr ps, t)"
  shows "same_tables s t \<and>
    ranked (normalize_token_for_chain (cfg E) chain sell) (normalize_token_for_chain (cfg E) chain target) ps"
proof
  let ?sell = "normalize_token_for_chain (cfg E) chain sell"
  let ?target = "normalize_token_for_chain (cfg E) chain target"
  obtain pools target_pools where ps: "ps = rank_paths (List.map_filter (path_of_pool ?sell ?target target_pools amount) pools)"
    using assms by (auto simp: get_swap_paths_def Let_def rbind_Inr_iff split: if_splits)
  show "ranked ?sell ?target ps"
    unfolding ps list_all_iff [abs_def]
    by (rule rank_paths_ranked)
      (auto simp: list_all_iff path_of_pool_def List.map_filter_def dest: build_swap_path_score build_swap_path_good)
  have "keeps same_tables (get_swap_paths E chain sell target amount)"
    unfolding get_swap_paths_def Let_def
    by (intro tab.keeps_world tab.keeps_discover_pools tab.keeps_status_err)
  then show "same_tables s t" using assms by (rule keepsD)
qed

text \<open>The text of a JSON value, as serde prints and reads it.\<close>

definition json_text :: "lib \<Rightarrow> json \<Rightarrow> bool" where
  "json_text L j \<longleftrightarrow> trim (json_show L j) \<noteq> [] \<and> json_parse L (trim (json_show L j)) = Some j"

lemma default_route_parts:
  "\<exists>a b. default_route p tok = route_json [dp_address p] [a, b] (if dp_type p = V3 then [dp_fee p] else []) \<and>
     {a, b} = {dp_token0 p, dp_token1 p} \<and> (eq_ic (dp_token0 p) tok \<or> eq_ic (dp_token1 p) tok \<longrightarrow> eq_ic a tok)"
  by (auto simp: default_route_def)

lemma j_strings_JStr [simp]: "j_strings (JArr (map JStr xs)) = Some xs"
  by (simp add: j_strings_def opt_bind_def list_all_iff comp_def)

lemma j_u32s_JPos [simp]: "j_u32s (JArr (map (\<lambda>f. JPos (ucast f)) fs)) = Some fs"
proof -
  have "unat f \<le> max_u32" for f :: u32
    using unsigned_less [of f, where ?'a = nat] by (simp add: max_u32_def)
  moreover have "ucast (ucast f :: u64) = f" for f :: u32
    by (rule ucast_up_ucast_id) (simp add: is_up source_size target_size)
  ultimately show ?thesis by (simp add: j_u32s_def opt_bind_def list_all_iff comp_def unat_ucast_up)
qed

lemma route_of_route_json [simp]:
  "route_of_json (route_json hops toks fees) = Some \<lparr>pr_hops = hops, pr_hop_tokens = toks, pr_fee_tiers = fees\<rparr>"
  by (simp add: route_of_json_def route_json_def opt_bind_def)

text \<open>The default route that discovery attaches to a pool passes the check of the session service for that
  pool and is read back by the execution engine as one hop through the pool, between its two
  tokens, starting from the token asked for if the pool has it, with the fee tier of a V3 pool.\<close>

theorem default_route_accepted:
  assumes "json_text L (default_route p tok)"
  shows "parse_pool_swap_path_json L (build_default_pool_swap_path_json L p tok) (dp_address p) = Inr (default_route p tok) \<and>
    (\<exists>a b. parse_pool_swap_route L (build_default_pool_swap_path_json L p tok) (dp_address p) =
         Some \<lparr>pr_hops = [dp_address p], pr_hop_tokens = [a, b], pr_fee_tiers = (if dp_type p = V3 then [dp_fee p] else [])\<rparr> \<and>
       {a, b} = {dp_token0 p, dp_token1 p} \<and> (eq_ic (dp_token0 p) tok \<or> eq_ic (dp_token1 p) tok \<longrightarrow> eq_ic a tok))"
proof -
  obtain a b where d: "default_route p tok = route_json [dp_address p] [a, b] (if dp_type p = V3 then [dp_fee p] else [])"
    and ab: "{a, b} = {dp_token0 p, dp_token1 p}" "eq_ic (dp_token0 p) tok \<or> eq_ic (dp_token1 p) tok \<longrightarrow> eq_ic a tok"
    using default_route_parts by blast
  let ?raw = "build_default_pool_swap_path_json L p tok" and ?j = "default_route p tok"
  have raw: "trim ?raw \<noteq> []" "json_parse L (trim ?raw) = Some ?j"
    using assms by (simp_all add: json_text_def build_default_pool_swap_path_json_def)
  have fields: "j_get ''hops'' ?j = Some (JArr [JStr (dp_address p)])" "j_get ''hop_tokens'' ?j = Some (JArr [JStr a, JStr b])"
    by (simp_all add: d route_json_def)
  have "parse_pool_swap_path_json L ?raw (dp_address p) = Inr ?j"
    using raw fields by (simp add: parse_pool_swap_path_json_def Let_def sbind_Inr opt_bind_def)
  moreover have "parse_pool_swap_route L ?raw (dp_address p) =
       Some \<lparr>pr_hops = [dp_address p], pr_hop_tokens = [a, b], pr_fee_tiers = (if dp_type p = V3 then [dp_fee p] else [])\<rparr>"
    using raw by (simp add: parse_pool_swap_route_def Let_def d opt_bind_def)
  ultimately show ?thesis using ab by blast
qed

definition sample_pool :: discovered_pool where
  "sample_pool = \<lparr>dp_address = ''0xaa'', dp_type = V3, dp_dex = ''uniswap_v3'', dp_token0 = ''0x1'', dp_token1 = ''0x2'',
     dp_fee = 3000, dp_reserve0 = None, dp_reserve1 = None, dp_liquidity = None, dp_balance0 = None,
     dp_balance1 = None, dp_price0 = Fin 0, dp_price1 = Fin 0\<rparr>"

theorem default_route_accepted_witness:
  "\<exists>L :: lib. parse_pool_swap_path_json L (build_default_pool_swap_path_json L sample_pool ''0x2'') ''0xaa''
     = Inr (default_route sample_pool ''0x2'')"
proof -
  let ?L = "sample_lib\<lparr>json_show := \<lambda>j. ''x'', json_parse := \<lambda>s. Some (default_route sample_pool ''0x2'')\<rparr>"
  have "trim ''x'' \<noteq> []" by code_simp
  then have "json_text ?L (default_route sample_pool ''0x2'')" by (simp add: json_text_def)
  from default_route_accepted [OF this] show ?thesis by (auto simp: sample_pool_def)
qed

theorem swap_paths_ranked_witness:
  "\<exists>ps t. get_swap_paths sample_env ''bsc'' ''0x0000000000000000000000000000000000000001''
       ''0x0000000000000000000000000000000000000002'' ''100'' empty_world = (Inr ps, t) \<and>
     ranked ''0x0000000000000000000000000000000000000001'' ''0x0000000000000000000000000000000000000002'' ps"
proof -
  let ?a = "''0x0000000000000000000000000000000000000001''" and ?b = "''0x0000000000000000000000000000000000000002''"
  let ?m = "get_swap_paths sample_env ''bsc'' ?a ?b ''100'' empty_world"
  have conf: "dex_factories_for_chain sample_settings ''bsc'' = cc_dex_factories sample_chain"
    "base_tokens_for_chain sample_settings ''bsc'' = [?b]"
    "map_of (chain_entries sample_settings) ''bsc'' = Some sample_chain"
    by code_simp+
  have parse: "addr_parse sample_lib ?a = Some 1" "addr_parse sample_lib ?b = Some 2"
    "addr_parse sample_lib ''0x00000000000000000000000000000000000000fa'' = Some 0xfa"
    "addr_parse sample_lib ''0x0000000000000000000000000000000000000009'' = Some 9"
    "eq_ic ?b ?a = False" "eq_ic ?a ?b = False"
    by code_simp+
  have norm: "normalize_token_for_chain sample_settings ''bsc'' ?a = ?a" "normalize_token_for_chain sample_settings ''bsc'' ?b = ?b"
    "url_ok sample_lib (sa_evm_rpc_url (session_api sample_settings)) = True"
    by code_simp+
  have run: "\<not> isl (fst ?m)"
    by (simp add: get_swap_paths_def norm sample_env_parts status_err_def map_err_def)
      (simp add: discover_pools_def conf parse rbind_def of_result_def ok_or_def sample_chain_def
        discover_in_factory_def discover_with_base_def found_def attempt_def discover_v2_pool_def remote_def
        ret_def Let_def fetch_base_token_prices_def base_price_def status_err_def map_err_def sample_parts)
  then obtain ps t where run: "?m = (Inr ps, t)" by (cases ?m; cases "fst ?m") auto
  have "ranked ?a ?b ps" using swap_paths_ranked [OF run] unfolding sample_env_parts norm by simp
  with run show ?thesis by blast
qed

text \<open>Whatever route the engine can read for a pool, the session service accepts for it; a route with tokens that
  are not texts is accepted too.\<close>

lemma read_route_accepted:
  assumes r: "parse_pool_swap_route L raw pool = Some route"
  shows "\<exists>v. parse_pool_swap_path_json L raw pool = Inr v"
proof -
  from r obtain v hs ts where v: "trim raw \<noteq> []" "json_parse L (trim raw) = Some v"
    and arr: "j_get ''hops'' v = Some (JArr hs)" "j_get ''hop_tokens'' v = Some (JArr ts)"
    and strs: "list_all (\<lambda>x. j_str x \<noteq> None) hs" "pr_hops route = map (\<lambda>x. the (j_str x)) hs"
      "pr_hop_tokens route = map (\<lambda>x. the (j_str x)) ts"
    unfolding parse_pool_swap_route_def route_of_json_def j_strings_def
    by (auto simp: Let_def elim!: j_array.elims split: if_splits)
  note lens = parse_pool_swap_route_lengths [OF r]
  from lens(1) strs obtain h hs' where hs: "hs = h # hs'" by (cases hs) auto
  with strs obtain x where h: "h = JStr x" by (cases h) auto
  with v arr strs lens hs show ?thesis
    by (simp add: parse_pool_swap_path_json_def Let_def sbind_Inr opt_bind_def)
qed

definition tokenless_route :: "string \<Rightarrow> json" where
  "tokenless_route pool = JObj [(''hops'', JArr [JStr pool]), (''hop_tokens'', JArr [JNull, JNull])]"

lemma tokenless_accepted:
  assumes "trim raw \<noteq> []" "json_parse L (trim raw) = Some (tokenless_route pool)"
  shows "parse_pool_swap_path_json L raw pool = Inr (tokenless_route pool)" "route_of_json (tokenless_route pool) = None"
  using assms
  by (simp_all add: parse_pool_swap_path_json_def Let_def sbind_Inr opt_bind_def tokenless_route_def route_of_json_def j_strings_def)

lemma compute_path_miss_cached:
  assumes "compute_path_miss E cache req s = (Inr (path, cache'), t)"
  shows "cache' = cache_insert cache (cache_key_of E req) \<lparr>cp_path = path, cp_inserted_at = clock t\<rparr>"
  using assms by (auto simp: compute_path_miss_def Let_def rbind_Inr_iff split: if_splits)

text \<open>A computed pool path is remembered: every request with the same chain, pool, sell and target token
  (whatever its token pair and fee) that arrives within 300 seconds of the computation is answered
  with the same path without asking the node, and other entries of the cache are untouched.\<close>

theorem pool_path_cached:
  assumes "compute_pool_path E cache req s = (Inr (path, cache'), t)"
  shows "\<exists>c. cache_get cache' (cache_key_of E req) = Some c \<and> cp_path c = path \<and>
    (\<forall>req' u. cache_key_of E req' = cache_key_of E req \<and> fresh_entry (clock u) c \<and>
        other_token_in_pool (norm_of E req' (pq_sell req')) (norm_of E req' (pq_token0 req')) (norm_of E req' (pq_token1 req')) \<noteq> None \<longrightarrow>
        compute_pool_path E cache' req' u = (Inr (path, cache'), u)) \<and>
    (\<forall>k. k \<noteq> cache_key_of E req \<longrightarrow> cache_get cache' k = cache_get cache k)"
proof -
  have "\<exists>c. cache_get cache' (cache_key_of E req) = Some c \<and> cp_path c = path \<and>
      (\<forall>k. k \<noteq> cache_key_of E req \<longrightarrow> cache_get cache' k = cache_get cache k)"
  proof (cases "compute_path_miss E cache req s = (Inr (path, cache'), t)")
    case True
    from compute_path_miss_cached [OF this] show ?thesis
      using path_cache.look_put_eq path_cache.look_put_other by (metis cached_path.select_convs(1))
  next
    case False
    with assms show ?thesis
      by (auto simp: compute_pool_path_def rbind_Inr_iff split: if_splits option.splits)
  qed
  then show ?thesis
    by (auto simp: compute_pool_path_def rbind_Inr_iff)
qed

theorem pool_path_cached_witness:
  "\<exists>path cache t c. compute_pool_path sample_env Map.empty
      \<lparr>pq_chain = ''bsc'', pq_pool = ''0xaa'', pq_token0 = ''0x1'', pq_token1 = ''0x2'', pq_fee = 0, pq_sell = ''0x1'',
       pq_target = ''0x0000000000000000000000000000000000000002''\<rparr> empty_world = (Inr (path, cache), t) \<and>
     cache_get cache (''bsc'', ''0xaa'', ''0x1'', ''0x0000000000000000000000000000000000000002'') = Some c \<and> cp_path c = path"
proof -
  let ?b = "''0x0000000000000000000000000000000000000002''"
  let ?r = "\<lparr>pq_chain = ''bsc'', pq_pool = ''0xaa'', pq_token0 = ''0x1'', pq_token1 = ''0x2'', pq_fee = 0, pq_sell = ''0x1'', pq_target = ?b\<rparr>"
  let ?m = "compute_pool_path sample_env Map.empty ?r empty_world"
  have conf: "dex_factories_for_chain sample_settings ''bsc'' = cc_dex_factories sample_chain"
    "base_tokens_for_chain sample_settings ''bsc'' = [?b]"
    "map_of (chain_entries sample_settings) ''bsc'' = Some sample_chain"
    by code_simp+
  have parse: "addr_parse sample_lib ?b = Some 2"
    "addr_parse sample_lib ''0x00000000000000000000000000000000000000fa'' = Some 0xfa"
    "addr_parse sample_lib ''0x0000000000000000000000000000000000000009'' = Some 9"
    "eq_ic ?b ?b = True" "url_ok sample_lib (sa_evm_rpc_url (session_api sample_settings)) = True"
    "other_token_in_pool ''0x1'' ''0x1'' ''0x2'' = Some ''0x2''"
    by code_simp+
  have norm: "normalize_token_for_chain sample_settings ''bsc'' ?b = ?b" "normalize_token_for_chain sample_settings ''bsc'' ''0x1'' = ''0x1''"
    "normalize_token_for_chain sample_settings ''bsc'' ''0x2'' = ''0x2''"
    by code_simp+
  have key: "cache_key_of sample_env ?r = (''bsc'', ''0xaa'', ''0x1'', ?b)"
    unfolding cache_key_of_def norm_of_def sample_env_parts by (simp add: norm) code_simp
  have "\<not> isl (fst ?m)"
    by (simp add: compute_pool_path_def compute_path_miss_def norm_of_def norm parse sample_env_parts status_err_def map_err_def
        cache_get_def rbind_def gets_def Let_def)
      (simp add: discover_pools_def conf parse rbind_def of_result_def ok_or_def sample_chain_def
        discover_in_factory_def discover_with_base_def found_def attempt_def discover_v2_pool_def remote_def
        ret_def Let_def fetch_base_token_prices_def base_price_def status_err_def map_err_def sample_parts)
  then obtain path cache t where run: "?m = (Inr (path, cache), t)" by (cases ?m; cases "fst ?m") auto
  from pool_path_cached [OF run] show ?thesis using run unfolding key by blast
qed

end
