(* ===== verification/Sessions.thy ===== *)
theory Sessions
  imports Paths Submit
begin

text \<open>
  The session service (\<open>crates/session-api/src/main.rs\<close>): creating a session with its pools,
  reading it back, changing its status, its thresholds and its public sharing, and the query of
  the engine for the active sessions that watch a pool.  The time \<open>updated_at\<close> is set by the
  trigger \<open>set_sessions_updated_at\<close> on every update.

  A percentage or a threshold arrives as \<open>f64\<close> and is stored as \<open>NUMERIC\<close>: the database first
  writes it with 15 significant digits and then rounds to the scale of the column.  A NaN or an
  infinity, which no JSON request can carry, is refused by the model.
\<close>

section \<open>From floating point to a column\<close>

fun ilog10 :: "nat \<Rightarrow> nat" where
  "ilog10 n = (if n < 10 then 0 else 1 + ilog10 (n div 10))"

declare ilog10.simps [simp del]

definition dec_exp :: "rat \<Rightarrow> int" where
  "dec_exp x =
     (if 1 \<le> x then int (ilog10 (nat \<lfloor>x\<rfloor>)) else - int (ilog10 (nat (\<lceil>1 / x\<rceil> - 1))) - 1)"

definition digits15 :: "rat \<Rightarrow> rat" where
  "digits15 x =
     (if x = 0 then 0
      else let k = dec_exp \<bar>x\<bar> - 14; y = of_int (round_half_even (\<bar>x\<bar> * power_int 10 (- k))) * power_int 10 k
           in if x < 0 then - y else y)"

definition float_column :: "nat \<Rightarrow> nat \<Rightarrow> f64 \<Rightarrow> err + rat" where
  "float_column p d x =
     (case x of Fin q \<Rightarrow> ok_or ''numeric field overflow'' (numeric p d (digits15 q))
      | _ \<Rightarrow> Inl ''numeric field overflow'')"

record limits =
  l_pov :: rat
  l_impact :: rat
  l_trigger :: rat
  l_mcap :: rat

definition limit_columns :: "f64 \<Rightarrow> f64 \<Rightarrow> f64 \<Rightarrow> f64 \<Rightarrow> err + limits" where
  "limit_columns pov impact trigger mcap =
     sbind (float_column 5 2 pov) (\<lambda>a. sbind (float_column 5 2 impact) (\<lambda>b.
     sbind (float_column 18 2 trigger) (\<lambda>c. sbind (float_column 30 2 mcap) (\<lambda>d.
     Inr \<lparr>l_pov = a, l_impact = b, l_trigger = c, l_mcap = d\<rparr>))))"

section \<open>Reading sessions\<close>

definition read_percent :: "lib \<Rightarrow> f64 \<Rightarrow> rat \<Rightarrow> f64" where
  "read_percent L d x = opt_or d (f_parse (decimal_show L x))"

definition row_to_session_info :: "lib \<Rightarrow> session_row \<Rightarrow> session_info" where
  "row_to_session_info L r =
     \<lparr>si_id = uuid_show L (s_id r), si_user = uuid_show L (s_user r), si_wallet = uuid_show L (s_wallet r),
      si_chain = s_chain r, si_status = show_session_status (s_status r), si_sell_token = s_sell_token r,
      si_sell_symbol = s_sell_symbol r, si_sell_decimals = s_sell_decimals r,
      si_target_token = s_target_token r, si_target_symbol = s_target_symbol r,
      si_target_decimals = s_target_decimals r, si_strategy = s_strategy r, si_total = show_int (s_total r),
      si_sold = show_int (s_sold r), si_pov = read_percent L (Fin 10) (s_pov r),
      si_impact = read_percent L (Fin 1) (s_impact r), si_trigger = read_percent L (Fin 100) (s_trigger r),
      si_path_json = opt_or [] (map_option (json_show L) (s_path r)), si_slug = opt_or [] (s_slug r),
      si_sharing = s_sharing r, si_mcap = read_percent L (Fin 0) (s_mcap r),
      si_created = time_show L (s_created r), si_updated = time_show L (s_updated r), si_pools = []\<rparr>"

definition pool_row_info :: "lib \<Rightarrow> session_pool_row \<Rightarrow> pool_info" where
  "pool_row_info L p =
     \<lparr>pi_address = sp_address p, pi_type = show_pool_type (sp_type p), pi_dex = sp_dex p,
      pi_token0 = sp_token0 p, pi_token1 = sp_token1 p, pi_fee = sp_fee p, pi_reserve0 = [],
      pi_reserve1 = [], pi_liquidity = [], pi_balance0 = [], pi_balance1 = [], pi_price0 = Fin 0,
      pi_price1 = Fin 0, pi_path_json = opt_or [] (map_option (json_show L) (sp_path p))\<rparr>"

definition pools_of :: "uuid \<Rightarrow> world \<Rightarrow> session_pool_row list" where
  "pools_of i s =
     sort_key (\<lambda>p. (sp_dex p, sp_type p, sint (sp_fee p))) (filter (\<lambda>p. sp_session p = i) (session_pools s))"

definition fetch_session_pools :: "env \<Rightarrow> uuid \<Rightarrow> (world, err, pool_info list) rt" where
  "fetch_session_pools E i =
     rbind (query E (pools_of i)) (\<lambda>rows. ret (map (pool_row_info (lib_of E)) rows))"

definition session_by_id :: "uuid \<Rightarrow> world \<Rightarrow> session_row option" where
  "session_by_id i s = find (\<lambda>r. s_id r = i) (sessions s)"

definition fetch_session :: "env \<Rightarrow> uuid \<Rightarrow> (world, err, session_info option) rt" where
  "fetch_session E i =
     rbind (query E (session_by_id i)) (\<lambda>row. ret (map_option (row_to_session_info (lib_of E)) row))"

text \<open>The end of four operations: the session with its pools.\<close>

definition load_session :: "env \<Rightarrow> uuid \<Rightarrow> (world, status, session_info) rt" where
  "load_session E i =
     rbind (status_err Internal ''DB error: '' (fetch_session E i)) (\<lambda>row.
     rbind (of_result (ok_or (NotFound, ''Session not found'') row)) (\<lambda>info.
     rbind (status_err Internal ''DB error: '' (fetch_session_pools E i)) (\<lambda>pools.
     ret (info\<lparr>si_pools := pools\<rparr>))))"

definition get_session :: "env \<Rightarrow> string \<Rightarrow> (world, status, session_info) rt" where
  "get_session E session_id = rbind (parse_id E ''session_id'' session_id) (load_session E)"

text \<open>In a list, a session whose pools cannot be read is returned without pools.\<close>

definition attach_pools :: "env \<Rightarrow> session_info \<Rightarrow> (world, status, session_info) rt" where
  "attach_pools E info =
     rbind (attempt (fetch_session_pools E (opt_or 0 (uuid_parse (lib_of E) (si_id info))))) (\<lambda>r.
     ret (info\<lparr>si_pools := opt_or [] (ok r)\<rparr>))"

fun map_each :: "'x list \<Rightarrow> ('x \<Rightarrow> ('s, 'e, 'a) rt) \<Rightarrow> ('s, 'e, 'a list) rt" where
  "map_each [] f = ret []"
| "map_each (x # xs) f = rbind (f x) (\<lambda>y. rbind (map_each xs f) (\<lambda>ys. ret (y # ys)))"

definition list_rows :: "env \<Rightarrow> (world \<Rightarrow> session_row list) \<Rightarrow> (world, status, session_info list) rt" where
  "list_rows E f =
     rbind (status_err Internal ''DB error: '' (query E f)) (\<lambda>rows.
     map_each (map (row_to_session_info (lib_of E)) rows) (attach_pools E))"

definition list_sessions :: "env \<Rightarrow> string \<Rightarrow> (world, status, session_info list) rt" where
  "list_sessions E user_id =
     (if user_id = [] then list_rows E (\<lambda>s. sort_key (\<lambda>r. - s_created r) (sessions s))
      else
        rbind (parse_id E ''user_id'' user_id) (\<lambda>u.
        list_rows E (\<lambda>s. sort_key (\<lambda>r. - s_created r) (filter (\<lambda>r. s_user r = u) (sessions s)))))"

section \<open>The query of the engine\<close>

definition watches :: "string \<Rightarrow> string \<Rightarrow> world \<Rightarrow> session_row \<Rightarrow> bool" where
  "watches chain pool s r \<longleftrightarrow>
     s_chain r = chain \<and> s_status r = S_Active \<and>
     list_ex (\<lambda>p. sp_session p = s_id r \<and> lower (sp_address p) = lower pool) (session_pools s)"

definition sells :: "string \<Rightarrow> string \<Rightarrow> session_row \<Rightarrow> bool" where
  "sells chain token r \<longleftrightarrow> s_chain r = chain \<and> s_sell_token r = token \<and> s_status r = S_Active"

definition get_active_sessions_for_token ::
  "env \<Rightarrow> string \<Rightarrow> string \<Rightarrow> string \<Rightarrow> (world, status, session_info list) rt" where
  "get_active_sessions_for_token E chain token pool =
     (if chain \<notin> set chain_ids
      then rbind (status_err Internal ''DB error: '' (sql E (\<lambda>s. (Inl ''invalid input value for enum chain_id'', s)))) ret
      else if pool \<noteq> [] then list_rows E (\<lambda>s. filter (watches chain pool s) (sessions s))
      else list_rows E (\<lambda>s. filter (sells chain token) (sessions s)))"

section \<open>Creating a session\<close>

definition alphanumeric :: string where
  "alphanumeric = ''ABCDEFGHIJKLMNOPQRSTUVWXYZabcdefghijklmnopqrstuvwxyz0123456789''"

definition slug_of :: "byte list \<Rightarrow> string" where
  "slug_of bs = map (\<lambda>b. alphanumeric ! (unat b mod 62)) (take 12 bs)"

definition session_conflict :: "session_row \<Rightarrow> session_row \<Rightarrow> bool" where
  "session_conflict r q \<longleftrightarrow> s_id q = s_id r \<or> (s_slug r \<noteq> None \<and> s_slug q = s_slug r)"

definition insert_session :: "session_row \<Rightarrow> world \<Rightarrow> (err + unit) \<times> world" where
  "insert_session r s =
     (if s_chain r \<notin> set chain_ids then (Inl ''invalid input value for enum chain_id'', s)
      else if s_strategy r \<noteq> ''pov'' then (Inl ''invalid input value for enum strategy_type'', s)
      else if \<not> list_ex (\<lambda>u. u_id u = s_user r) (users s) \<or> \<not> list_ex (\<lambda>w. w_id w = s_wallet r) (wallets s)
      then (Inl ''violates foreign key constraint'', s)
      else if list_ex (session_conflict r) (sessions s)
      then (Inl ''duplicate key value violates unique constraint'', s)
      else (Inr (), s\<lparr>sessions := sessions s @ [r]\<rparr>))"

definition total_column :: "lib \<Rightarrow> string \<Rightarrow> err + int" where
  "total_column L x =
     sbind (ok_or ''invalid input syntax for type numeric'' (decimal_parse L x)) (\<lambda>v.
     ok_or ''numeric field overflow'' (numeric78 v))"

definition new_session :: "create_session_request \<Rightarrow> uuid \<Rightarrow> uuid \<Rightarrow> uuid \<Rightarrow> json option \<Rightarrow> string \<Rightarrow> int \<Rightarrow> limits \<Rightarrow> int \<Rightarrow> session_row" where
  "new_session req i user wallet path slug amount lims tm =
     \<lparr>s_id = i, s_user = user, s_wallet = wallet, s_chain = cs_chain req, s_status = S_Pending,
      s_sell_token = cs_sell_token req, s_sell_symbol = cs_sell_symbol req,
      s_sell_decimals = cs_sell_decimals req, s_target_token = cs_target_token req,
      s_target_symbol = cs_target_symbol req, s_target_decimals = cs_target_decimals req,
      s_strategy = cs_strategy req, s_total = amount, s_sold = 0, s_pov = l_pov lims,
      s_impact = l_impact lims, s_trigger = l_trigger lims, s_mcap = l_mcap lims, s_path = path,
      s_slug = Some slug, s_sharing = True, s_created = tm, s_updated = tm\<rparr>"

definition store_session ::
  "env \<Rightarrow> create_session_request \<Rightarrow> uuid \<Rightarrow> uuid \<Rightarrow> uuid \<Rightarrow> json option \<Rightarrow> string \<Rightarrow> world \<Rightarrow> (err + int) \<times> world" where
  "store_session E req i user wallet path slug s =
     (let tm = db_now E (calls s) in
      case (total_column (lib_of E) (cs_total req),
            limit_columns (cs_pov req) (cs_impact req) (cs_trigger req) (cs_mcap req)) of
        (Inl e, _) \<Rightarrow> (Inl e, s)
      | (Inr amount, Inl e) \<Rightarrow> (Inl e, s)
      | (Inr amount, Inr lims) \<Rightarrow>
          rbind (insert_session (new_session req i user wallet path slug amount lims tm)) (\<lambda>_. ret tm) s)"

definition pool_type_column :: "string \<Rightarrow> pool_type option" where
  "pool_type_column t = (if t = ''v2'' then Some V2 else if t = ''v3'' then Some V3 else None)"

definition insert_session_pool :: "uuid \<Rightarrow> pool_info \<Rightarrow> json \<Rightarrow> world \<Rightarrow> (err + unit) \<times> world" where
  "insert_session_pool i p path s =
     (case pool_type_column (pi_type p) of
        None \<Rightarrow> (Inl ''invalid input value for enum pool_type'', s)
      | Some pt \<Rightarrow>
          if list_ex (\<lambda>q. sp_session q = i \<and> sp_address q = pi_address p) (session_pools s) then (Inr (), s)
          else if \<not> list_ex (\<lambda>r. s_id r = i) (sessions s) then (Inl ''violates foreign key constraint'', s)
          else (Inr (), s\<lparr>session_pools := session_pools s @
             [\<lparr>sp_session = i, sp_address = pi_address p, sp_type = pt, sp_dex = pi_dex p, sp_token0 = pi_token0 p,
               sp_token1 = pi_token1 p, sp_fee = pi_fee p, sp_path = Some path\<rparr>]\<rparr>))"

definition parse_pool_paths :: "lib \<Rightarrow> pool_info list \<Rightarrow> status + json list" where
  "parse_pool_paths L pools =
     foldr (\<lambda>p acc. sbind (parse_pool_swap_path_json L (pi_path_json p) (pi_address p)) (\<lambda>v.
       sbind acc (\<lambda>vs. Inr (v # vs)))) pools (Inr [])"

definition session_path :: "lib \<Rightarrow> string \<Rightarrow> status + json option" where
  "session_path L raw =
     (if raw = [] then Inr None
      else map_sum id Some (ok_or (InvalidArgument, ''Invalid swap_path_json'') (json_parse L raw)))"

definition created_info :: "lib \<Rightarrow> create_session_request \<Rightarrow> uuid \<Rightarrow> uuid \<Rightarrow> uuid \<Rightarrow> string \<Rightarrow> int \<Rightarrow> session_info" where
  "created_info L req i user wallet slug tm =
     \<lparr>si_id = uuid_show L i, si_user = uuid_show L user, si_wallet = uuid_show L wallet, si_chain = cs_chain req,
      si_status = ''pending'', si_sell_token = cs_sell_token req, si_sell_symbol = cs_sell_symbol req,
      si_sell_decimals = cs_sell_decimals req, si_target_token = cs_target_token req,
      si_target_symbol = cs_target_symbol req, si_target_decimals = cs_target_decimals req,
      si_strategy = cs_strategy req, si_total = cs_total req, si_sold = ''0'', si_pov = cs_pov req,
      si_impact = cs_impact req, si_trigger = cs_trigger req, si_path_json = cs_path_json req, si_slug = slug,
      si_sharing = True, si_mcap = cs_mcap req, si_created = time_show L tm, si_updated = time_show L tm,
      si_pools = cs_pools req\<rparr>"

definition create_session :: "env \<Rightarrow> create_session_request \<Rightarrow> (world, status, session_info) rt" where
  "create_session E req =
     (let L = lib_of E in
      rbind (parse_id E ''user_id'' (cs_user req)) (\<lambda>user.
      rbind (parse_id E ''wallet_id'' (cs_wallet req)) (\<lambda>wallet.
      rbind (fresh E) (\<lambda>i.
      rbind (of_result (parse_pool_paths L (cs_pools req))) (\<lambda>paths.
      rbind (ask (\<lambda>n. Inr (slug_of (random_bytes E n)))) (\<lambda>slug.
      rbind (of_result (session_path L (cs_path_json req))) (\<lambda>path.
      rbind (status_err Internal ''DB error: '' (sql E (store_session E req i user wallet path slug))) (\<lambda>tm.
      rbind (for_each (zip (cs_pools req) paths) (\<lambda>(p, v).
               status_err Internal ''DB error inserting pool: '' (sql E (insert_session_pool i p v)))) (\<lambda>_.
      ret (created_info L req i user wallet slug tm))))))))))"

section \<open>Changing a session\<close>

definition set_session :: "env \<Rightarrow> uuid \<Rightarrow> (session_row \<Rightarrow> session_row) \<Rightarrow> world \<Rightarrow> world" where
  "set_session E i f s =
     s\<lparr>sessions := update_where (\<lambda>r. s_id r = i) (\<lambda>r. (f r)\<lparr>s_updated := db_now E (calls s)\<rparr>) (sessions s)\<rparr>"

definition settable :: "string list" where
  "settable = [''active'', ''paused'', ''cancelled'', ''completed'']"

definition update_session_status :: "env \<Rightarrow> string \<Rightarrow> string \<Rightarrow> (world, status, session_info) rt" where
  "update_session_status E session_id st =
     rbind (parse_id E ''session_id'' session_id) (\<lambda>i.
     if st \<notin> set settable then fail (InvalidArgument, ''Invalid status'')
     else
       rbind (status_err Internal ''DB error: ''
                (exec E (set_session E i (\<lambda>r. r\<lparr>s_status := the (session_status_of st)\<rparr>)))) (\<lambda>_.
       load_session E i))"

definition set_limits :: "env \<Rightarrow> uuid \<Rightarrow> err + limits \<Rightarrow> world \<Rightarrow> (err + unit) \<times> world" where
  "set_limits E i lims s =
     (case lims of
        Inl e \<Rightarrow> (Inl e, s)
      | Inr l \<Rightarrow> (Inr (), set_session E i
          (\<lambda>r. r\<lparr>s_pov := l_pov l, s_impact := l_impact l, s_trigger := l_trigger l, s_mcap := l_mcap l\<rparr>) s))"

definition update_session_config ::
  "env \<Rightarrow> string \<Rightarrow> f64 \<Rightarrow> f64 \<Rightarrow> f64 \<Rightarrow> f64 \<Rightarrow> (world, status, session_info) rt" where
  "update_session_config E session_id pov impact trigger mcap =
     rbind (parse_id E ''session_id'' session_id) (\<lambda>i.
     rbind (status_err Internal ''DB error: '' (sql E (set_limits E i (limit_columns pov impact trigger mcap)))) (\<lambda>_.
     load_session E i))"

definition toggle_public_sharing :: "env \<Rightarrow> string \<Rightarrow> bool \<Rightarrow> (world, status, session_info) rt" where
  "toggle_public_sharing E session_id enabled =
     rbind (parse_id E ''session_id'' session_id) (\<lambda>i.
     rbind (status_err Internal ''DB error: '' (exec E (set_session E i (\<lambda>r. r\<lparr>s_sharing := enabled\<rparr>)))) (\<lambda>_.
     load_session E i))"

definition shared_as :: "string \<Rightarrow> world \<Rightarrow> session_row option" where
  "shared_as slug s = find (\<lambda>r. s_slug r = Some slug \<and> s_sharing r) (sessions s)"

definition get_session_by_slug :: "env \<Rightarrow> string \<Rightarrow> (world, status, session_info) rt" where
  "get_session_by_slug E slug =
     rbind (status_err Internal ''DB error: '' (query E (shared_as slug))) (\<lambda>row.
     rbind (of_result (ok_or (NotFound, ''Session not found or sharing disabled'') row)) (\<lambda>r.
     let info = row_to_session_info (lib_of E) r in
     rbind (status_err Internal ''DB error: ''
              (fetch_session_pools E (opt_or 0 (uuid_parse (lib_of E) (si_id info))))) (\<lambda>pools.
     ret (info\<lparr>si_pools := pools\<rparr>))))"

section \<open>Frame\<close>

context world_rel begin

lemma keeps_map_each: "(\<And>x. x \<in> set xs \<Longrightarrow> keeps R (f x)) \<Longrightarrow> keeps R (map_each xs f)"
  by (induction xs) (auto intro!: keeps_ret keeps_rbind)

lemma keeps_fetch_pools: "keeps R (fetch_session_pools E i)"
  unfolding fetch_session_pools_def by (intro keeps_world)

lemma keeps_load: "keeps R (load_session E i)"
  unfolding load_session_def fetch_session_def by (intro keeps_fetch_pools keeps_kms)

lemma keeps_get_session: "keeps R (get_session E sid)"
  unfolding get_session_def by (intro keeps_load keeps_kms)

lemma keeps_attach: "keeps R (attach_pools E info)"
  unfolding attach_pools_def by (intro keeps_fetch_pools keeps_kms)

lemma keeps_list_rows: "keeps R (list_rows E f)"
  unfolding list_rows_def by (intro keeps_map_each keeps_attach keeps_kms)

lemma keeps_list_sessions: "keeps R (list_sessions E u)"
  unfolding list_sessions_def by (intro keeps_list_rows keeps_kms)

lemma keeps_active_sessions: "keeps R (get_active_sessions_for_token E chain token pool)"
  unfolding get_active_sessions_for_token_def
  by (intro keeps_list_rows keeps_status_err keeps_sql keeps_world) (simp add: rel_refl)

lemma keeps_by_slug: "keeps R (get_session_by_slug E slug)"
  unfolding get_session_by_slug_def Let_def by (intro keeps_fetch_pools keeps_kms)

end

section \<open>The sessions as a map\<close>

text \<open>
  The abstract state of the service is the map from identifiers to sessions; the operations
  that change a session are point updates of it.
\<close>

definition session_map :: "world \<Rightarrow> uuid \<rightharpoonup> session_row" where
  "session_map s i = session_by_id i s"

definition point_update :: "uuid \<Rightarrow> (session_row \<Rightarrow> session_row) \<Rightarrow> (uuid \<rightharpoonup> session_row) \<Rightarrow> (uuid \<rightharpoonup> session_row)" where
  "point_update i f m = m(i := map_option f (m i))"

lemma find_update_where:
  "(\<And>r. k (f r) = k r) \<Longrightarrow>
    find (\<lambda>r. k r = j) (update_where (\<lambda>r. k r = i) f rows) =
      (if j = i then map_option f (find (\<lambda>r. k r = i) rows) else find (\<lambda>r. k r = j) rows)"
  by (induction rows) auto

lemma session_map_set:
  "(\<And>r. s_id (f r) = s_id r) \<Longrightarrow>
    session_map (set_session E i f s) = point_update i (\<lambda>r. (f r)\<lparr>s_updated := db_now E (calls s)\<rparr>) (session_map s)"
  by (auto simp: fun_eq_iff session_map_def session_by_id_def set_session_def point_update_def find_update_where)

text \<open>Everything but the sessions.\<close>

definition other_tables :: "world \<Rightarrow> world \<Rightarrow> bool" where
  "other_tables s t \<longleftrightarrow>
     users t = users s \<and> wallets t = wallets s \<and> session_pools t = session_pools s \<and> trades t = trades s \<and>
     refunds t = refunds s \<and> deposits t = deposits s"

lemma same_tables_map: "same_tables s t \<Longrightarrow> session_map t = session_map s \<and> other_tables s t"
  by (auto simp: same_tables_def other_tables_def session_map_def session_by_id_def fun_eq_iff)

text \<open>What a handler that updates session \<open>i\<close> by \<open>f\<close> may do and answer.\<close>

definition refines_update ::
  "env \<Rightarrow> uuid \<Rightarrow> (session_row \<Rightarrow> session_row) \<Rightarrow> world \<Rightarrow> status + session_info \<Rightarrow> world \<Rightarrow> bool" where
  "refines_update E i f s r t \<longleftrightarrow>
     other_tables s t \<and>
     (\<exists>tm. let m = point_update i (\<lambda>q. (f q)\<lparr>s_updated := tm\<rparr>) (session_map s) in
        (session_map t = m \<and>
          (\<forall>info. r = Inr info \<longrightarrow> (\<exists>row ps. m i = Some row \<and>
              info = (row_to_session_info (lib_of E) row)\<lparr>si_pools := ps\<rparr> \<and>
              ps = map (pool_row_info (lib_of E)) (pools_of i s)))) \<or>
        (session_map t = session_map s \<and> isl r))"

lemma load_session_Inr:
  assumes "load_session E i s = (Inr info, t)"
  shows "\<exists>row. session_map s i = Some row \<and>
    info = (row_to_session_info (lib_of E) row)\<lparr>si_pools := map (pool_row_info (lib_of E)) (pools_of i s)\<rparr>"
  using assms
  by (auto simp: load_session_def fetch_session_def fetch_session_pools_def run_iffs session_map_def
      session_by_id_def pools_of_def)

lemma load_after_update:
  assumes m: "session_map u = point_update i (\<lambda>q. (f q)\<lparr>s_updated := tm\<rparr>) (session_map s)" and o: "other_tables s u"
    and run: "load_session E i u = (r, t)"
  shows "refines_update E i f s r t"
proof -
  let ?m = "point_update i (\<lambda>q. (f q)\<lparr>s_updated := tm\<rparr>) (session_map s)"
  have st: "same_tables u t" using keepsD [OF tab.keeps_load run] .
  have t: "session_map t = ?m" "other_tables u t" using same_tables_map [OF st] m by simp_all
  then have s: "other_tables s t" using o by (simp add: other_tables_def)
  have p: "pools_of i u = pools_of i s" using o by (simp add: other_tables_def pools_of_def)
  have "\<exists>row ps. ?m i = Some row \<and> info = (row_to_session_info (lib_of E) row)\<lparr>si_pools := ps\<rparr> \<and>
      ps = map (pool_row_info (lib_of E)) (pools_of i s)" if "r = Inr info" for info
  proof -
    have "load_session E i u = (Inr info, t)" using run that by simp
    from load_session_Inr [OF this] show ?thesis unfolding m p by blast
  qed
  then show ?thesis
    unfolding refines_update_def Let_def t(1) using s by blast
qed

text \<open>A statement followed by the reading of the session.\<close>

lemma update_then_load:
  assumes f: "\<And>q. s_id (f q) = s_id q"
    and run: "rbind (status_err Internal msg (exec E (set_session E i f))) (\<lambda>_. load_session E i) s = (r, t)"
  shows "refines_update E i f s r t"
proof -
  define u where "u = s\<lparr>calls := Suc (calls s)\<rparr>"
  have m: "session_map (set_session E i f u) =
      point_update i (\<lambda>q. (f q)\<lparr>s_updated := db_now E (calls u)\<rparr>) (session_map s)"
    using session_map_set [of f E i u] f by (simp add: u_def session_map_def session_by_id_def fun_eq_iff point_update_def)
  have o: "other_tables s (set_session E i f u)" "other_tables s u" "session_map u = session_map s"
    by (simp_all add: other_tables_def set_session_def u_def session_map_def session_by_id_def fun_eq_iff)
  show ?thesis
  proof (cases "db_reply E (calls s)")
    case Served
    then have "load_session E i (set_session E i f u) = (r, t)"
      using run by (simp add: rbind_def status_err_def map_err_def exec_def sql_def modify_def Let_def u_def)
    with m o(1) show ?thesis by (rule load_after_update)
  next
    case (Refused e)
    then have "isl r" "t = u"
      using run by (auto simp: rbind_def status_err_def map_err_def exec_def sql_def modify_def Let_def u_def)
    with o show ?thesis by (simp add: refines_update_def)
  next
    case (Lost e)
    then have "isl r" "t = set_session E i f u"
      using run by (auto simp: rbind_def status_err_def map_err_def exec_def sql_def modify_def Let_def u_def)
    with o m show ?thesis by (auto simp: refines_update_def Let_def)
  qed
qed

lemma load_served:
  assumes "session_by_id i s = Some q" "db_reply E (calls s) = Served" "db_reply E (Suc (calls s)) = Served"
  shows "load_session E i s = (Inr ((row_to_session_info (lib_of E) q)\<lparr>si_pools := map (pool_row_info (lib_of E)) (pools_of i s)\<rparr>),
    s\<lparr>calls := Suc (Suc (calls s))\<rparr>)"
proof -
  have "session_by_id i (s\<lparr>calls := n\<rparr>) = Some q" for n using assms(1) by (simp add: session_by_id_def)
  then show ?thesis
    using assms(2,3) by (simp add: load_session_def fetch_session_def fetch_session_pools_def run_iffs pools_of_def)
qed

text \<open>A served change of status succeeds, whatever the status was.\<close>

lemma status_served:
  assumes "uuid_parse (lib_of E) session_id = Some i" "st \<in> set settable" "session_map s i = Some q"
    and db: "db_reply E (calls s) = Served" "db_reply E (Suc (calls s)) = Served" "db_reply E (Suc (Suc (calls s))) = Served"
  shows "\<exists>info t. update_session_status E session_id st s = (Inr info, t) \<and> si_id info = uuid_show (lib_of E) i \<and> si_status info = st"
proof -
  let ?f = "\<lambda>r. r\<lparr>s_status := the (session_status_of st)\<rparr>" and ?u = "s\<lparr>calls := Suc (calls s)\<rparr>"
  have q: "session_by_id i s = Some q" using assms(3) by (simp add: session_map_def)
  have st: "show_session_status (the (session_status_of st)) = st"
    using assms(2) by (auto simp: settable_def session_status_of_def session_statuses_def)
  have "session_map (set_session E i ?f ?u) i = Some ((?f q)\<lparr>s_updated := db_now E (calls ?u)\<rparr>)"
    using q session_map_set [of ?f E i ?u] by (simp add: session_map_def session_by_id_def point_update_def)
  then have now: "session_by_id i (set_session E i ?f ?u) = Some ((?f q)\<lparr>s_updated := db_now E (calls ?u)\<rparr>)"
    by (simp add: session_map_def)
  have "calls (set_session E i ?f ?u) = Suc (calls s)" by (simp add: set_session_def)
  note load = load_served [OF now, unfolded this, OF db(2,3)]
  have "update_session_status E session_id st s = load_session E i (set_session E i ?f ?u)"
    using assms(1,2) db(1)
    by (simp add: update_session_status_def parse_id_def rbind_def of_result_def ok_or_def status_err_def map_err_def
        exec_def sql_def modify_def Let_def)
  moreover have "s_id q = i" using q by (auto simp: session_by_id_def find_Some_iff)
  ultimately show ?thesis unfolding load using st by (simp add: row_to_session_info_def)
qed

lemma settable_status: "st \<in> set settable \<Longrightarrow> session_status_of st \<noteq> None"
  by (auto simp: settable_def session_status_of_def session_statuses_def)

text \<open>C39: The three operations that change a session are point updates of the map of sessions: a request
  with the identifier of a session changes that session only, in the fields named by the operation
  and in its update time, or fails and changes nothing, unless the answer of the database was lost;
  a successful answer is the updated session.  A change of status to one of the four settable
  texts is never refused because of the status the session has: if the session exists and the database serves the
  three statements, it succeeds and answers the session in the new status, so that a completed or cancelled session
  can be made active again.\<close>

theorem session_updates_refine:
  assumes "uuid_parse (lib_of E) session_id = Some i"
  shows "(update_session_status E session_id st s = (r, t) \<longrightarrow>
       (if st \<in> set settable
        then \<exists>v. show_session_status v = st \<and> refines_update E i (\<lambda>q. q\<lparr>s_status := v\<rparr>) s r t
        else r = Inl (InvalidArgument, ''Invalid status'') \<and> t = s)) \<and>
     (update_session_status E session_id st s = (r, t) \<and> st \<in> set settable \<and> (\<exists>q. session_map s i = Some q) \<and>
        db_reply E (calls s) = Served \<and> db_reply E (Suc (calls s)) = Served \<and> db_reply E (Suc (Suc (calls s))) = Served \<longrightarrow>
       (\<exists>info. r = Inr info \<and> si_id info = uuid_show (lib_of E) i \<and> si_status info = st)) \<and>
     (toggle_public_sharing E session_id enabled s = (r, t) \<longrightarrow>
       refines_update E i (\<lambda>q. q\<lparr>s_sharing := enabled\<rparr>) s r t) \<and>
     (update_session_config E session_id pov impact trigger mcap s = (r, t) \<longrightarrow>
       (case limit_columns pov impact trigger mcap of
          Inl e \<Rightarrow> isl r \<and> session_map t = session_map s \<and> other_tables s t
        | Inr l \<Rightarrow> refines_update E i
            (\<lambda>q. q\<lparr>s_pov := l_pov l, s_impact := l_impact l, s_trigger := l_trigger l, s_mcap := l_mcap l\<rparr>) s r t))"
proof (intro conjI impI)
  assume run: "update_session_status E session_id st s = (r, t)"
  have "\<exists>v. show_session_status v = st \<and> refines_update E i (\<lambda>q. q\<lparr>s_status := v\<rparr>) s r t" if st: "st \<in> set settable"
  proof -
    obtain v where v: "session_status_of st = Some v" using settable_status [OF st] by auto
    have "refines_update E i (\<lambda>q. q\<lparr>s_status := v\<rparr>) s r t"
      using run assms st v
      by (intro update_then_load [where msg = "''DB error: ''"])
        (simp_all add: update_session_status_def parse_id_def rbind_def of_result_def ok_or_def)
    with session_status_of_Some [OF v] show ?thesis by blast
  qed
  then show "if st \<in> set settable
      then \<exists>v. show_session_status v = st \<and> refines_update E i (\<lambda>q. q\<lparr>s_status := v\<rparr>) s r t
      else r = Inl (InvalidArgument, ''Invalid status'') \<and> t = s"
    using run assms by (auto simp: update_session_status_def parse_id_def rbind_def of_result_def ok_or_def)
next
  assume "update_session_status E session_id st s = (r, t) \<and> st \<in> set settable \<and> (\<exists>q. session_map s i = Some q) \<and>
        db_reply E (calls s) = Served \<and> db_reply E (Suc (calls s)) = Served \<and> db_reply E (Suc (Suc (calls s))) = Served"
  then show "\<exists>info. r = Inr info \<and> si_id info = uuid_show (lib_of E) i \<and> si_status info = st"
    using status_served [OF assms, of st s] by (elim conjE exE) fastforce
next
  assume "toggle_public_sharing E session_id enabled s = (r, t)"
  then show "refines_update E i (\<lambda>q. q\<lparr>s_sharing := enabled\<rparr>) s r t"
    using assms by (intro update_then_load [where msg = "''DB error: ''"])
      (simp_all add: toggle_public_sharing_def parse_id_def rbind_def of_result_def ok_or_def)
next
  assume run: "update_session_config E session_id pov impact trigger mcap s = (r, t)"
  show "case limit_columns pov impact trigger mcap of
      Inl e \<Rightarrow> isl r \<and> session_map t = session_map s \<and> other_tables s t
    | Inr l \<Rightarrow> refines_update E i
        (\<lambda>q. q\<lparr>s_pov := l_pov l, s_impact := l_impact l, s_trigger := l_trigger l, s_mcap := l_mcap l\<rparr>) s r t"
  proof (cases "limit_columns pov impact trigger mcap")
    case (Inl e)
    then show ?thesis
      using run assms
      by (auto simp: update_session_config_def parse_id_def rbind_def of_result_def ok_or_def set_limits_def sql_def
          status_err_def map_err_def Let_def session_map_def session_by_id_def other_tables_def fun_eq_iff
          split: db_reply.splits)
  next
    case (Inr l)
    let ?f = "\<lambda>q. q\<lparr>s_pov := l_pov l, s_impact := l_impact l, s_trigger := l_trigger l, s_mcap := l_mcap l\<rparr>"
    have "sql E (set_limits E i (Inr l)) = exec E (set_session E i ?f)"
      by (simp add: exec_def modify_def set_limits_def [abs_def])
    then have "refines_update E i ?f s r t"
      using run assms Inr by (intro update_then_load [where msg = "''DB error: ''"])
        (simp_all add: update_session_config_def parse_id_def rbind_def of_result_def ok_or_def)
    with Inr show ?thesis by simp
  qed
qed

text \<open>A cancelled session.\<close>

definition cancelled_world :: world where
  "cancelled_world = session_world\<lparr>sessions := [sample_session_row\<lparr>s_status := S_Cancelled\<rparr>]\<rparr>"

theorem session_updates_refine_witness:
  "\<exists>r t info. update_session_status sample_env (show_hex 32 9) ''active'' cancelled_world = (r, t) \<and>
     refines_update sample_env 9 (\<lambda>q. q\<lparr>s_status := S_Active\<rparr>) cancelled_world r t \<and> r = Inr info \<and> si_status info = ''active''"
proof -
  obtain r t where run: "update_session_status sample_env (show_hex 32 9) ''active'' cancelled_world = (r, t)"
    by (cases "update_session_status sample_env (show_hex 32 9) ''active'' cancelled_world")
  have id: "uuid_parse (lib_of sample_env) (show_hex 32 9) = Some 9" by code_simp
  note refine = session_updates_refine [OF id, where st = "''active''" and s = cancelled_world and r = r and t = t]
  obtain v where v: "show_session_status v = ''active''"
    "refines_update sample_env 9 (\<lambda>q. q\<lparr>s_status := v\<rparr>) cancelled_world r t"
    using conjunct1 [OF refine] run by (auto simp: settable_def)
  have "\<exists>q. session_map cancelled_world 9 = Some q"
    by (simp add: session_map_def session_by_id_def cancelled_world_def sample_session_row_def)
  moreover have "db_reply sample_env n = Served" for n by (simp add: sample_env_parts)
  ultimately obtain info where "r = Inr info" "si_status info = ''active''"
    using conjunct1 [OF conjunct2 [OF refine]] run by (auto simp: settable_def)
  moreover from v(1) have "v = S_Active" by (cases v) simp_all
  ultimately show ?thesis using run v(2) by blast
qed

section \<open>What the queries return\<close>

lemma map_each_spec:
  assumes "map_each xs f s = (Inr ys, t)" "\<And>x s y t. x \<in> set xs \<Longrightarrow> f x s = (Inr y, t) \<Longrightarrow> I s \<Longrightarrow> I t \<and> P x y" "I s"
  shows "list_all2 P xs ys \<and> I t"
  using assms
proof (induction xs arbitrary: s ys)
  case (Cons x xs)
  then obtain y u zs where step: "f x s = (Inr y, u)" and rest: "map_each xs f u = (Inr zs, t)" and ys: "ys = y # zs"
    by (auto simp: rbind_Inr_iff)
  have u: "I u \<and> P x y" using Cons.prems(2) [of x s y u] Cons.prems(3) step by simp
  have "list_all2 P xs zs \<and> I t"
    by (rule Cons.IH [OF rest]) (use Cons.prems(2) u in auto)
  with u ys show ?case by simp
qed simp

lemma list_all2_imp_all:
  "list_all2 P xs ys \<Longrightarrow> (\<And>x y. x \<in> set xs \<Longrightarrow> P x y \<Longrightarrow> Q y) \<Longrightarrow> list_all Q ys"
  by (induction rule: list_all2_induct) auto

text \<open>A listed session: the row, with its pools or with none when they could not be read.\<close>

definition lists_row :: "env \<Rightarrow> world \<Rightarrow> session_row \<Rightarrow> session_info \<Rightarrow> bool" where
  "lists_row E s r info \<longleftrightarrow>
     (\<exists>ps. info = (row_to_session_info (lib_of E) r)\<lparr>si_pools := ps\<rparr> \<and>
        (ps = [] \<or> ps = map (pool_row_info (lib_of E)) (pools_of (s_id r) s)))"

lemma list_rows_Inr:
  assumes law: "\<And>u. uuid_parse (lib_of E) (uuid_show (lib_of E) u) = Some u"
    and run: "list_rows E f s = (Inr infos, t)"
  shows "list_all2 (lists_row E s) (f (s\<lparr>calls := Suc (calls s)\<rparr>)) infos"
proof -
  let ?u = "s\<lparr>calls := Suc (calls s)\<rparr>" and ?L = "lib_of E"
  have run': "map_each (map (row_to_session_info ?L) (f ?u)) (attach_pools E) ?u = (Inr infos, t)"
    using run by (auto simp: list_rows_def run_iffs)
  have "list_all2 (\<lambda>x y. \<forall>r. x = row_to_session_info ?L r \<longrightarrow> lists_row E s r y)
      (map (row_to_session_info ?L) (f ?u)) infos \<and> session_pools t = session_pools s"
  proof (rule map_each_spec [OF run', where I = "\<lambda>w. session_pools w = session_pools s"])
    fix x w y v
    assume w: "session_pools w = session_pools s" and step: "attach_pools E x w = (Inr y, v)"
    have frame: "same_tables w v"
      by (rule keepsD [OF tab.keeps_attach step])
    have "lists_row E s r y" if x: "x = row_to_session_info ?L r" for r
    proof -
      have id: "opt_or 0 (uuid_parse ?L (si_id x)) = s_id r" by (simp add: x row_to_session_info_def law)
      obtain res where res: "fetch_session_pools E (s_id r) w = (res, v)" "y = x\<lparr>si_pools := opt_or [] (ok res)\<rparr>"
        using step by (auto simp: attach_pools_def id run_iffs)
      have "ok res = None \<or> ok res = Some (map (pool_row_info ?L) (pools_of (s_id r) s))"
        using res(1) w by (cases res) (auto simp: ok_def fetch_session_pools_def run_iffs pools_of_def)
      then show ?thesis using res(2) x by (auto simp: lists_row_def)
    qed
    with frame w show "session_pools v = session_pools s \<and> (\<forall>r. x = row_to_session_info ?L r \<longrightarrow> lists_row E s r y)"
      by (simp add: same_tables_def)
  qed simp
  then show ?thesis by (simp add: list_all2_map1 list_all2_conv_all_nth)
qed

text \<open>The engine's query for a pool answers with every active session of the chain that watches the pool,
  and with no other, each once and in the order of the table; the pools of a session may be missing
  when reading them failed.  Nothing changes.\<close>

theorem active_sessions_complete:
  assumes "\<And>u. uuid_parse (lib_of E) (uuid_show (lib_of E) u) = Some u" "pool \<noteq> []"
    and "get_active_sessions_for_token E chain token pool s = (Inr infos, t)"
  shows "same_tables s t \<and> list_all2 (lists_row E s) (filter (watches chain pool s) (sessions s)) infos \<and>
    list_all (\<lambda>info. si_status info = ''active'' \<and> si_chain info = chain) infos"
proof -
  have "list_rows E (\<lambda>s. filter (watches chain pool s) (sessions s)) s = (Inr infos, t)"
    using assms by (auto simp: get_active_sessions_for_token_def run_iffs split: if_splits)
  from list_rows_Inr [OF assms(1) this]
  have rows: "list_all2 (lists_row E s) (filter (watches chain pool s) (sessions s)) infos"
    by (simp add: watches_def [abs_def])
  then have "list_all (\<lambda>info. si_status info = ''active'' \<and> si_chain info = chain) infos"
  proof (rule list_all2_imp_all)
    fix r info assume "r \<in> set (filter (watches chain pool s) (sessions s))" "lists_row E s r info"
    then show "si_status info = ''active'' \<and> si_chain info = chain"
      by (auto simp: lists_row_def row_to_session_info_def watches_def)
  qed
  with rows keepsD [OF tab.keeps_active_sessions assms(3)] show ?thesis by blast
qed

text \<open>A session is readable by its public slug exactly as long as sharing is enabled: the lookup returns
  only a session that carries the slug and has sharing enabled, and after a session was made
  private no slug returns it.\<close>

theorem slug_respects_sharing:
  assumes "\<And>u. uuid_parse (lib_of E) (uuid_show (lib_of E) u) = Some u"
    and "get_session_by_slug E slug t = (Inr info, u)"
  shows "(\<exists>r \<in> set (sessions t). s_slug r = Some slug \<and> s_sharing r \<and> si_id info = uuid_show (lib_of E) (s_id r) \<and>
       si_slug info = slug \<and> si_sharing info) \<and>
    (\<forall>s answer. uuid_parse (lib_of E) session_id = Some i \<and> distinct (map s_id (sessions s)) \<and>
       toggle_public_sharing E session_id False s = (Inr answer, t) \<longrightarrow> si_id info \<noteq> uuid_show (lib_of E) i)"
proof -
  let ?L = "lib_of E"
  obtain r where find: "find (\<lambda>r. s_slug r = Some slug \<and> s_sharing r) (sessions t) = Some r"
    and info: "\<exists>ps. info = (row_to_session_info ?L r)\<lparr>si_pools := ps\<rparr>"
    using assms(2) by (auto simp: get_session_by_slug_def Let_def run_iffs shared_as_def)
  from find_Some_in [OF find] have r: "r \<in> set (sessions t)" "s_slug r = Some slug" "s_sharing r" by auto
  have id: "si_id info = uuid_show ?L (s_id r)" using info by (auto simp: row_to_session_info_def)
  have "si_id info \<noteq> uuid_show ?L i"
    if i: "uuid_parse ?L session_id = Some i" and d: "distinct (map s_id (sessions s))"
      and run: "toggle_public_sharing E session_id False s = (Inr answer, t)" for s answer
  proof
    assume "si_id info = uuid_show ?L i"
    then have ri: "s_id r = i" using id assms(1) by (metis option.inject)
    obtain w where w: "sessions w = sessions s" "sessions t = sessions (set_session E i (\<lambda>r. r\<lparr>s_sharing := False\<rparr>) w)"
    proof -
      let ?w = "s\<lparr>calls := Suc (calls s)\<rparr>"
      have "load_session E i (set_session E i (\<lambda>r. r\<lparr>s_sharing := False\<rparr>) ?w) = (Inr answer, t)"
        using run i by (auto simp: toggle_public_sharing_def run_iffs exec_def)
      then have "same_tables (set_session E i (\<lambda>r. r\<lparr>s_sharing := False\<rparr>) ?w) t" by (rule keepsD [OF tab.keeps_load])
      then show ?thesis by (intro that [of ?w]) (simp_all add: same_tables_def)
    qed
    from r(1) obtain q where "r = (if s_id q = i then q\<lparr>s_sharing := False, s_updated := db_now E (calls w)\<rparr> else q)"
      unfolding w(2) set_session_def by (auto dest: set_update_where)
    with ri r(3) show False by (auto split: if_splits)
  qed
  then show ?thesis using r id info by (auto simp: row_to_session_info_def)
qed

section \<open>Creating and reading back\<close>

definition pool_addresses :: "uuid \<Rightarrow> world \<Rightarrow> string list" where
  "pool_addresses i s = map sp_address (filter (\<lambda>p. sp_session p = i) (session_pools s))"

definition insert_pool_step :: "env \<Rightarrow> uuid \<Rightarrow> pool_info \<times> json \<Rightarrow> (world, status, unit) rt" where
  "insert_pool_step E i = (\<lambda>(p, v). status_err Internal ''DB error inserting pool: '' (sql E (insert_session_pool i p v)))"

lemma insert_session_pool_Inr:
  "insert_session_pool i p v s = (Inr u, t) \<Longrightarrow> sessions t = sessions s \<and>
    pool_addresses i t = (if pi_address p \<in> set (pool_addresses i s) then pool_addresses i s
      else pool_addresses i s @ [pi_address p])"
  by (auto simp: insert_session_pool_def pool_addresses_def list_ex_iff image_iff split: option.splits if_splits)

lemma insert_pools_Inr:
  "for_each xs (insert_pool_step E i) s = (Inr u, t) \<Longrightarrow> distinct (pool_addresses i s) \<Longrightarrow>
    sessions t = sessions s \<and> distinct (pool_addresses i t) \<and>
    set (pool_addresses i t) = set (pool_addresses i s) \<union> pi_address ` fst ` set xs"
proof (induction xs arbitrary: s)
  case (Cons x xs)
  obtain p v where x: "x = (p, v)" by (cases x)
  from Cons.prems(1) obtain u' w where
    step: "insert_session_pool i p v (s\<lparr>calls := Suc (calls s)\<rparr>) = (Inr u', w)"
    and rest: "for_each xs (insert_pool_step E i) w = (Inr u, t)"
    by (auto simp: insert_pool_step_def x run_iffs)
  have w: "sessions w = sessions s" "distinct (pool_addresses i w)"
    "set (pool_addresses i w) = insert (pi_address p) (set (pool_addresses i s))"
    using insert_session_pool_Inr [OF step] Cons.prems(2) by (auto simp: pool_addresses_def)
  with Cons.IH [OF rest] show ?case by (auto simp: x)
qed simp

text \<open>If the addresses differ, every pool is stored with its route, in the order of the request.\<close>

definition pool_entries :: "uuid \<Rightarrow> world \<Rightarrow> (string \<times> json option) list" where
  "pool_entries i s = map (\<lambda>q. (sp_address q, sp_path q)) (filter (\<lambda>p. sp_session p = i) (session_pools s))"

lemma insert_entries_Inr:
  "for_each xs (insert_pool_step E i) s = (Inr u, t) \<Longrightarrow> distinct (map (\<lambda>x. pi_address (fst x)) xs) \<Longrightarrow>
    \<forall>x \<in> set xs. pi_address (fst x) \<notin> fst ` set (pool_entries i s) \<Longrightarrow>
    pool_entries i t = pool_entries i s @ map (\<lambda>(p, v). (pi_address p, Some v)) xs"
proof (induction xs arbitrary: s)
  case (Cons x xs)
  obtain p v where x: "x = (p, v)" by (cases x)
  from Cons.prems(1) obtain u' w where
    step: "insert_session_pool i p v (s\<lparr>calls := Suc (calls s)\<rparr>) = (Inr u', w)"
    and rest: "for_each xs (insert_pool_step E i) w = (Inr u, t)"
    by (auto simp: insert_pool_step_def x run_iffs)
  have "pi_address p \<notin> fst ` set (pool_entries i s)" using Cons.prems(3) by (simp add: x)
  then have w: "pool_entries i w = pool_entries i s @ [(pi_address p, Some v)]"
    using step by (auto simp: insert_session_pool_def pool_entries_def list_ex_iff image_iff split: option.splits if_splits)
  have "pool_entries i t = pool_entries i w @ map (\<lambda>(p, v). (pi_address p, Some v)) xs"
    using Cons.prems(2,3) by (intro Cons.IH [OF rest]) (force simp: w x)+
  then show ?case by (simp add: w x)
qed simp

lemma parse_pool_paths_each:
  "parse_pool_paths L ps = Inr vs \<Longrightarrow> (p, v) \<in> set (zip ps vs) \<Longrightarrow> parse_pool_swap_path_json L (pi_path_json p) (pi_address p) = Inr v"
  by (induction ps arbitrary: vs) (auto simp: parse_pool_paths_def sbind_Inr)

lemma parse_pool_paths_length: "parse_pool_paths L ps = Inr vs \<Longrightarrow> length vs = length ps"
  by (induction ps arbitrary: vs) (auto simp: parse_pool_paths_def sbind_Inr)

lemma create_session_Inr:
  assumes "create_session E req s = (Inr info, t)"
  obtains i user wallet path slug amount lims tm paths u w where
    "info = created_info (lib_of E) req i user wallet slug tm"
    "total_column (lib_of E) (cs_total req) = Inr amount"
    "limit_columns (cs_pov req) (cs_impact req) (cs_trigger req) (cs_mcap req) = Inr lims"
    "insert_session (new_session req i user wallet path slug amount lims tm) u = (Inr (), w)"
    "uuid_parse (lib_of E) (cs_user req) = Some user" "uuid_parse (lib_of E) (cs_wallet req) = Some wallet"
    "session_path (lib_of E) (cs_path_json req) = Inr path"
    "parse_pool_paths (lib_of E) (cs_pools req) = Inr paths" "length paths = length (cs_pools req)"
    "for_each (zip (cs_pools req) paths) (insert_pool_step E i) w = (Inr (), t)"
    "same_tables s u"
proof -
  from assms obtain i user wallet path slug tm paths w k where
    info: "info = created_info (lib_of E) req i user wallet slug tm"
    and paths: "parse_pool_paths (lib_of E) (cs_pools req) = Inr paths"
    and ids: "uuid_parse (lib_of E) (cs_user req) = Some user" "uuid_parse (lib_of E) (cs_wallet req) = Some wallet"
    and path: "session_path (lib_of E) (cs_path_json req) = Inr path"
    and store: "store_session E req i user wallet path slug (s\<lparr>calls := k\<rparr>) = (Inr tm, w)"
    and loop: "for_each (zip (cs_pools req) paths) (insert_pool_step E i) w = (Inr (), t)"
    by (auto simp: create_session_def Let_def run_iffs insert_pool_step_def parse_id_def)
  from store obtain amount lims where
    amount: "total_column (lib_of E) (cs_total req) = Inr amount"
    and lims: "limit_columns (cs_pov req) (cs_impact req) (cs_trigger req) (cs_mcap req) = Inr lims"
    by (auto simp: store_session_def Let_def split: sum.splits)
  with store have tm: "insert_session (new_session req i user wallet path slug amount lims tm) (s\<lparr>calls := k\<rparr>) = (Inr (), w)"
    by (auto simp: store_session_def Let_def rbind_Inr_iff)
  show ?thesis
    by (rule that [OF info amount lims tm ids path paths parse_pool_paths_length [OF paths] loop]) (simp add: same_tables_def)
qed

text \<open>The pools of a session that was just created, if the addresses of the request differ.\<close>

lemma created_entries:
  assumes owned: "\<forall>p \<in> set (session_pools s). \<exists>r \<in> set (sessions s). s_id r = sp_session p"
    and run: "create_session E req s = (Inr info, t)" and differ: "distinct (map pi_address (cs_pools req))"
  shows "\<exists>i paths. si_id info = uuid_show (lib_of E) i \<and> length paths = length (cs_pools req) \<and>
    parse_pool_paths (lib_of E) (cs_pools req) = Inr paths \<and>
    pool_entries i t = map (\<lambda>(p, v). (pi_address p, Some v)) (zip (cs_pools req) paths)"
proof (rule create_session_Inr [OF run])
  fix i user wallet path slug amount lims tm paths u w
  assume info: "info = created_info (lib_of E) req i user wallet slug tm"
    and ins: "insert_session (new_session req i user wallet path slug amount lims tm) u = (Inr (), w)"
    and paths: "parse_pool_paths (lib_of E) (cs_pools req) = Inr paths" "length paths = length (cs_pools req)"
    and loop: "for_each (zip (cs_pools req) paths) (insert_pool_step E i) w = (Inr (), t)"
    and frame: "same_tables s u"
  from ins have w: "session_pools w = session_pools u" and fresh: "\<forall>r \<in> set (sessions u). s_id r \<noteq> i"
    by (auto simp: insert_session_def session_conflict_def new_session_def list_ex_iff split: if_splits)
  have none: "pool_entries i w = []"
    using owned fresh frame w by (auto simp: pool_entries_def same_tables_def filter_empty_conv)
  have "map fst (zip (cs_pools req) paths) = cs_pools req" by (rule map_fst_zip) (simp add: paths(2))
  moreover have "map (\<lambda>x. pi_address (fst x)) (zip (cs_pools req) paths) = map pi_address (map fst (zip (cs_pools req) paths))"
    by simp
  ultimately have "map (\<lambda>x. pi_address (fst x)) (zip (cs_pools req) paths) = map pi_address (cs_pools req)" by simp
  then have "pool_entries i t = map (\<lambda>(p, v). (pi_address p, Some v)) (zip (cs_pools req) paths)"
    using insert_entries_Inr [OF loop] differ none by simp
  with info paths show ?thesis by (intro exI [of _ i] exI [of _ paths]) (simp add: created_info_def)
qed

text \<open>C40: A created session can be read back: it is pending, nothing of it is sold, it carries the requested
  chain, tokens, owner, wallet and route, the slug that was answered, and is shared; its total and its four thresholds
  are those of the request after the rounding of their columns (two decimals), and it watches exactly the requested
  pools, each once.\<close>

theorem create_then_get:
  assumes law: "\<And>u. uuid_parse (lib_of E) (uuid_show (lib_of E) u) = Some u"
    and owned: "\<forall>p \<in> set (session_pools s). \<exists>r \<in> set (sessions s). s_id r = sp_session p"
    and run: "create_session E req s = (Inr info, t)"
    and db: "db_reply E (calls t) = Served" "db_reply E (Suc (calls t)) = Served"
  shows "\<exists>got u amount pov impact trigger mcap user wallet path. get_session E (si_id info) t = (Inr got, u) \<and>
    total_column (lib_of E) (cs_total req) = Inr amount \<and>
    float_column 5 2 (cs_pov req) = Inr pov \<and> float_column 5 2 (cs_impact req) = Inr impact \<and>
    float_column 18 2 (cs_trigger req) = Inr trigger \<and> float_column 30 2 (cs_mcap req) = Inr mcap \<and>
    uuid_parse (lib_of E) (cs_user req) = Some user \<and> uuid_parse (lib_of E) (cs_wallet req) = Some wallet \<and>
    session_path (lib_of E) (cs_path_json req) = Inr path \<and>
    si_id got = si_id info \<and> si_user got = uuid_show (lib_of E) user \<and> si_wallet got = uuid_show (lib_of E) wallet \<and>
    si_chain got = cs_chain req \<and> si_strategy got = cs_strategy req \<and>
    si_status got = ''pending'' \<and> si_sold got = ''0'' \<and> si_total got = show_int amount \<and>
    si_sell_token got = cs_sell_token req \<and> si_sell_symbol got = cs_sell_symbol req \<and>
    si_sell_decimals got = cs_sell_decimals req \<and> si_target_token got = cs_target_token req \<and>
    si_target_symbol got = cs_target_symbol req \<and> si_target_decimals got = cs_target_decimals req \<and>
    si_slug got = si_slug info \<and> si_sharing got \<and> si_path_json got = opt_or [] (map_option (json_show (lib_of E)) path) \<and>
    si_pov got = read_percent (lib_of E) (Fin 10) pov \<and> si_impact got = read_percent (lib_of E) (Fin 1) impact \<and>
    si_trigger got = read_percent (lib_of E) (Fin 100) trigger \<and> si_mcap got = read_percent (lib_of E) (Fin 0) mcap \<and>
    distinct (map pi_address (si_pools got)) \<and>
    set (map pi_address (si_pools got)) = set (map pi_address (cs_pools req))"
proof (rule create_session_Inr [OF run])
  fix i user wallet path slug amount lims tm paths u w
  let ?L = "lib_of E" and ?row = "new_session req i user wallet path slug amount lims tm"
  assume info: "info = created_info ?L req i user wallet slug tm"
    and amount: "total_column ?L (cs_total req) = Inr amount"
    and lims: "limit_columns (cs_pov req) (cs_impact req) (cs_trigger req) (cs_mcap req) = Inr lims"
    and ins: "insert_session ?row u = (Inr (), w)"
    and ids: "uuid_parse ?L (cs_user req) = Some user" "uuid_parse ?L (cs_wallet req) = Some wallet"
    and path: "session_path ?L (cs_path_json req) = Inr path"
    and paths: "parse_pool_paths ?L (cs_pools req) = Inr paths" and len: "length paths = length (cs_pools req)"
    and loop: "for_each (zip (cs_pools req) paths) (insert_pool_step E i) w = (Inr (), t)"
    and frame: "same_tables s u"
  from ins have w: "sessions w = sessions u @ [?row]" "session_pools w = session_pools u"
    and fresh: "\<forall>r \<in> set (sessions u). s_id r \<noteq> i"
    by (auto simp: insert_session_def session_conflict_def new_session_def list_ex_iff split: if_splits)
  have none: "pool_addresses i w = []"
    using owned fresh frame w(2) by (auto simp: pool_addresses_def same_tables_def filter_empty_conv)
  have fsts: "fst ` set (zip (cs_pools req) paths) = set (cs_pools req)"
    using len by (metis list.set_map map_fst_zip)
  have t: "sessions t = sessions u @ [?row]" "distinct (pool_addresses i t)"
    "set (pool_addresses i t) = set (map pi_address (cs_pools req))"
    using insert_pools_Inr [OF loop] none w(1) fsts by auto
  have find: "session_by_id i t = Some ?row"
    unfolding session_by_id_def t(1) using fresh
    by (intro find_unique) (auto simp: new_session_def)
  let ?got = "(row_to_session_info ?L ?row)\<lparr>si_pools := map (pool_row_info ?L) (pools_of i t)\<rparr>"
  have get: "get_session E (si_id info) t = (Inr ?got, t\<lparr>calls := Suc (Suc (calls t))\<rparr>)"
    using load_served [OF find db] by (simp add: info created_info_def get_session_def run_iffs law)
  have addr: "pi_address \<circ> pool_row_info ?L = sp_address" "show_nat 0 = ''0''"
    by (simp add: fun_eq_iff pool_row_info_def) code_simp
  have "mset (map sp_address (pools_of i t)) = mset (pool_addresses i t)"
    by (simp add: pools_of_def pool_addresses_def mset_map)
  then have pools: "distinct (map sp_address (pools_of i t))"
    "set (map sp_address (pools_of i t)) = set (map pi_address (cs_pools req))"
    using t(2,3) mset_eq_imp_distinct_iff mset_eq_setD by blast+
  have columns: "float_column 5 2 (cs_pov req) = Inr (l_pov lims)" "float_column 5 2 (cs_impact req) = Inr (l_impact lims)"
    "float_column 18 2 (cs_trigger req) = Inr (l_trigger lims)" "float_column 30 2 (cs_mcap req) = Inr (l_mcap lims)"
    using lims by (auto simp: limit_columns_def sbind_Inr)
  show ?thesis
    using get amount columns ids path pools addr
    by (intro exI [of _ ?got] exI [of _ "t\<lparr>calls := Suc (Suc (calls t))\<rparr>"] exI [of _ amount] exI [of _ "l_pov lims"]
        exI [of _ "l_impact lims"] exI [of _ "l_trigger lims"] exI [of _ "l_mcap lims"] exI [of _ user] exI [of _ wallet] exI [of _ path])
      (simp add: row_to_session_info_def new_session_def info created_info_def show_int_def image_comp)
qed

definition sample_create :: create_session_request where
  "sample_create = \<lparr>cs_user = show_hex 32 3, cs_wallet = show_hex 32 0, cs_chain = ''bsc'',
     cs_sell_token = ''0x0000000000000000000000000000000000000001'', cs_sell_symbol = ''A'', cs_sell_decimals = 18,
     cs_target_token = ''0x0000000000000000000000000000000000000002'', cs_target_symbol = ''B'', cs_target_decimals = 18,
     cs_strategy = ''pov'', cs_total = ''1000'', cs_pov = Fin 10, cs_impact = Fin 5, cs_trigger = Fin 0,
     cs_path_json = [],
     cs_pools = [\<lparr>pi_address = ''0x00000000000000000000000000000000000000aa'', pi_type = ''v2'', pi_dex = ''pancakeswap'',
       pi_token0 = ''0x0000000000000000000000000000000000000001'', pi_token1 = ''0x0000000000000000000000000000000000000002'',
       pi_fee = 0, pi_reserve0 = [], pi_reserve1 = [], pi_liquidity = [], pi_balance0 = [], pi_balance1 = [],
       pi_price0 = Fin 0, pi_price1 = Fin 0, pi_path_json = ''route''\<rparr>],
     cs_mcap = Fin 0\<rparr>"

lemma sample_create_runs: "\<exists>info t. create_session sample_env sample_create wallet_world = (Inr info, t)"
proof -
  let ?m = "create_session sample_env sample_create wallet_world"
  let ?p = "''0x00000000000000000000000000000000000000aa''"
  have ids: "uuid_parse sample_lib (show_hex 32 3) = Some 3" "uuid_parse sample_lib (show_hex 32 0) = Some 0"
    by code_simp+
  have nums: "total_column sample_lib ''1000'' = Inr 1000"
    "limit_columns (Fin 10) (Fin 5) (Fin 0) (Fin 0) = Inr \<lparr>l_pov = 10, l_impact = 5, l_trigger = 0, l_mcap = 0\<rparr>"
    by code_simp+
  have path: "\<not> isl (parse_pool_swap_path_json sample_lib ''route'' ?p)" by code_simp
  then obtain v where path: "parse_pool_swap_path_json sample_lib ''route'' ?p = Inr v"
    by (cases "parse_pool_swap_path_json sample_lib ''route'' ?p") auto
  have "\<not> isl (fst ?m)"
    by (simp add: create_session_def sample_create_def sample_env_parts parse_id_def rbind_def of_result_def ok_or_def
        ids fresh_def ask_def parse_pool_paths_def path sbind_def session_path_def status_err_def map_err_def
        sql_def Let_def store_session_def nums insert_session_def new_session_def chain_ids_def wallet_world_def
        user_world_def empty_world_def sample_user_def sample_wallet_def ret_def insert_session_pool_def
        pool_type_column_def)
  then show ?thesis by (cases ?m; cases "fst ?m") auto
qed

theorem create_then_get_witness:
  "\<exists>info t got u. create_session sample_env sample_create wallet_world = (Inr info, t) \<and>
     get_session sample_env (si_id info) t = (Inr got, u) \<and> si_status got = ''pending'' \<and>
     set (map pi_address (si_pools got)) = {''0x00000000000000000000000000000000000000aa''}"
proof -
  obtain info t where run: "create_session sample_env sample_create wallet_world = (Inr info, t)"
    using sample_create_runs by blast
  have owned: "\<forall>p \<in> set (session_pools wallet_world). \<exists>r \<in> set (sessions wallet_world). s_id r = sp_session p"
    by (simp add: wallet_world_def user_world_def empty_world_def)
  have db: "db_reply sample_env n = Served" for n by (simp add: sample_env_parts)
  obtain got u where "get_session sample_env (si_id info) t = (Inr got, u)" "si_status got = ''pending''"
    "set (map pi_address (si_pools got)) = set (map pi_address (cs_pools sample_create))"
    using create_then_get [OF sample_uuid_law owned run db db] by blast
  moreover have "set (map pi_address (cs_pools sample_create)) = {''0x00000000000000000000000000000000000000aa''}"
    by (simp add: sample_create_def)
  ultimately show ?thesis using run by (intro exI conjI) auto
qed

theorem active_sessions_complete_witness:
  "\<exists>infos t. get_active_sessions_for_token sample_env ''bsc'' [] ''0xaa'' session_world = (Inr infos, t) \<and>
     length infos = length (filter (watches ''bsc'' ''0xaa'' session_world) [sample_session_row])"
proof -
  let ?m = "get_active_sessions_for_token sample_env ''bsc'' [] ''0xaa'' session_world"
  have "\<not> isl (fst ?m)"
    by (simp add: get_active_sessions_for_token_def chain_ids_def list_rows_def status_err_def map_err_def query_def
        sql_def gets_def sample_env_parts rbind_def Let_def session_world_def empty_world_def watches_def ret_def)
  then obtain infos t where run: "?m = (Inr infos, t)" by (cases ?m; cases "fst ?m") auto
  have "''0xaa'' \<noteq> []" by simp
  from active_sessions_complete [OF sample_uuid_law this run] run show ?thesis
    by (auto simp: session_world_def dest!: list_all2_lengthD)
qed

theorem slug_respects_sharing_witness:
  "\<exists>info t. get_session_by_slug sample_env ''s''
       (session_world\<lparr>sessions := [sample_session_row\<lparr>s_slug := Some ''s'', s_sharing := True\<rparr>]\<rparr>) = (Inr info, t) \<and>
     si_sharing info"
proof -
  let ?w = "session_world\<lparr>sessions := [sample_session_row\<lparr>s_slug := Some ''s'', s_sharing := True\<rparr>]\<rparr>"
  let ?m = "get_session_by_slug sample_env ''s'' ?w"
  have "\<not> isl (fst ?m)"
    by (simp add: get_session_by_slug_def shared_as_def status_err_def map_err_def query_def sql_def gets_def
        sample_env_parts rbind_def Let_def of_result_def ok_or_def fetch_session_pools_def ret_def)
  then obtain info t where run: "?m = (Inr info, t)" by (cases ?m; cases "fst ?m") auto
  from slug_respects_sharing [OF sample_uuid_law run] run show ?thesis by blast
qed

end
