(* ===== verification/Events.thy ===== *)
theory Events
  imports Proto Sample
begin

text \<open>
  The swap event on the message bus (\<open>crates/common/src/types.rs\<close>): the JSON the derived
  serializer writes and the derived deserializer reads.
\<close>

definition event_json :: "dex_swap_event \<Rightarrow> json" where
  "event_json e = JObj
     [(''chain'', JStr (ev_chain e)), (''block_number'', JPos (ev_block_number e)),
      (''tx_hash'', JStr (ev_tx_hash e)), (''log_index'', JPos (ucast (ev_log_index e))),
      (''pool_address'', JStr (ev_pool_address e)), (''dex_type'', JStr (ev_dex_type e)),
      (''token_in'', JStr (ev_token_in e)), (''token_out'', JStr (ev_token_out e)),
      (''amount_in'', JStr (ev_amount_in e)), (''amount_out'', JStr (ev_amount_out e)),
      (''sender'', JStr (ev_sender e)), (''recipient'', JStr (ev_recipient e)),
      (''timestamp'', JPos (ev_timestamp e)), (''token0_is_input'', JBool (ev_token0_is_input e))]"

definition j_field :: "string \<Rightarrow> json \<Rightarrow> string option" where
  "j_field k j = opt_bind (j_get k j) j_str"

definition j_num :: "string \<Rightarrow> json \<Rightarrow> u64 option" where
  "j_num k j = opt_bind (j_get k j) j_u64"

definition j_num32 :: "string \<Rightarrow> json \<Rightarrow> u32 option" where
  "j_num32 k j = opt_bind (j_num k j) (\<lambda>n. if unat n \<le> max_u32 then Some (ucast n) else None)"

fun j_bool :: "json \<Rightarrow> bool option" where
  "j_bool (JBool b) = Some b"
| "j_bool j = None"

definition event_of_json :: "json \<Rightarrow> dex_swap_event option" where
  "event_of_json j =
     opt_bind (j_field ''chain'' j) (\<lambda>chain. opt_bind (j_num ''block_number'' j) (\<lambda>block.
     opt_bind (j_field ''tx_hash'' j) (\<lambda>tx. opt_bind (j_num32 ''log_index'' j) (\<lambda>li.
     opt_bind (j_field ''pool_address'' j) (\<lambda>pool. opt_bind (j_field ''dex_type'' j) (\<lambda>dex.
     opt_bind (j_field ''token_in'' j) (\<lambda>tin. opt_bind (j_field ''token_out'' j) (\<lambda>tout.
     opt_bind (j_field ''amount_in'' j) (\<lambda>ain. opt_bind (j_field ''amount_out'' j) (\<lambda>aout.
     opt_bind (j_field ''sender'' j) (\<lambda>sender. opt_bind (j_field ''recipient'' j) (\<lambda>recipient.
     opt_bind (j_num ''timestamp'' j) (\<lambda>ts.
     opt_bind (case j_get ''token0_is_input'' j of None \<Rightarrow> Some False | Some v \<Rightarrow> j_bool v) (\<lambda>dir.
     Some \<lparr>ev_chain = chain, ev_block_number = block, ev_tx_hash = tx, ev_log_index = li, ev_pool_address = pool,
       ev_dex_type = dex, ev_token_in = tin, ev_token_out = tout, ev_amount_in = ain, ev_amount_out = aout,
       ev_sender = sender, ev_recipient = recipient, ev_timestamp = ts, ev_token0_is_input = dir\<rparr>))))))))))))))"

lemma event_roundtrip [simp]: "event_of_json (event_json e) = Some e"
proof -
  have "unat (ucast (ev_log_index e) :: u64) = unat (ev_log_index e)"
    using unsigned_less [of "ev_log_index e", where ?'a = nat] by (simp add: unsigned_ucast_eq take_bit_eq_mod)
  moreover have "unat (ev_log_index e) \<le> max_u32"
    using unsigned_less [of "ev_log_index e", where ?'a = nat] by (simp add: max_u32_def)
  moreover have "ucast (ucast (ev_log_index e) :: u64) = ev_log_index e"
    by (rule ucast_up_ucast_id) (simp add: is_up source_size target_size)
  ultimately show ?thesis
    by (simp add: event_json_def event_of_json_def j_field_def j_num_def j_num32_def opt_bind_def)
qed

end
