(* ===== verification/Engine.thy ===== *)
theory Engine
  imports Oracle Sessions Events
begin

text \<open>
  The execution engine (\<open>crates/execution-engine/src/main.rs\<close>): what happens when a swap event
  arrives.  \<open>process_session\<close> is the body of the loop over the sessions that watch the pool, in the
  stages of the code: the direction of the swap, the guards (USD trigger, market capitalisation,
  size, route, price impact), the preparation (router, wallet, allowance, quote, calldata), the
  submission, the recording, and the completion of a fully sold session.  A stage that skips the
  session (\<open>continue\<close>) answers \<open>None\<close>; a failed stage whose error is only logged is a skip.
\<close>

section \<open>Skipping\<close>

definition obind :: "(world, err, 'a option) rt \<Rightarrow> ('a \<Rightarrow> (world, err, 'b option) rt) \<Rightarrow> (world, err, 'b option) rt" where
  "obind m f = rbind m (\<lambda>x. case x of None \<Rightarrow> ret None | Some v \<Rightarrow> f v)"

definition or_skip :: "(world, err, 'a) rt \<Rightarrow> (world, err, 'a option) rt" where
  "or_skip m = rbind (attempt m) (\<lambda>r. ret (ok r))"

section \<open>Direction and guards\<close>

definition pool_of_event :: "session_info \<Rightarrow> dex_swap_event \<Rightarrow> pool_info option" where
  "pool_of_event session event = find (\<lambda>p. eq_ic (pi_address p) (ev_pool_address event)) (si_pools session)"

definition resolved_token_out :: "dex_swap_event \<Rightarrow> pool_info \<Rightarrow> string" where
  "resolved_token_out event p = (if ev_token0_is_input event then pi_token1 p else pi_token0 p)"

definition trade_direction :: "session_info \<Rightarrow> dex_swap_event \<Rightarrow> (pool_info \<times> pool_type) option" where
  "trade_direction session event =
     opt_bind (pool_of_event session event) (\<lambda>p.
     if \<not> eq_ic (resolved_token_out event p) (si_sell_token session) then None
     else map_option (Pair p) (pool_type_from_str (pi_type p)))"

definition trigger_guard ::
  "env \<Rightarrow> addr \<Rightarrow> session_info \<Rightarrow> dex_swap_event \<Rightarrow> pool_info \<Rightarrow> pool_type \<Rightarrow> u256 \<Rightarrow> (world, err, unit option) rt" where
  "trigger_guard E orc session event p pt buy_amount =
     (if \<not> f_lt (Fin 0) (si_trigger session) then ret (Some ())
      else
        obind (or_skip (fetch_buy_amount_usd_from_oracle E (si_chain session) orc (resolved_token_out event p)
                 (ev_pool_address event) (pool_type_to_oracle_version pt) buy_amount (si_sell_decimals session))) (\<lambda>usd.
        ret (opt_bind usd (\<lambda>buy_usd. if f_lt buy_usd (si_trigger session) then None else Some ()))))"

definition market_cap_snapshot ::
  "env \<Rightarrow> addr \<Rightarrow> session_info \<Rightarrow> dex_swap_event \<Rightarrow> pool_info \<Rightarrow> pool_type \<Rightarrow> (world, err, f64 option option) rt" where
  "market_cap_snapshot E orc session event p pt =
     rbind (attempt (fetch_token_market_cap_usd_from_oracle E (si_chain session) orc (resolved_token_out event p)
              (ev_pool_address event) (pool_type_to_oracle_version pt) (si_sell_decimals session)
              :: (world, err, f64 option) rt)) (\<lambda>r.
     ret (case r of
            Inr cap \<Rightarrow> Some cap
          | Inl e \<Rightarrow> if f_lt (Fin 0) (si_mcap session) then None else Some None))"

definition market_cap_guard :: "session_info \<Rightarrow> f64 option \<Rightarrow> bool" where
  "market_cap_guard session cap \<longleftrightarrow>
     (if f_lt (Fin 0) (si_mcap session)
      then (case cap of None \<Rightarrow> False | Some c \<Rightarrow> f_le (si_mcap session) c)
      else True)"

definition buy_amount_of :: "lib \<Rightarrow> dex_swap_event \<Rightarrow> u256" where
  "buy_amount_of L event = opt_or 0 (u256_radix L 10 (ev_amount_out event))"

definition total_of :: "lib \<Rightarrow> session_info \<Rightarrow> u256" where
  "total_of L session = opt_or 0 (u256_radix L 10 (si_total session))"

definition sold_of :: "lib \<Rightarrow> session_info \<Rightarrow> u256" where
  "sold_of L session = opt_or 0 (u256_radix L 10 (si_sold session))"

definition pov_bps_of :: "session_info \<Rightarrow> u64" where
  "pov_bps_of session = f_as_u64 (f_mul (si_pov session) (Fin 100))"

text \<open>The size of the sale; the multiplication wraps.\<close>

definition sale_size :: "lib \<Rightarrow> session_info \<Rightarrow> u256 \<Rightarrow> u256 option" where
  "sale_size L session buy_amount =
     (let sell_amount = (buy_amount * ucast (pov_bps_of session)) div 10000;
          remaining = sat_sub (total_of L session) (sold_of L session)
      in if remaining = 0 then None else Some (min sell_amount remaining))"

definition max_impact_of :: "env \<Rightarrow> session_info \<Rightarrow> u32" where
  "max_impact_of E session =
     min (f_as_u32 (f_mul (si_impact session) (Fin 100))) (max_price_impact_bps (execution (cfg E)))"

record trade_plan =
  pl_pool :: pool_info
  pl_type :: pool_type
  pl_mcap :: "f64 option"
  pl_amount :: u256
  pl_route :: pool_swap_route
  pl_sell_token :: string
  pl_impact :: u32

definition plan_size_and_impact ::
  "env \<Rightarrow> session_info \<Rightarrow> dex_swap_event \<Rightarrow> pool_info \<Rightarrow> pool_type \<Rightarrow> u256 \<Rightarrow> f64 option
     \<Rightarrow> (world, err, trade_plan option) rt" where
  "plan_size_and_impact E session event p pt buy_amount cap =
     obind (ret (sale_size (lib_of E) session buy_amount)) (\<lambda>sell_amount.
     obind (ret (parse_pool_swap_route (lib_of E) (pi_path_json p) (ev_pool_address event))) (\<lambda>route.
     case pr_hop_tokens route of
       [] \<Rightarrow> ret None
     | sell_token # _ \<Rightarrow>
         obind (or_skip (calculate_price_impact E (si_chain session) (ev_pool_address event) pt sell_token sell_amount)) (\<lambda>impact.
         if max_impact_of E session < impact then ret None
         else ret (Some \<lparr>pl_pool = p, pl_type = pt, pl_mcap = cap, pl_amount = sell_amount, pl_route = route,
                pl_sell_token = sell_token, pl_impact = impact\<rparr>))))"

definition plan_trade ::
  "env \<Rightarrow> addr \<Rightarrow> session_info \<Rightarrow> dex_swap_event \<Rightarrow> u256 \<Rightarrow> (world, err, trade_plan option) rt" where
  "plan_trade E orc session event buy_amount =
     obind (ret (trade_direction session event)) (\<lambda>(p, pt).
     obind (trigger_guard E orc session event p pt buy_amount) (\<lambda>_.
     obind (market_cap_snapshot E orc session event p pt) (\<lambda>cap.
     if \<not> market_cap_guard session cap then ret None
     else plan_size_and_impact E session event p pt buy_amount cap)))"

section \<open>Preparation and submission\<close>

definition router_of :: "env \<Rightarrow> session_info \<Rightarrow> trade_plan \<Rightarrow> addr option" where
  "router_of E session pl =
     opt_bind (dex_router_for_chain (cfg E) (si_chain session) (pi_dex (pl_pool pl)) (pl_type pl))
       (addr_parse (lib_of E))"

definition approve_sale ::
  "env \<Rightarrow> session_info \<Rightarrow> trade_plan \<Rightarrow> addr \<Rightarrow> addr \<Rightarrow> (world, err, unit option) rt" where
  "approve_sale E session pl router recipient =
     (if is_native_placeholder_address (pl_sell_token pl) then ret (Some ())
      else or_skip (ensure_token_approval E (si_chain session) (si_wallet session) recipient (pl_sell_token pl)
             router (pl_amount pl)))"

definition swap_value :: "env \<Rightarrow> session_info \<Rightarrow> trade_plan \<Rightarrow> u256" where
  "swap_value E session pl =
     (case resolve_route_tokens_for_native E (pl_route pl) (si_chain session) of
        Inl _ \<Rightarrow> 0
      | Inr (_, native_input, _) \<Rightarrow> if native_input then pl_amount pl else 0)"

definition submit_swap ::
  "env \<Rightarrow> session_info \<Rightarrow> trade_plan \<Rightarrow> (world, err, (string \<times> addr) option) rt" where
  "submit_swap E session pl =
     obind (ret (router_of E session pl)) (\<lambda>router.
     obind (or_skip (resolve_session_wallet_address E (si_wallet session) (si_chain session))) (\<lambda>recipient.
     obind (approve_sale E session pl router recipient) (\<lambda>_.
     obind (or_skip (get_on_chain_quote E (si_chain session) router (pl_amount pl) (pl_route pl) (pl_type pl))) (\<lambda>expected_output.
     obind (or_skip (build_swap_calldata E (pl_amount pl) expected_output (pl_route pl) (pl_type pl)
              (pi_fee (pl_pool pl)) recipient (si_chain session) (session_slippage_bps session))) (\<lambda>calldata.
     obind (or_skip (build_sign_and_submit_tx E (si_chain session) (chain_id_of E (si_chain session))
              (si_wallet session) recipient router calldata (swap_value E session pl))) (\<lambda>tx_hash.
     ret (Some (tx_hash, recipient))))))))"

section \<open>Completion\<close>

definition session_received :: "uuid \<Rightarrow> world \<Rightarrow> string" where
  "session_received i s =
     show_int (sum_list (map (\<lambda>t. opt_or 0 (t_received t))
       (filter (\<lambda>t. t_session t = i \<and> t_status t = T_Confirmed) (trades s))))"

definition session_owner :: "uuid \<Rightarrow> world \<Rightarrow> (string \<times> string) option" where
  "session_owner i s =
     opt_bind (find (\<lambda>r. s_id r = i) (sessions s)) (\<lambda>r.
     opt_bind (find (\<lambda>w. w_id w = s_wallet r) (wallets s)) (\<lambda>w.
     opt_bind (find (\<lambda>u. u_id u = w_user w) (users s)) (\<lambda>u.
     if u_role u = Common then Some (u_email u, opt_or (u_email u) (u_username u)) else None)))"

definition shortfall_json :: "session_info \<Rightarrow> string \<times> string \<Rightarrow> f64 \<Rightarrow> f64 \<Rightarrow> json" where
  "shortfall_json session owner received required =
     JObj [(''type'', JStr ''shortfall_alert''), (''session_id'', JStr (si_id session)),
       (''user_email'', JStr (fst owner)), (''username'', JStr (snd owner)),
       (''received_usd'', JFloat received), (''required_usd'', JFloat required),
       (''shortfall_usd'', JFloat (f_sub required received))]"

text \<open>A statement or a call whose error is dropped.\<close>

definition ignore :: "(world, err, 'a) rt \<Rightarrow> (world, err, unit) rt" where
  "ignore m = rbind (attempt m :: (world, err, err + 'a) rt) (\<lambda>_. ret ())"

definition shortfall_alert :: "env \<Rightarrow> session_info \<Rightarrow> uuid \<Rightarrow> (world, err, unit) rt" where
  "shortfall_alert E session i =
     rbind (attempt (query E (session_received i) :: (world, err, string) rt)) (\<lambda>row.
     case row of
       Inl _ \<Rightarrow> ret ()
     | Inr text \<Rightarrow>
         let required = min_deposit_amount_usd (execution (cfg E));
             received = f_div (opt_or (Fin 0) (f_parse text)) (rnd (10 ^ 18))
         in if \<not> (f_lt received required \<and> f_lt (Fin 0) received) then ret ()
            else
              rbind (attempt (query E (session_owner i) :: (world, err, (string \<times> string) option) rt)) (\<lambda>user.
              case opt_bind (ok user) id of
                None \<Rightarrow> ret ()
              | Some owner \<Rightarrow> publish E ''session.shortfall'' (shortfall_json session owner received required)))"

definition complete_session :: "env \<Rightarrow> session_info \<Rightarrow> (world, err, unit) rt" where
  "complete_session E session =
     (let i = opt_or 0 (uuid_parse (lib_of E) (si_id session));
          investor = investor_wallet (execution (cfg E)) in
      rbind (ignore (exec E (set_session E i (\<lambda>r. r\<lparr>s_status := S_Completed\<rparr>)))) (\<lambda>_.
      rbind (shortfall_alert E session i) (\<lambda>_.
      rbind (if investor = [] then ret () else ignore (sweep_to_investor E session investor)) (\<lambda>_.
      check_and_create_excess_refund E session))))"

section \<open>One session\<close>

definition trade_event_json ::
  "env \<Rightarrow> session_info \<Rightarrow> trade_plan \<Rightarrow> recorded_trade \<Rightarrow> string \<Rightarrow> trade_finalization \<Rightarrow> json" where
  "trade_event_json E session pl recorded tx_hash fin =
     JObj [(''type'', JStr ''trade_completed''), (''trade_id'', JStr (rec_trade_id recorded)),
       (''session_id'', JStr (si_id session)), (''chain'', JStr (si_chain session)),
       (''sell_amount'', JStr (u256_show (lib_of E) (pl_amount pl))),
       (''received_amount'', JStr (opt_or ''0'' (fin_received fin))), (''tx_hash'', JStr tx_hash),
       (''price_impact_bps'', JPos (ucast (pl_impact pl))),
       (''market_cap_usd'', opt_str (map_option (f_show_fixed 2) (pl_mcap pl))),
       (''executed_at'', JStr (rec_executed_at recorded)), (''status'', JStr (fin_status fin)),
       (''failure_reason'', opt_str (fin_failure fin))]"

definition finalize_or_fail ::
  "env \<Rightarrow> session_info \<Rightarrow> recorded_trade \<Rightarrow> string \<Rightarrow> addr \<Rightarrow> (world, err, trade_finalization) rt" where
  "finalize_or_fail E session recorded tx_hash recipient =
     rbind (attempt (finalize_trade_status_from_receipt E (si_chain session) (rec_trade_id recorded) (Some tx_hash)
              (si_target_token session) recipient)) (\<lambda>r.
     case r of
       Inr fin \<Rightarrow> ret fin
     | Inl e \<Rightarrow>
         let reason = ''receipt_finalization_error: '' @ e in
         rbind (mark_trade_failed E (rec_trade_id recorded) reason) (\<lambda>_.
         ret \<lparr>fin_status = ''failed'', fin_failure = Some reason, fin_received = None\<rparr>))"

definition settle_trade ::
  "env \<Rightarrow> session_info \<Rightarrow> dex_swap_event \<Rightarrow> trade_plan \<Rightarrow> string \<Rightarrow> addr \<Rightarrow> (world, err, unit) rt" where
  "settle_trade E session event pl tx_hash recipient =
     rbind (record_trade E session event (pl_amount pl) (pl_impact pl) (pl_mcap pl) (Some tx_hash)) (\<lambda>recorded.
     if \<not> rec_inserted recorded then ret ()
     else
       rbind (finalize_or_fail E session recorded tx_hash recipient) (\<lambda>fin.
       rbind (publish E subject_trades_completed (trade_event_json E session pl recorded tx_hash fin)) (\<lambda>_.
       if total_of (lib_of E) session \<le> sold_of (lib_of E) session + pl_amount pl
       then complete_session E session else ret ())))"

definition process_session ::
  "env \<Rightarrow> addr \<Rightarrow> dex_swap_event \<Rightarrow> u256 \<Rightarrow> session_info \<Rightarrow> (world, err, unit) rt" where
  "process_session E orc event buy_amount session =
     rbind (plan_trade E orc session event buy_amount) (\<lambda>plan.
     case plan of
       None \<Rightarrow> ret ()
     | Some pl \<Rightarrow>
         rbind (submit_swap E session pl) (\<lambda>submitted.
         case submitted of
           None \<Rightarrow> ret ()
         | Some (tx_hash, recipient) \<Rightarrow> settle_trade E session event pl tx_hash recipient))"

section \<open>One event\<close>

definition process_swap_event :: "env \<Rightarrow> addr \<Rightarrow> dex_swap_event \<Rightarrow> (world, err, unit) rt" where
  "process_swap_event E orc event =
     rbind (map_err snd (grpc E (get_active_sessions_for_token E (ev_chain event) [] (ev_pool_address event)))) (\<lambda>found_sessions.
     if found_sessions = [] then ret ()
     else for_each found_sessions (process_session E orc event (buy_amount_of (lib_of E) event)))"

text \<open>Whether the message is acknowledged; an unreadable message is.\<close>

definition handle_message :: "env \<Rightarrow> addr \<Rightarrow> string \<Rightarrow> (world, err, bool) rt" where
  "handle_message E orc payload =
     (case opt_bind (json_parse (lib_of E) payload) event_of_json of
        None \<Rightarrow> ret True
      | Some event \<Rightarrow> rbind (attempt (process_swap_event E orc event)) (\<lambda>r. ret (\<not> isl r)))"

text \<open>The parsed address of the oracle, without which the engine does not start.\<close>

definition trigger_oracle :: "env \<Rightarrow> err + addr" where
  "trigger_oracle E =
     (let a = buy_trigger_oracle_address (execution (cfg E)) in
      ok_or (''Invalid execution.buy_trigger_oracle_address: '' @ a) (addr_parse (lib_of E) a))"

section \<open>Frame\<close>

lemma obind_Inr:
  "obind m f s = (Inr (Some y), t) \<longleftrightarrow> (\<exists>x s'. m s = (Inr (Some x), s') \<and> f x s' = (Inr (Some y), t))"
  by (auto simp: obind_def rbind_Inr_iff split: option.splits)

lemma obind_ret [simp]: "obind (ret (Some x)) f = f x" "obind (ret None) f = ret None"
  by (simp_all add: fun_eq_iff obind_def rbind_def ret_def)

lemma or_skip_Inr: "or_skip m s = (Inr (Some x), t) \<longleftrightarrow> m s = (Inr x, t)"
  by (cases "m s"; cases "fst (m s)") (auto simp: or_skip_def rbind_def attempt_def ok_def ret_def)

context world_rel begin

lemma keeps_obind: "keeps R m \<Longrightarrow> (\<And>x. keeps R (f x)) \<Longrightarrow> keeps R (obind m f)"
  unfolding obind_def by (intro keeps_world)

lemma keeps_obind_yields:
  assumes "keeps R m" "yields (\<lambda>x. \<forall>v. x = Some v \<longrightarrow> P v) m" "\<And>v. P v \<Longrightarrow> keeps R (f v)"
  shows "keeps R (obind m f)"
  unfolding obind_def
  by (rule keeps_rbind_yields [OF assms(1,2)]) (auto intro: keeps_ret assms(3) split: option.split)

lemma keeps_or_skip: "keeps R m \<Longrightarrow> keeps R (or_skip m)"
  unfolding or_skip_def by (intro keeps_world)

lemma keeps_impact: "keeps R (calculate_price_impact E chain pool pt token a)"
  unfolding calculate_price_impact_def Let_def pool_state_def
  by (cases pt) (simp, intro keeps_world)+

lemma keeps_list_case: "keeps R m \<Longrightarrow> (\<And>x xs. keeps R (f x xs)) \<Longrightarrow> keeps R (case l of [] \<Rightarrow> m | x # xs \<Rightarrow> f x xs)"
  by (cases l) auto

lemma keeps_plan: "keeps R (plan_trade E orc session event buy)"
  unfolding plan_trade_def trigger_guard_def market_cap_snapshot_def plan_size_and_impact_def
  by (intro keeps_obind keeps_or_skip keeps_buy_amount keeps_market_cap keeps_impact keeps_list_case keeps_world)

lemma keeps_quote: "keeps R (get_on_chain_quote E chain router a route pt)"
  unfolding get_on_chain_quote_def by (cases pt) (simp, intro keeps_world)+

lemma keeps_swap_call: "keeps R (build_swap_call E a out route pt fee r chain bps)"
  unfolding build_swap_call_def by (cases pt) (simp, intro keeps_world)+

lemma keeps_calldata: "keeps R (build_swap_calldata E a out route pt fee r chain bps)"
  unfolding build_swap_calldata_def by (intro keeps_swap_call keeps_world)

end

text \<open>What a swap call sells, to whom the output goes and the least output.\<close>

fun swap_parts :: "u256 \<Rightarrow> sol_call \<Rightarrow> (u256 \<times> addr \<times> u256) option" where
  "swap_parts v (SwapExactETHForTokens m path r d) = Some (v, r, m)"
| "swap_parts v (SwapExactTokensForETH a m path r d) = Some (a, r, m)"
| "swap_parts v (SwapExactTokensForTokens a m path r d) = Some (a, r, m)"
| "swap_parts v (ExactInput path r d a m) = Some (a, r, m)"
| "swap_parts v _ = None"

text \<open>The tokens a swap call goes through, the first one sold and the last one bought.\<close>

fun swap_along :: "addr list \<Rightarrow> sol_call \<Rightarrow> bool" where
  "swap_along ts (SwapExactETHForTokens m path r d) \<longleftrightarrow> path = ts"
| "swap_along ts (SwapExactTokensForETH a m path r d) \<longleftrightarrow> path = ts"
| "swap_along ts (SwapExactTokensForTokens a m path r d) \<longleftrightarrow> path = ts"
| "swap_along ts (ExactInput path r d a m) \<longleftrightarrow> (\<exists>fees. encode_uniswap_v3_path ts fees = Inr path)"
| "swap_along ts _ \<longleftrightarrow> False"

text \<open>A call that sells the amount along the route, for the recipient and with a positive minimum, and the value that goes with it.\<close>

definition route_call :: "env \<Rightarrow> string \<Rightarrow> pool_swap_route \<Rightarrow> u256 \<Rightarrow> addr \<Rightarrow> u256 \<Rightarrow> sol_call \<Rightarrow> bool" where
  "route_call E chain route a r v call \<longleftrightarrow>
     (\<exists>m path ni no. resolve_route_tokens_for_native E route chain = Inr (path, ni, no) \<and> v = (if ni then a else 0) \<and>
        swap_parts v call = Some (a, r, m) \<and> m \<noteq> 0 \<and> swap_along path call)"

lemma build_swap_call_yields:
  "yields (route_call E chain route a r (case resolve_route_tokens_for_native E route chain of
        Inl _ \<Rightarrow> 0 | Inr (_, ni, _) \<Rightarrow> if ni then a else 0))
     (build_swap_call E a out route pt fee r chain bps)"
  unfolding yields_def
proof (intro allI impI)
  fix s call t
  assume run: "build_swap_call E a out route pt fee r chain bps s = (Inr call, t)"
  then obtain path ni no where path: "resolve_route_tokens_for_native E route chain = Inr (path, ni, no)"
    by (cases "resolve_route_tokens_for_native E route chain") (auto simp: build_swap_call_def rbind_Inr_iff)
  obtain m where m: "amount_out_min a out bps = Inr m" "m \<noteq> 0"
    and call: "swap_parts (if ni then a else 0) call = Some (a, r, m)" "swap_along path call"
    using run by (cases pt; cases "amount_out_min a out bps")
      (auto simp: build_swap_call_def path rbind_Inr_iff ask_iff amount_out_min_def Let_def split: if_splits)
  show "route_call E chain route a r (case resolve_route_tokens_for_native E route chain of
      Inl _ \<Rightarrow> 0 | Inr (_, ni, _) \<Rightarrow> if ni then a else 0) call"
    unfolding route_call_def path sum.case prod.case using m(2) call by blast
qed

lemma plan_size_Inr:
  assumes "plan_size_and_impact E session event p pt buy cap s = (Inr (Some pl), t)"
  shows "pl_pool pl = p \<and> pl_type pl = pt \<and> pl_mcap pl = cap \<and>
    sale_size (lib_of E) session buy = Some (pl_amount pl) \<and> pl_impact pl \<le> max_impact_of E session \<and>
    parse_pool_swap_route (lib_of E) (pi_path_json p) (ev_pool_address event) = Some (pl_route pl) \<and>
    pl_sell_token pl = hd (pr_hop_tokens (pl_route pl))"
proof -
  from assms obtain a route where a: "sale_size (lib_of E) session buy = Some a"
    and route: "parse_pool_swap_route (lib_of E) (pi_path_json p) (ev_pool_address event) = Some route"
    and rest: "(case pr_hop_tokens route of
       [] \<Rightarrow> ret None
     | sell_token # _ \<Rightarrow>
         obind (or_skip (calculate_price_impact E (si_chain session) (ev_pool_address event) pt sell_token a)) (\<lambda>impact.
         if max_impact_of E session < impact then ret None
         else ret (Some \<lparr>pl_pool = p, pl_type = pt, pl_mcap = cap, pl_amount = a, pl_route = route,
                pl_sell_token = sell_token, pl_impact = impact\<rparr>))) s = (Inr (Some pl), t)"
    unfolding plan_size_and_impact_def obind_Inr by (auto simp: eq_commute [of "Some _"])
  then show ?thesis
    by (cases "pr_hop_tokens route") (auto simp: obind_Inr or_skip_Inr split: if_splits)
qed

lemma plan_trade_Inr:
  assumes "plan_trade E orc session event buy s = (Inr (Some pl), t)"
  shows "trade_direction session event = Some (pl_pool pl, pl_type pl) \<and>
    sale_size (lib_of E) session buy = Some (pl_amount pl) \<and>
    market_cap_guard session (pl_mcap pl) \<and> pl_impact pl \<le> max_impact_of E session \<and>
    parse_pool_swap_route (lib_of E) (pi_path_json (pl_pool pl)) (ev_pool_address event) = Some (pl_route pl) \<and>
    pl_sell_token pl = hd (pr_hop_tokens (pl_route pl))"
proof -
  obtain p pt where dir: "trade_direction session event = Some (p, pt)"
    using assms by (cases "trade_direction session event") (auto simp: plan_trade_def)
  have "obind (trigger_guard E orc session event p pt buy) (\<lambda>_.
     obind (market_cap_snapshot E orc session event p pt) (\<lambda>cap.
     if \<not> market_cap_guard session cap then ret None
     else plan_size_and_impact E session event p pt buy cap)) s = (Inr (Some pl), t)"
    using assms by (simp add: plan_trade_def dir)
  then obtain s1 where "obind (market_cap_snapshot E orc session event p pt) (\<lambda>cap.
     if \<not> market_cap_guard session cap then ret None
     else plan_size_and_impact E session event p pt buy cap) s1 = (Inr (Some pl), t)"
    unfolding obind_Inr [of "trigger_guard E orc session event p pt buy"] by blast
  then obtain cap s2 where last: "(if \<not> market_cap_guard session cap then ret None
     else plan_size_and_impact E session event p pt buy cap) s2 = (Inr (Some pl), t)"
    unfolding obind_Inr by blast
  have guard: "market_cap_guard session cap"
    using last by (cases "market_cap_guard session cap") auto
  then have "plan_size_and_impact E session event p pt buy cap s2 = (Inr (Some pl), t)" using last by simp
  from plan_size_Inr [OF this] dir guard show ?thesis by simp
qed

text \<open>The transactions a session may send for a sale of an amount along a route over a router.\<close>

definition approves :: "env \<Rightarrow> session_info \<Rightarrow> addr \<Rightarrow> string \<Rightarrow> sent_tx \<Rightarrow> bool" where
  "approves E session router token x \<longleftrightarrow>
     x_wallet x = si_wallet session \<and> addr_parse (lib_of E) token = Some (tx_to (x_request x)) \<and> tx_value (x_request x) = 0 \<and>
     tx_input (x_request x) = abi_encode (lib_of E) (Approve router u256_max)"

definition swaps :: "env \<Rightarrow> session_info \<Rightarrow> addr \<Rightarrow> pool_swap_route \<Rightarrow> u256 \<Rightarrow> sent_tx \<Rightarrow> bool" where
  "swaps E session router route amount x \<longleftrightarrow>
     x_wallet x = si_wallet session \<and> tx_to (x_request x) = router \<and>
     (\<exists>call. tx_input (x_request x) = abi_encode (lib_of E) call \<and>
        route_call E (si_chain session) route amount (tx_from (x_request x)) (tx_value (x_request x)) call)"

definition session_tx :: "env \<Rightarrow> session_info \<Rightarrow> addr \<Rightarrow> pool_swap_route \<Rightarrow> u256 \<Rightarrow> sent_tx \<Rightarrow> bool" where
  "session_tx E session router route amount x \<longleftrightarrow>
     approves E session router (hd (pr_hop_tokens route)) x \<or> swaps E session router route amount x \<or>
     (\<exists>investor. addr_parse (lib_of E) (investor_wallet (execution (cfg E))) = Some investor \<and> pays E session investor x)"

text \<open>What an event may make a session sell: the amount, over the configured router of the pool's exchange,
  along the route stored with the pool.\<close>

definition sale_terms ::
  "env \<Rightarrow> dex_swap_event \<Rightarrow> u256 \<Rightarrow> session_info \<Rightarrow> pool_info \<Rightarrow> addr \<Rightarrow> pool_swap_route \<Rightarrow> u256 \<Rightarrow> bool" where
  "sale_terms E event buy session p router route a \<longleftrightarrow>
     p \<in> set (si_pools session) \<and> eq_ic (pi_address p) (ev_pool_address event) \<and>
     eq_ic (if ev_token0_is_input event then pi_token1 p else pi_token0 p) (si_sell_token session) \<and>
     (\<exists>pt written. pool_type_from_str (pi_type p) = Some pt \<and>
        dex_router_for_chain (cfg E) (si_chain session) (pi_dex p) pt = Some written \<and> addr_parse (lib_of E) written = Some router) \<and>
     parse_pool_swap_route (lib_of E) (pi_path_json p) (ev_pool_address event) = Some route \<and>
     sale_size (lib_of E) session buy = Some a"

lemma plan_terms:
  assumes "plan_trade E orc session event buy s = (Inr (Some pl), t)" and "router_of E session pl = Some router"
  shows "sale_terms E event buy session (pl_pool pl) router (pl_route pl) (pl_amount pl)"
proof -
  note chosen = plan_trade_Inr [OF assms(1)]
  then have "pool_of_event session event = Some (pl_pool pl)" and pt: "pool_type_from_str (pi_type (pl_pool pl)) = Some (pl_type pl)"
    and out: "eq_ic (resolved_token_out event (pl_pool pl)) (si_sell_token session)"
    by (auto simp: trade_direction_def opt_bind_def split: option.splits if_splits)
  then have "pl_pool pl \<in> set (si_pools session)" "eq_ic (pi_address (pl_pool pl)) (ev_pool_address event)"
    by (auto simp: pool_of_event_def find_Some_iff)
  moreover obtain written where "dex_router_for_chain (cfg E) (si_chain session) (pi_dex (pl_pool pl)) (pl_type pl) = Some written"
      "addr_parse (lib_of E) written = Some router"
    using assms(2) by (auto simp: router_of_def opt_bind_def split: option.splits)
  ultimately show ?thesis using chosen pt out by (simp add: sale_terms_def resolved_token_out_def)
qed

context world_rel begin

lemma keeps_submit_swap:
  assumes "\<And>router s x. router_of E session pl = Some router \<Longrightarrow>
      approves E session router (pl_sell_token pl) x \<or> swaps E session router (pl_route pl) (pl_amount pl) x \<Longrightarrow>
      R s (s\<lparr>sent := sent s @ [x]\<rparr>)"
  shows "keeps R (submit_swap E session pl)"
proof (cases "router_of E session pl")
  case None
  then show ?thesis by (simp add: submit_swap_def keeps_ret)
next
  case (Some router)
  note allowed = assms [OF Some]
  have approve: "keeps R (approve_sale E session pl router r)" for r
    unfolding approve_sale_def
    by (intro keeps_or_skip keeps_ensure_approval keeps_world allowed)
      (auto simp: approves_def requests_def asks_for_def)
  have build: "keeps R (build_sign_and_submit_tx E (si_chain session) c (si_wallet session) r router data (swap_value E session pl))"
    if "\<exists>call. data = abi_encode (lib_of E) call \<and>
        route_call E (si_chain session) (pl_route pl) (pl_amount pl) r (swap_value E session pl) call"
    for c data r
    using that by (intro keeps_build allowed) (auto simp: swaps_def requests_def asks_for_def)
  have call: "yields (\<lambda>x. \<forall>data. x = Some data \<longrightarrow> (\<exists>call. data = abi_encode (lib_of E) call \<and>
        route_call E (si_chain session) (pl_route pl) (pl_amount pl) r (swap_value E session pl) call))
      (or_skip (build_swap_calldata E (pl_amount pl) out (pl_route pl) (pl_type pl) fee r (si_chain session) bps))" for out fee r bps
    unfolding yields_def
  proof (intro allI impI)
    fix s x t data
    assume "or_skip (build_swap_calldata E (pl_amount pl) out (pl_route pl) (pl_type pl) fee r (si_chain session) bps) s = (Inr x, t)"
      "x = Some data"
    then obtain call s' where "build_swap_call E (pl_amount pl) out (pl_route pl) (pl_type pl) fee r (si_chain session) bps s = (Inr call, s')"
      and "data = abi_encode (lib_of E) call"
      by (auto simp: or_skip_Inr build_swap_calldata_def rbind_Inr_iff)
    with yieldsD [OF build_swap_call_yields this(1)] show "\<exists>call. data = abi_encode (lib_of E) call \<and>
        route_call E (si_chain session) (pl_route pl) (pl_amount pl) r (swap_value E session pl) call"
      by (auto simp: swap_value_def)
  qed
  show ?thesis
    unfolding submit_swap_def Some obind_ret
    by (intro keeps_obind_yields [OF keeps_or_skip [OF keeps_calldata] call] keeps_obind keeps_or_skip keeps_resolve
        keeps_quote approve build keeps_world)
qed

end

text \<open>
  The interface to what the engine does after a plan: a relation kept by the moves of the ledger,
  by the completion of a session and by a new refund request, and then also by recordings.
\<close>

locale completion_rel = ledger_edit R for R :: "world \<Rightarrow> world \<Rightarrow> bool" +
  assumes rel_complete: "R s (set_session E i (\<lambda>r. r\<lparr>s_status := S_Completed\<rparr>) s)"
    and rel_refund: "r_status r = ''pending'' \<Longrightarrow> \<not> r_verified r \<Longrightarrow> R s (s\<lparr>refunds := refunds s @ [r]\<rparr>)"
begin

lemma keeps_ignore: "keeps R m \<Longrightarrow> keeps R (ignore m)"
  unfolding ignore_def by (intro keeps_world)

lemma keeps_shortfall: "keeps R (shortfall_alert E session i)"
  unfolding shortfall_alert_def Let_def by (intro keeps_world)

lemma keeps_complete:
  assumes "\<And>investor s x. addr_parse (lib_of E) (investor_wallet (execution (cfg E))) = Some investor \<Longrightarrow>
      pays E session investor x \<Longrightarrow> R s (s\<lparr>sent := sent s @ [x]\<rparr>)"
  shows "keeps R (complete_session E session)"
  unfolding complete_session_def Let_def
  by (intro keeps_ignore keeps_shortfall keeps_sweep keeps_excess_refund keeps_exec rel_complete rel_refund assms keeps_world)
    (auto simp: leftover_def)

lemma keeps_finalize_or_fail: "keeps R (finalize_or_fail E session recorded tx r)"
  unfolding finalize_or_fail_def Let_def by (intro edit_finalize edit_mark_failed keeps_world)

end

locale engine_rel = completion_rel R + ledger_append R for R :: "world \<Rightarrow> world \<Rightarrow> bool"
begin

lemma keeps_settle:
  assumes "\<And>investor s x. addr_parse (lib_of E) (investor_wallet (execution (cfg E))) = Some investor \<Longrightarrow>
      pays E session investor x \<Longrightarrow> R s (s\<lparr>sent := sent s @ [x]\<rparr>)"
  shows "keeps R (settle_trade E session event pl tx r)"
  unfolding settle_trade_def
  by (intro append_record keeps_finalize_or_fail keeps_complete assms keeps_world)

lemma keeps_process_session:
  assumes "\<And>p router route a s x. sale_terms E event buy session p router route a \<Longrightarrow>
      session_tx E session router route a x \<Longrightarrow> R s (s\<lparr>sent := sent s @ [x]\<rparr>)"
  shows "keeps R (process_session E orc event buy session)"
  unfolding process_session_def
proof (rule keeps_rbind_yields [OF keeps_plan, where P = "\<lambda>plan. \<forall>pl router. plan = Some pl \<longrightarrow> router_of E session pl = Some router \<longrightarrow>
    pl_sell_token pl = hd (pr_hop_tokens (pl_route pl)) \<and>
    sale_terms E event buy session (pl_pool pl) router (pl_route pl) (pl_amount pl)"])
  show "yields (\<lambda>plan. \<forall>pl router. plan = Some pl \<longrightarrow> router_of E session pl = Some router \<longrightarrow>
      pl_sell_token pl = hd (pr_hop_tokens (pl_route pl)) \<and>
      sale_terms E event buy session (pl_pool pl) router (pl_route pl) (pl_amount pl)) (plan_trade E orc session event buy)"
    using plan_trade_Inr plan_terms by (fastforce simp: yields_def)
  fix plan :: "trade_plan option"
  assume plan: "\<forall>pl router. plan = Some pl \<longrightarrow> router_of E session pl = Some router \<longrightarrow>
      pl_sell_token pl = hd (pr_hop_tokens (pl_route pl)) \<and>
      sale_terms E event buy session (pl_pool pl) router (pl_route pl) (pl_amount pl)"
  show "keeps R (case plan of None \<Rightarrow> ret () | Some pl \<Rightarrow>
         rbind (submit_swap E session pl) (\<lambda>submitted.
         case submitted of None \<Rightarrow> ret () | Some (tx_hash, recipient) \<Rightarrow> settle_trade E session event pl tx_hash recipient))"
  proof (cases plan)
    case (Some pl)
    note pl = Some
    show ?thesis
    proof (cases "router_of E session pl")
      case None
      have "rbind (ret None) f = f None" for f :: "(string \<times> addr) option \<Rightarrow> (world, err, unit) rt"
        by (simp add: rbind_def ret_def fun_eq_iff)
      with None show ?thesis by (simp add: pl submit_swap_def keeps_ret)
    next
      case (Some router)
      with plan pl have terms: "sale_terms E event buy session (pl_pool pl) router (pl_route pl) (pl_amount pl)"
        and token: "pl_sell_token pl = hd (pr_hop_tokens (pl_route pl))"
        by simp_all
      note allowed = assms [OF terms]
      have "keeps R (submit_swap E session pl)"
        by (rule keeps_submit_swap) (rule allowed, auto simp: session_tx_def Some token)
      moreover have "keeps R (settle_trade E session event pl tx r)" for tx r
        by (rule keeps_settle) (rule allowed, auto simp: session_tx_def)
      ultimately show ?thesis unfolding pl option.case by (intro keeps_world)
    qed
  qed (simp add: keeps_ret)
qed

lemma keeps_process_sessions:
  assumes "\<And>session p router route a s x. session \<in> set infos \<Longrightarrow> sale_terms E event buy session p router route a \<Longrightarrow>
      session_tx E session router route a x \<Longrightarrow> R s (s\<lparr>sent := sent s @ [x]\<rparr>)"
  shows "keeps R (for_each infos (process_session E orc event buy))"
  by (intro keeps_for_each keeps_process_session assms)

lemma process_event_rel:
  assumes run: "process_swap_event E orc event s = (r, t)"
    and tx: "\<And>infos u session p router route a v x. get_active_sessions_for_token E (ev_chain event) [] (ev_pool_address event)
          (s\<lparr>calls := Suc (calls s)\<rparr>) = (Inr infos, u) \<Longrightarrow> session \<in> set infos \<Longrightarrow>
      sale_terms E event (buy_amount_of (lib_of E) event) session p router route a \<Longrightarrow>
      session_tx E session router route a x \<Longrightarrow> R v (v\<lparr>sent := sent v @ [x]\<rparr>)"
  shows "R s t"
proof -
  let ?ask = "map_err snd (grpc E (get_active_sessions_for_token E (ev_chain event) [] (ev_pool_address event)))
    :: (world, err, session_info list) rt"
  obtain q u where ask: "?ask s = (q, u)" by (cases "?ask s")
  have su: "R s u" by (rule keepsD [OF keeps_map_err [OF keeps_grpc [OF keeps_active_sessions]] ask])
  show ?thesis
  proof (cases q)
    case (Inl e)
    then show ?thesis using run ask su by (simp add: process_swap_event_def rbind_def)
  next
    case (Inr infos)
    then have get: "get_active_sessions_for_token E (ev_chain event) [] (ev_pool_address event) (s\<lparr>calls := Suc (calls s)\<rparr>) = (Inr infos, u)"
      using ask by (auto simp: map_err_def grpc_def split: prod.splits sum.splits option.splits)
    have "R u t"
    proof (cases "infos = []")
      case True
      then show ?thesis using run ask Inr rel_refl by (simp add: process_swap_event_def rbind_def)
    next
      case False
      then have "for_each infos (process_session E orc event (buy_amount_of (lib_of E) event)) u = (r, t)"
        using run ask Inr by (simp add: process_swap_event_def rbind_def)
      from keepsD [OF keeps_process_sessions this] tx [OF get] show ?thesis by blast
    qed
    with su show ?thesis by (rule rel_trans)
  qed
qed

end

end
