(* ===== verification/EngineSafe.thy ===== *)
theory EngineSafe
  imports Engine
begin

text \<open>
  What the execution engine may do (\<open>crates/execution-engine/src/main.rs\<close>): which transactions an
  event leads to, which tables it changes, that the books balance after an acknowledged event, and
  that a redelivered event is sold again.  The last section runs the engine on one event, end to end.
\<close>

section \<open>What the engine sends\<close>

lemma sends_mono: "sends P s t \<Longrightarrow> (\<And>x. P x \<Longrightarrow> Q x) \<Longrightarrow> sends Q s t"
  by (auto simp: sends_def list_all_iff)

lemma sends_one: "sends P s t \<Longrightarrow> sent s = [] \<Longrightarrow> sent t = [x] \<Longrightarrow> P x"
  by (auto simp: sends_def)

interpretation snt: engine_rel "sends P" for P
  by unfold_locales
    (auto simp: set_trade_def add_sold_def insert_trade_def set_session_def Let_def intro!: sends_same split: option.split)

lemma sale_size_bounds:
  assumes "sale_size L session buy = Some a"
  shows "unat a \<le> unat (total_of L session) - unat (sold_of L session)" "sold_of L session < total_of L session"
    "unat buy * unat (pov_bps_of session) < 2 ^ 256 \<Longrightarrow> unat a * 10000 \<le> unat buy * unat (pov_bps_of session)"
proof -
  let ?share = "(buy * ucast (pov_bps_of session)) div 10000 :: u256"
  let ?rem = "sat_sub (total_of L session) (sold_of L session)"
  have a: "a = min ?share ?rem" "?rem \<noteq> 0" using assms by (auto simp: sale_size_def Let_def split: if_splits)
  then show "unat a \<le> unat (total_of L session) - unat (sold_of L session)"
    by (simp add: unat_min_word unat_sat_sub)
  show "sold_of L session < total_of L session" using a(2) by (simp add: sat_sub_zero_iff)
  assume "unat buy * unat (pov_bps_of session) < 2 ^ 256"
  then have "unat ?share = unat buy * unat (pov_bps_of session) div 10000"
    by (simp add: unat_div unat_mult_small word_facts)
  then have "unat a \<le> unat buy * unat (pov_bps_of session) div 10000" using a(1) by (simp add: unat_min_word)
  then have "unat a * 10000 \<le> unat buy * unat (pov_bps_of session) div 10000 * 10000" by simp
  then show "unat a * 10000 \<le> unat buy * unat (pov_bps_of session)" using div_times_less_eq_dividend order_trans by blast
qed

text \<open>The sessions of an event: active ones of its chain that watch its pool.\<close>

definition serves :: "env \<Rightarrow> dex_swap_event \<Rightarrow> world \<Rightarrow> session_info \<Rightarrow> bool" where
  "serves E event s session \<longleftrightarrow>
     (\<exists>row \<in> set (sessions s). watches (ev_chain event) (ev_pool_address event) s row \<and> lists_row E s row session)"

lemma list_all2_in: "list_all2 P xs ys \<Longrightarrow> y \<in> set ys \<Longrightarrow> \<exists>x \<in> set xs. P x y"
  by (induction rule: list_all2_induct) auto

lemma active_sessions_serve:
  assumes "\<And>u. uuid_parse (lib_of E) (uuid_show (lib_of E) u) = Some u"
    and "get_active_sessions_for_token E (ev_chain event) [] (ev_pool_address event) (s\<lparr>calls := Suc (calls s)\<rparr>) = (Inr infos, u)"
    and "ev_pool_address event \<noteq> []" "session \<in> set infos"
  shows "serves E event s session"
proof -
  let ?u = "s\<lparr>calls := Suc (calls s)\<rparr>"
  have "list_rows E (\<lambda>s. filter (watches (ev_chain event) (ev_pool_address event) s) (sessions s)) ?u = (Inr infos, u)"
    using assms(2,3) by (auto simp: get_active_sessions_for_token_def run_iffs split: if_splits)
  from list_all2_in [OF list_rows_Inr [OF assms(1) this] assms(4)] obtain row where
    row: "row \<in> set (filter (watches (ev_chain event) (ev_pool_address event) s) (sessions s))"
    and info: "lists_row E ?u row session"
    by (auto simp: watches_def)
  from info have "lists_row E s row session" by (simp add: lists_row_def pools_of_def)
  with row show ?thesis by (auto simp: serves_def)
qed

text \<open>C14: Whatever the node, the database and the other services answer, a swap event makes the engine send
  only approvals of the configured router of the pool's exchange, at the first token of the pool's route, swaps
  over that router and along that route whose output goes back to the sender with a positive minimum, and payments to
  the investor, each from the wallet of an active session that watches the pool, is not sold out, and whose sell token
  is the token that, by the session's row of the pool and the direction in the event, left the pool.  A swap sells at
  most what the session has left and at most its share of the amount in the event.\<close>

theorem engine_sends_only:
  assumes "\<And>u. uuid_parse (lib_of E) (uuid_show (lib_of E) u) = Some u" "ev_pool_address event \<noteq> []"
    and "process_swap_event E orc event s = (r, t)"
  shows "sends (\<lambda>x. \<exists>session p pt written router route a. serves E event s session \<and>
     p \<in> set (si_pools session) \<and> eq_ic (pi_address p) (ev_pool_address event) \<and>
     eq_ic (if ev_token0_is_input event then pi_token1 p else pi_token0 p) (si_sell_token session) \<and>
     pool_type_from_str (pi_type p) = Some pt \<and>
     dex_router_for_chain (cfg E) (si_chain session) (pi_dex p) pt = Some written \<and> addr_parse (lib_of E) written = Some router \<and>
     parse_pool_swap_route (lib_of E) (pi_path_json p) (ev_pool_address event) = Some route \<and>
     session_tx E session router route a x \<and>
     sold_of (lib_of E) session < total_of (lib_of E) session \<and>
     unat a \<le> unat (total_of (lib_of E) session) - unat (sold_of (lib_of E) session) \<and>
     (unat (buy_amount_of (lib_of E) event) * unat (pov_bps_of session) < 2 ^ 256 \<longrightarrow>
        unat a * 10000 \<le> unat (buy_amount_of (lib_of E) event) * unat (pov_bps_of session))) s t"
proof (rule snt.process_event_rel [OF assms(3)], rule sends_snoc)
  fix infos u session p router route a x
  assume get: "get_active_sessions_for_token E (ev_chain event) [] (ev_pool_address event) (s\<lparr>calls := Suc (calls s)\<rparr>) = (Inr infos, u)"
    "session \<in> set infos"
    and terms: "sale_terms E event (buy_amount_of (lib_of E) event) session p router route a"
    and x: "session_tx E session router route a x"
  have size: "sale_size (lib_of E) session (buy_amount_of (lib_of E) event) = Some a"
    using terms by (simp add: sale_terms_def)
  obtain pt written where "pool_type_from_str (pi_type p) = Some pt"
      "dex_router_for_chain (cfg E) (si_chain session) (pi_dex p) pt = Some written" "addr_parse (lib_of E) written = Some router"
    using terms by (auto simp: sale_terms_def)
  with terms x sale_size_bounds [OF size] active_sessions_serve [OF assms(1) get(1) assms(2) get(2)]
  show "\<exists>session p pt written router route a. serves E event s session \<and>
     p \<in> set (si_pools session) \<and> eq_ic (pi_address p) (ev_pool_address event) \<and>
     eq_ic (if ev_token0_is_input event then pi_token1 p else pi_token0 p) (si_sell_token session) \<and>
     pool_type_from_str (pi_type p) = Some pt \<and>
     dex_router_for_chain (cfg E) (si_chain session) (pi_dex p) pt = Some written \<and> addr_parse (lib_of E) written = Some router \<and>
     parse_pool_swap_route (lib_of E) (pi_path_json p) (ev_pool_address event) = Some route \<and>
     session_tx E session router route a x \<and>
     sold_of (lib_of E) session < total_of (lib_of E) session \<and>
     unat a \<le> unat (total_of (lib_of E) session) - unat (sold_of (lib_of E) session) \<and>
     (unat (buy_amount_of (lib_of E) event) * unat (pov_bps_of session) < 2 ^ 256 \<longrightarrow>
        unat a * 10000 \<le> unat (buy_amount_of (lib_of E) event) * unat (pov_bps_of session))"
    unfolding sale_terms_def by blast
qed

section \<open>What the engine changes\<close>

text \<open>A session is completed and its sold amount and update time change; nothing else of it does.\<close>

definition session_moves :: "session_row \<Rightarrow> session_row \<Rightarrow> bool" where
  "session_moves a b \<longleftrightarrow>
     (s_status b = s_status a \<or> s_status b = S_Completed) \<and>
     b = a\<lparr>s_status := s_status b, s_sold := s_sold b, s_updated := s_updated b\<rparr>"

lemma session_moves_refl [simp]: "session_moves a a"
  by (simp add: session_moves_def)

lemma session_moves_trans: "session_moves a b \<Longrightarrow> session_moves b c \<Longrightarrow> session_moves a c"
  by (cases a; cases b; cases c) (auto simp: session_moves_def)

definition engine_step :: "world \<Rightarrow> world \<Rightarrow> bool" where
  "engine_step s t \<longleftrightarrow>
     ledger_step s t \<and> users t = users s \<and> wallets t = wallets s \<and> session_pools t = session_pools s \<and>
     deposits t = deposits s \<and> mails t = mails s \<and> list_all2 session_moves (sessions s) (sessions t) \<and>
     (\<exists>new. refunds t = refunds s @ new \<and> list_all (\<lambda>r. r_status r = ''pending'' \<and> \<not> r_verified r) new)"

lemma moves_update_where:
  "(\<And>r. P r \<Longrightarrow> session_moves r (f r)) \<Longrightarrow> list_all2 session_moves rows (update_where P f rows)"
  by (auto simp: update_where_def list_all2_conv_all_nth)

lemma engine_step_trades:
  "ledger_step s t \<Longrightarrow> t = s\<lparr>trades := ts\<rparr> \<Longrightarrow> engine_step s t"
  by (auto simp: engine_step_def list_all2_refl)

lemma engine_step_sessions:
  "t = s\<lparr>sessions := rs\<rparr> \<Longrightarrow> list_all2 session_moves (sessions s) rs \<Longrightarrow> engine_step s t"
  by (auto simp: engine_step_def ledger_step_same)

lemma engine_step_refl: "engine_step s s"
  by (auto simp: engine_step_def ledger_step_same list_all2_refl)

lemma engine_step_trans: "engine_step s t \<Longrightarrow> engine_step t u \<Longrightarrow> engine_step s u"
  unfolding engine_step_def
  by (auto intro: led.rel_trans list_all2_trans [OF session_moves_trans])

interpretation eng: engine_rel engine_step
proof
  show "engine_step s s" for s by (rule engine_step_refl)
  show "engine_step s t \<Longrightarrow> engine_step t u \<Longrightarrow> engine_step s u" for s t u by (rule engine_step_trans)
  show "engine_step s (s\<lparr>calls := n\<rparr>)" "engine_step s (s\<lparr>clock := n\<rparr>)" "engine_step s (s\<lparr>published := published s @ msgs\<rparr>)"
    for s n msgs
    by (auto simp: engine_step_def ledger_step_same list_all2_refl)
  show "engine_step s (set_trade i P f s)" if "\<And>t. P t \<Longrightarrow> trade_moves t (f t)" for s i P f
    by (rule engine_step_trades [OF ledger_step_set_trade]) (use that in \<open>auto simp: set_trade_def\<close>)
  show "engine_step s (snd (insert_trade E n s))" for s E n
  proof (cases "insert_trade E n s")
    case (Pair r t)
    then have "\<exists>ts. t = s\<lparr>trades := ts\<rparr>"
      by (cases rule: insert_trade_cases) (auto intro: exI [of _ "trades s"])
    then show ?thesis using engine_step_trades ledger_step_insert [of s E n] by (auto simp: Pair)
  qed
  show "engine_step s (snd (add_sold E a i s))" for s E a i
    by (auto simp: add_sold_def engine_step_refl session_moves_def
        intro!: engine_step_sessions moves_update_where)
  show "engine_step s (set_session E i (\<lambda>r. r\<lparr>s_status := S_Completed\<rparr>) s)" for s E i
    unfolding set_session_def
    by (rule engine_step_sessions [OF refl]) (auto simp: session_moves_def intro: moves_update_where)
  show "engine_step s (s\<lparr>refunds := refunds s @ [r]\<rparr>)" if "r_status r = ''pending''" "\<not> r_verified r" for s r
    using that by (auto simp: engine_step_def ledger_step_same list_all2_refl)
qed

text \<open>C15: Processing an event changes only what it should, also when it fails half way: users, wallets, pools,
  deposits and e-mails stay as they are, a session changes at most its sold amount, its update time
  and its status, and the latter only to completed, trades are only added or moved along their
  status, with unique triggers, and refund requests are only added, pending and unverified.\<close>

theorem engine_changes_only:
  "engine_step s (snd (process_swap_event E orc event s)) \<and>
   engine_step s (snd (handle_message E orc payload s))"
proof
  have tx: "engine_step v (v\<lparr>sent := sent v @ [x]\<rparr>)" for v x
    by (auto simp: engine_step_def ledger_step_same list_all2_refl)
  have event: "keeps engine_step (process_swap_event E orc ev)" for ev
    unfolding keeps_def using eng.process_event_rel tx by blast
  then show "engine_step s (snd (process_swap_event E orc event s))" by (rule keeps_snd)
  have "keeps engine_step (handle_message E orc payload)"
    unfolding handle_message_def by (intro event eng.keeps_world)
  then show "engine_step s (snd (handle_message E orc payload s))" by (rule keeps_snd)
qed

section \<open>The books\<close>

text \<open>The entries of the books: amounts of the trades and sold amounts of the sessions.\<close>

definition same_books :: "world \<Rightarrow> world \<Rightarrow> bool" where
  "same_books s t \<longleftrightarrow>
     map (\<lambda>t. (t_session t, t_sell_amount t)) (trades t) = map (\<lambda>t. (t_session t, t_sell_amount t)) (trades s) \<and>
     map (\<lambda>r. (s_id r, s_sold r)) (sessions t) = map (\<lambda>r. (s_id r, s_sold r)) (sessions s)"

definition balanced_entries :: "(uuid \<times> int) list \<Rightarrow> (uuid \<times> int) list \<Rightarrow> bool" where
  "balanced_entries sold sales \<longleftrightarrow>
     (\<forall>(i, a) \<in> set sold. a = sum_list (map snd (filter (\<lambda>(j, a). j = i) sales)))"

lemma books_entries:
  "books_balanced s = balanced_entries (map (\<lambda>r. (s_id r, s_sold r)) (sessions s))
     (map (\<lambda>t. (t_session t, t_sell_amount t)) (trades s))"
  by (auto simp: books_balanced_def balanced_entries_def sold_by_def filter_map comp_def)

lemma books_same: "same_books s t \<Longrightarrow> books_balanced t = books_balanced s"
  by (simp only: same_books_def books_entries)

interpretation bks: completion_rel same_books
proof
  show "same_books s (set_trade i P f s)" if "\<And>t. P t \<Longrightarrow> trade_moves t (f t)" for s i P f
    using that trade_moves_fixed by (auto simp: same_books_def set_trade_def update_where_def)
  show "same_books s (set_session E i (\<lambda>r. r\<lparr>s_status := S_Completed\<rparr>) s)" for s E i
    by (simp add: same_books_def set_session_def update_where_def)
qed (simp_all add: same_books_def)

lemma books_sent: "same_books s (s\<lparr>sent := xs\<rparr>)"
  by (simp add: same_books_def)

lemma settle_books:
  assumes "decimal_law (lib_of E)" "settle_trade E session event pl tx recipient s = (Inr (), t)" "books_balanced s"
  shows "books_balanced t"
proof -
  obtain recorded u where rec: "record_trade E session event (pl_amount pl) (pl_impact pl) (pl_mcap pl) (Some tx) s = (Inr recorded, u)"
    and rest: "(if \<not> rec_inserted recorded then ret ()
     else
       rbind (finalize_or_fail E session recorded tx recipient) (\<lambda>fin.
       rbind (publish E subject_trades_completed (trade_event_json E session pl recorded tx fin)) (\<lambda>_.
       if total_of (lib_of E) session \<le> sold_of (lib_of E) session + pl_amount pl
       then complete_session E session else ret ()))) u = (Inr (), t)"
    using assms(2) unfolding settle_trade_def rbind_Inr_iff by blast
  have "keeps same_books (if \<not> rec_inserted recorded then ret ()
     else
       rbind (finalize_or_fail E session recorded tx recipient) (\<lambda>fin.
       rbind (publish E subject_trades_completed (trade_event_json E session pl recorded tx fin)) (\<lambda>_.
       if total_of (lib_of E) session \<le> sold_of (lib_of E) session + pl_amount pl
       then complete_session E session else ret ())))"
    by (intro bks.keeps_finalize_or_fail bks.keeps_complete books_sent bks.keeps_world)
  from keepsD [OF this rest] have "same_books u t" .
  with record_trade_balanced [OF assms(1) rec assms(3)] show ?thesis by (simp add: books_same)
qed

lemma process_session_books:
  assumes "decimal_law (lib_of E)" "process_session E orc event buy session s = (Inr (), t)" "books_balanced s"
  shows "books_balanced t"
proof -
  obtain plan u where plan: "plan_trade E orc session event buy s = (Inr plan, u)"
    and rest: "(case plan of
       None \<Rightarrow> ret ()
     | Some pl \<Rightarrow>
         rbind (submit_swap E session pl) (\<lambda>submitted.
         case submitted of
           None \<Rightarrow> ret ()
         | Some (tx_hash, recipient) \<Rightarrow> settle_trade E session event pl tx_hash recipient)) u = (Inr (), t)"
    using assms(2) unfolding process_session_def rbind_Inr_iff by blast
  have u: "books_balanced u" using keepsD [OF bks.keeps_plan plan] assms(3) by (simp add: books_same)
  show ?thesis
  proof (cases plan)
    case None
    then show ?thesis using rest u by simp
  next
    case (Some pl)
    then obtain submitted v where submit: "submit_swap E session pl u = (Inr submitted, v)"
      and last: "(case submitted of None \<Rightarrow> ret ()
        | Some (tx_hash, recipient) \<Rightarrow> settle_trade E session event pl tx_hash recipient) v = (Inr (), t)"
      using rest by (auto simp: rbind_Inr_iff)
    have v: "books_balanced v"
      using keepsD [OF bks.keeps_submit_swap [OF books_sent] submit] u by (simp add: books_same)
    then show ?thesis using last settle_books [OF assms(1)] by (cases submitted) auto
  qed
qed

lemma process_event_books:
  assumes "decimal_law (lib_of E)" "process_swap_event E orc event s = (Inr (), t)" "books_balanced s"
  shows "books_balanced t"
proof -
  let ?ask = "map_err snd (grpc E (get_active_sessions_for_token E (ev_chain event) [] (ev_pool_address event)))
    :: (world, err, session_info list) rt"
  let ?loop = "\<lambda>infos. for_each infos (process_session E orc event (buy_amount_of (lib_of E) event))"
  obtain infos u where ask: "?ask s = (Inr infos, u)" and loop: "?loop infos u = (Inr (), t)"
    using assms(2) unfolding process_swap_event_def rbind_Inr_iff by (auto split: if_splits)
  have "books_balanced u"
    using keepsD [OF bks.keeps_map_err [OF bks.keeps_grpc [OF bks.keeps_active_sessions]] ask] assms(3)
    by (simp add: books_same)
  moreover have "?loop xs v = (Inr (), t) \<Longrightarrow> books_balanced v \<Longrightarrow> books_balanced t" for xs v
    by (induction xs arbitrary: v) (auto simp: rbind_Inr_iff dest: process_session_books [OF assms(1)])
  ultimately show ?thesis using loop by blast
qed

text \<open>C16: An acknowledged message leaves the books balanced: if processing succeeds, the sold amount of every
  session is the sum of its trades, whatever trades the event led to.\<close>

theorem acknowledged_books:
  assumes "decimal_law (lib_of E)" "books_balanced s"
    and "handle_message E orc payload s = (Inr True, t)"
  shows "books_balanced t"
proof (cases "opt_bind (json_parse (lib_of E) payload) event_of_json")
  case None
  then show ?thesis using assms by (simp add: handle_message_def)
next
  case (Some event)
  obtain r u where run: "process_swap_event E orc event s = (r, u)"
    by (cases "process_swap_event E orc event s")
  then have "\<not> isl r \<and> u = t"
    using assms(3) unfolding handle_message_def Some option.case by (simp add: rbind_def attempt_def ret_def)
  then show ?thesis using run process_event_books [OF assms(1)] assms(2) by (cases r) auto
qed

section \<open>Redelivery\<close>

lemma swap_calldata_Inr:
  assumes "build_swap_calldata E a out route pt fee r chain bps s = (Inr data, t)"
  shows "\<exists>call. data = abi_encode (lib_of E) call \<and> route_call E chain route a r (case resolve_route_tokens_for_native E route chain of
        Inl _ \<Rightarrow> 0 | Inr (_, ni, _) \<Rightarrow> if ni then a else 0) call"
  using assms yieldsD [OF build_swap_call_yields]
  by (fastforce simp: build_swap_calldata_def rbind_Inr_iff)

lemma build_swap_sent:
  assumes "build_sign_and_submit_tx E chain c wallet r router data v s = (Inr h, t)"
  shows "\<exists>x ys. sent t = sent s @ ys @ [x] \<and> requests wallet r router data v c x"
proof -
  obtain x url s2 q where s2: "asks s s2" and x: "requests wallet r router data v c x"
    and send: "retry E 3 (send_raw E url x) s2 = (q, t)"
    using build_split [OF assms] by auto
  obtain j where "1 \<le> j" "sent t = sent s2 @ replicate j x"
    using retry_sends [OF _ send [unfolded retry_def]] by auto
  moreover from this(1) have "replicate j x = replicate (j - 1) x @ [x]"
    by (metis Suc_diff_1 less_eq_Suc_le One_nat_def replicate_append_same replicate_Suc)
  moreover have "sent s2 = sent s" using s2 by (simp add: asks_def same_tables_def)
  ultimately show ?thesis using x by auto
qed

text \<open>A successful submission ends with a swap of the planned amount over the router of the plan.\<close>

lemma submit_swap_sends:
  assumes "submit_swap E session pl s = (Inr (Some p), t)"
  shows "\<exists>router x ys. router_of E session pl = Some router \<and> sent t = sent s @ ys @ [x] \<and>
    swaps E session router (pl_route pl) (pl_amount pl) x"
proof -
  obtain router r s1 s2 out s3 data s4 h s5 where
    s0: "router_of E session pl = Some router"
    and s1: "resolve_session_wallet_address E (si_wallet session) (si_chain session) s = (Inr r, s1)"
    and s2: "approve_sale E session pl router r s1 = (Inr (Some ()), s2)"
    and s3: "get_on_chain_quote E (si_chain session) router (pl_amount pl) (pl_route pl) (pl_type pl) s2 = (Inr out, s3)"
    and s4: "build_swap_calldata E (pl_amount pl) out (pl_route pl) (pl_type pl) (pi_fee (pl_pool pl)) r (si_chain session)
        (session_slippage_bps session) s3 = (Inr data, s4)"
    and s5: "build_sign_and_submit_tx E (si_chain session) (chain_id_of E (si_chain session))
              (si_wallet session) r router data (swap_value E session pl) s4 = (Inr h, s5)" "t = s5"
    using assms unfolding submit_swap_def obind_Inr or_skip_Inr
    by (auto simp: ret_def)
  have approve: "keeps (sends (\<lambda>_. True)) (approve_sale E session pl router r)"
    unfolding approve_sale_def by (intro snt.keeps_or_skip snt.keeps_ensure_approval snt.keeps_world sends_snoc TrueI)
  from keepsD [OF snt.keeps_resolve s1] keepsD [OF approve s2]
  have "sends (\<lambda>_. True) s s2" by (rule snt.rel_trans)
  from snt.rel_trans [OF this keepsD [OF snt.keeps_quote s3]] have "sends (\<lambda>_. True) s s3" .
  from snt.rel_trans [OF this keepsD [OF snt.keeps_calldata s4]] have "sends (\<lambda>_. True) s s4" .
  then obtain ys where ys: "sent s4 = sent s @ ys" by (auto simp: sends_def)
  obtain zs x where zs: "sent t = sent s4 @ zs @ [x]"
    "requests (si_wallet session) r router data (swap_value E session pl) (chain_id_of E (si_chain session)) x"
    using build_swap_sent [OF s5(1)] s5(2) by blast
  have "swaps E session router (pl_route pl) (pl_amount pl) x"
    using swap_calldata_Inr [OF s4] zs(2) unfolding swap_value_def swaps_def requests_def asks_for_def by metis
  with ys zs(1) s0 show ?thesis by (intro exI [of _ router] exI [of _ x] exI [of _ "ys @ zs"]) simp
qed

lemma record_known:
  assumes "uuid_parse (lib_of E) (si_id session) = Some sid"
    and "has_trigger (sid, ev_tx_hash event, ev_pool_address event, ev_log_index event) s"
    and "record_trade E session event a impact mcap tx s = (r, t)"
  shows "same_tables s t \<and> sent t = sent s \<and> (\<forall>rt. r = Inr rt \<longrightarrow> \<not> rec_inserted rt)"
proof -
  have "sends (\<lambda>_. False) s t" by (rule keepsD [OF snt.append_record assms(3)])
  moreover have "\<exists>n amount. new_trigger n = (sid, ev_tx_hash event, ev_pool_address event, ev_log_index event) \<and>
      (store_trade E amount n s = (r, t) \<or> (isl r \<and> t = s))"
    using assms(3)
    by (cases "parse_numeric_decimal E (ev_amount_out event) ''trigger_buy_amount''";
        cases "parse_numeric_decimal E (u256_show (lib_of E) a) ''sell_amount''"; cases "mcap_column E mcap")
      (auto simp: record_trade_def rbind_def assms(1) of_result_def ok_or_def new_trigger_def
        intro!: exI [where x = "\<lparr>nt_session = sid, nt_chain = si_chain session, nt_trigger_tx = ev_tx_hash event,
        nt_pool = ev_pool_address event, nt_log = ev_log_index event, nt_trigger_amount = ta,
        nt_sell_amount = am, nt_sell_tx = tx, nt_impact = impact, nt_mcap = mc\<rparr>" for ta am mc])
  then have "same_tables s t \<and> (\<forall>rt. r = Inr rt \<longrightarrow> \<not> rec_inserted rt)"
    using assms(2) store_trade_known by (metis sum.disc(2) tab.rel_refl)
  ultimately show ?thesis by (auto simp: sends_def list_all_iff)
qed

text \<open>C17: A redelivered event is sold again: when the trigger of an event is already recorded for the
  session, as after a failure behind the recording, the swap is planned and submitted all the same,
  and only then does the recording refuse the duplicate, so that no table tells of the second sale.\<close>

theorem redelivery_sells_again:
  assumes "uuid_parse (lib_of E) (si_id session) = Some sid"
    and "has_trigger (sid, ev_tx_hash event, ev_pool_address event, ev_log_index event) s"
    and "plan_trade E orc session event buy s = (Inr (Some pl), u)"
    and "submit_swap E session pl u = (Inr (Some p), v)"
    and "process_session E orc event buy session s = (r, t)"
  shows "same_tables s t \<and> (\<exists>router x ys. router_of E session pl = Some router \<and> sent t = sent s @ ys @ [x] \<and>
    swaps E session router (pl_route pl) (pl_amount pl) x)"
proof -
  have u: "same_tables s u" "sent u = sent s"
    using keepsD [OF tab.keeps_plan assms(3)] keepsD [OF qry.keeps_plan assms(3)] by (simp_all add: asks_def same_tables_def)
  have v: "same_tables u v" by (rule keepsD [OF tab.keeps_submit_swap assms(4)]) (simp add: same_tables_def)
  obtain tx rc where p: "p = (tx, rc)" by (cases p)
  have run: "settle_trade E session event pl tx rc v = (r, t)"
    using assms(5) by (simp add: process_session_def rbind_def assms(3,4) p)
  obtain y w where rec: "record_trade E session event (pl_amount pl) (pl_impact pl) (pl_mcap pl) (Some tx) v = (y, w)"
    by (cases "record_trade E session event (pl_amount pl) (pl_impact pl) (pl_mcap pl) (Some tx) v")
  have known: "has_trigger (sid, ev_tx_hash event, ev_pool_address event, ev_log_index event) v"
    using assms(2) u(1) v by (simp add: has_trigger_def same_tables_def)
  note w = record_known [OF assms(1) known rec]
  have "t = w" using run w by (cases y) (auto simp: settle_trade_def rbind_def rec)
  then show ?thesis
    using w u v submit_swap_sends [OF assms(4)] by (auto simp: same_tables_def)
qed

section \<open>Routes that the engine cannot read\<close>

text \<open>A trade is not planned, and nothing is sent, for a pool whose route cannot be read.\<close>

lemma or_skip_run: "\<exists>x t. or_skip m s = (Inr x, t)"
  by (cases "m s") (simp add: or_skip_def rbind_def attempt_def ret_def)

lemma unreadable_not_planned:
  assumes "pool_of_event session event = Some p" "parse_pool_swap_route (lib_of E) (pi_path_json p) (ev_pool_address event) = None"
  shows "\<exists>t. plan_trade E orc session event buy s = (Inr None, t)"
proof (cases "trade_direction session event")
  case None
  then show ?thesis by (simp add: plan_trade_def)
next
  case (Some d)
  obtain pt where d: "d = (p, pt)" using Some assms(1) by (auto simp: trade_direction_def opt_bind_def split: if_splits option.splits)
  have size: "plan_size_and_impact E session event p pt buy cap u = (Inr None, u)" for cap u
    by (cases "sale_size (lib_of E) session buy") (simp_all add: plan_size_and_impact_def assms(2))
  obtain x u where trigger: "trigger_guard E orc session event p pt buy s = (Inr x, u)"
  proof (cases "f_lt (Fin 0) (si_trigger session)")
    case True
    let ?fetch = "fetch_buy_amount_usd_from_oracle E (si_chain session) orc (resolved_token_out event p)
      (ev_pool_address event) (pool_type_to_oracle_version pt) buy (si_sell_decimals session)"
    obtain y v where "or_skip ?fetch s = (Inr y, v)" using or_skip_run by blast
    then show ?thesis using True that by (cases y) (auto simp: trigger_guard_def obind_def rbind_def ret_def)
  qed (use that in \<open>simp add: trigger_guard_def ret_def\<close>)
  have snapshot: "\<exists>c w. market_cap_snapshot E orc session event p pt u = (Inr c, w)"
    by (simp add: market_cap_snapshot_def rbind_def attempt_def ret_def split: prod.split)
  then obtain c w where cap: "market_cap_snapshot E orc session event p pt u = (Inr c, w)" by blast
  have "plan_trade E orc session event buy s = obind (trigger_guard E orc session event p pt buy) (\<lambda>_.
     obind (market_cap_snapshot E orc session event p pt) (\<lambda>cap.
     if \<not> market_cap_guard session cap then ret None
     else plan_size_and_impact E session event p pt buy cap)) s"
    by (simp add: plan_trade_def Some d)
  then show ?thesis
    by (cases x; cases c) (simp_all add: obind_def rbind_def trigger cap size ret_def)
qed

lemma unreadable_skipped:
  assumes "pool_of_event session event = Some p" "parse_pool_swap_route (lib_of E) (pi_path_json p) (ev_pool_address event) = None"
  shows "\<exists>t. process_session E orc event buy session s = (Inr (), t) \<and> same_tables s t \<and> sent t = sent s"
proof -
  obtain t where t: "plan_trade E orc session event buy s = (Inr None, t)" using unreadable_not_planned [OF assms] by blast
  then have "asks s t" by (rule keepsD [OF qry.keeps_plan])
  with t show ?thesis by (simp add: process_session_def rbind_def ret_def asks_def)
qed

lemma distinct_key_eq: "distinct (map f xs) \<Longrightarrow> x \<in> set xs \<Longrightarrow> y \<in> set xs \<Longrightarrow> f x = f y \<Longrightarrow> x = y"
  by (auto simp: distinct_map dest: inj_onD)

text \<open>C38: Whatever route the engine can read for a pool, the session service accepts for it.  The converse fails,
  because the service checks that the first hop only is a text: a route whose tokens are not texts is accepted, and
  if the session is created (for pools of different addresses), any such route is stored with its pool, and whatever the event of that pool and
  the session's other fields, the engine that reads the pools of the session back skips it: no error, no transaction and
  no change of a table.\<close>

theorem route_checks_compare:
  assumes owned: "\<forall>q \<in> set (session_pools s). \<exists>r \<in> set (sessions s). s_id r = sp_session q"
    and run: "create_session E req s = (Inr info, t)"
    and differ: "distinct (map (\<lambda>q. lower (pi_address q)) (cs_pools req))"
    and p: "p \<in> set (cs_pools req)" "json_parse (lib_of E) (trim (pi_path_json p)) = Some v" "route_of_json v = None"
    and json: "json_parse (lib_of E) (trim (json_show (lib_of E) v)) = Some v"
  shows "(\<forall>raw pool route. parse_pool_swap_route (lib_of E) raw pool = Some route \<longrightarrow>
        (\<exists>v. parse_pool_swap_path_json (lib_of E) raw pool = Inr v)) \<and>
     (\<forall>raw pool. trim raw \<noteq> [] \<and> json_parse (lib_of E) (trim raw) = Some (tokenless_route pool) \<longrightarrow>
        (\<exists>v. parse_pool_swap_path_json (lib_of E) raw pool = Inr v) \<and> parse_pool_swap_route (lib_of E) raw pool = None) \<and>
     (\<exists>i. si_id info = uuid_show (lib_of E) i \<and>
        (\<exists>row \<in> set (pools_of i t). sp_address row = pi_address p \<and> sp_path row = Some v) \<and>
        (\<forall>orc event buy session u. si_pools session = map (pool_row_info (lib_of E)) (pools_of i t) \<and>
             eq_ic (pi_address p) (ev_pool_address event) \<longrightarrow>
           (\<exists>u'. process_session E orc event buy session u = (Inr (), u') \<and> same_tables u u' \<and> sent u' = sent u)))"
proof (intro conjI)
  show "\<forall>raw pool route. parse_pool_swap_route (lib_of E) raw pool = Some route \<longrightarrow>
        (\<exists>v. parse_pool_swap_path_json (lib_of E) raw pool = Inr v)"
    using read_route_accepted by blast
  show "\<forall>raw pool. trim raw \<noteq> [] \<and> json_parse (lib_of E) (trim raw) = Some (tokenless_route pool) \<longrightarrow>
        (\<exists>v. parse_pool_swap_path_json (lib_of E) raw pool = Inr v) \<and> parse_pool_swap_route (lib_of E) raw pool = None"
    using tokenless_accepted by (auto simp: parse_pool_swap_route_def Let_def opt_bind_def)
  have "distinct (map pi_address (cs_pools req))"
    using differ by (auto simp: distinct_map inj_on_def)
  then obtain i paths where i: "si_id info = uuid_show (lib_of E) i" "length paths = length (cs_pools req)"
      "parse_pool_paths (lib_of E) (cs_pools req) = Inr paths"
      "pool_entries i t = map (\<lambda>(p, v). (pi_address p, Some v)) (zip (cs_pools req) paths)"
    using created_entries [OF owned run] by blast
  have rows: "\<exists>q path. sp_address row = pi_address q \<and> sp_path row = Some path \<and> (q, path) \<in> set (zip (cs_pools req) paths)"
    if "row \<in> set (pools_of i t)" for row
  proof -
    have "(sp_address row, sp_path row) \<in> set (pool_entries i t)"
      using that by (auto simp: pools_of_def pool_entries_def)
    then show ?thesis unfolding i(4) by auto
  qed
  have path: "path = v" if "(p, path) \<in> set (zip (cs_pools req) paths)" for path
    using parse_pool_paths_each [OF i(3) that] p(2)
    by (auto simp: parse_pool_swap_path_json_def Let_def sbind_Inr ok_or_def split: option.splits)
  obtain path where "(p, path) \<in> set (zip (cs_pools req) paths)"
    using p(1) i(2) by (metis in_set_impl_in_set_zip1)
  then have "(pi_address p, Some v) \<in> set (pool_entries i t)" unfolding i(4) using path by force
  then have stored: "\<exists>row \<in> set (pools_of i t). sp_address row = pi_address p \<and> sp_path row = Some v"
    by (auto simp: pools_of_def pool_entries_def)
  have same: "sp_path row = Some v" if "row \<in> set (pools_of i t)" "lower (sp_address row) = lower (pi_address p)" for row
  proof -
    note row = that
    obtain q path where q: "sp_address row = pi_address q" "sp_path row = Some path" "(q, path) \<in> set (zip (cs_pools req) paths)"
      using rows [OF row(1)] by blast
    then have "q = p" using row(2) p(1) distinct_key_eq [OF differ] by (auto dest: set_zip_leftD)
    with q path show ?thesis by simp
  qed
  have skipped: "\<exists>u'. process_session E orc event buy session u = (Inr (), u') \<and> same_tables u u' \<and> sent u' = sent u"
    if pools: "si_pools session = map (pool_row_info (lib_of E)) (pools_of i t)" and ev: "eq_ic (pi_address p) (ev_pool_address event)"
    for orc event buy session u
  proof -
    let ?hit = "\<lambda>q. eq_ic (pi_address q) (ev_pool_address event)"
    have "\<exists>q \<in> set (si_pools session). ?hit q" using stored ev unfolding pools by (auto simp: pool_row_info_def) metis
    then obtain q where q: "pool_of_event session event = Some q"
      unfolding pool_of_event_def by (cases "find ?hit (si_pools session)") (auto simp: find_None_iff)
    then have "q \<in> set (si_pools session)" "?hit q" by (auto simp: pool_of_event_def find_Some_iff)
    then obtain row where row: "row \<in> set (pools_of i t)" "q = pool_row_info (lib_of E) row"
      unfolding pools by auto
    have "lower (sp_address row) = lower (pi_address p)"
      using \<open>?hit q\<close> ev by (simp add: row(2) pool_row_info_def eq_ic_def)
    then have "pi_path_json q = json_show (lib_of E) v" using same [OF row(1)] by (simp add: row(2) pool_row_info_def)
    then have "parse_pool_swap_route (lib_of E) (pi_path_json q) (ev_pool_address event) = None"
      using json p(3) by (simp add: parse_pool_swap_route_def Let_def opt_bind_def)
    from unreadable_skipped [OF q this] show ?thesis .
  qed
  show "\<exists>i. si_id info = uuid_show (lib_of E) i \<and>
        (\<exists>row \<in> set (pools_of i t). sp_address row = pi_address p \<and> sp_path row = Some v) \<and>
        (\<forall>orc event buy session u. si_pools session = map (pool_row_info (lib_of E)) (pools_of i t) \<and>
             eq_ic (pi_address p) (ev_pool_address event) \<longrightarrow>
           (\<exists>u'. process_session E orc event buy session u = (Inr (), u') \<and> same_tables u u' \<and> sent u' = sent u))"
    using i(1) stored skipped by blast
qed

section \<open>Witnesses\<close>

definition engine_json :: "string \<Rightarrow> json option" where
  "engine_json t = (if t = ''swap'' then Some (event_json sample_event) else sample_json t)"

definition engine_env :: env where
  "engine_env = sample_env\<lparr>cfg := keyed_settings,
     lib_of := sample_lib\<lparr>tx_to_json := (\<lambda>t. Some [7]), tx_of_json := (\<lambda>b. Some sample_request),
     json_parse := engine_json\<rparr>,
     node_of := sample_node\<lparr>rpc_usd_price := (\<lambda>url orc token pair v n. Inl ''no price'')\<rparr>\<rparr>"

definition watched_pool :: session_pool_row where
  "watched_pool = \<lparr>sp_session = 9, sp_address = ''0x00000000000000000000000000000000000000aa'', sp_type = V2,
     sp_dex = ''pancakeswap'', sp_token0 = ''0x0000000000000000000000000000000000000001'',
     sp_token1 = ''0x0000000000000000000000000000000000000002'', sp_fee = 0,
     sp_path = Some (JObj [(''hops'', JArr [])])\<rparr>"

definition watched_world :: world where
  "watched_world = wallet_world\<lparr>sessions := [sample_session_row], session_pools := [watched_pool]\<rparr>"

definition watching :: session_info where
  "watching = sample_session\<lparr>si_created := ''0'', si_updated := ''0'',
      si_pools := [\<lparr>pi_address = ''0x00000000000000000000000000000000000000aa'', pi_type = ''v2'', pi_dex = ''pancakeswap'',
        pi_token0 = ''0x0000000000000000000000000000000000000001'', pi_token1 = ''0x0000000000000000000000000000000000000002'',
        pi_fee = 0, pi_reserve0 = [], pi_reserve1 = [], pi_liquidity = [], pi_balance0 = [], pi_balance1 = [],
        pi_price0 = Fin 0, pi_price1 = Fin 0, pi_path_json = ''route''\<rparr>]\<rparr>"

definition watching_plan :: trade_plan where
  "watching_plan = \<lparr>pl_pool = hd (si_pools watching), pl_type = V2, pl_mcap = None, pl_amount = 100,
     pl_route = \<lparr>pr_hops = [''0x00000000000000000000000000000000000000aa''],
       pr_hop_tokens = [''0x0000000000000000000000000000000000000001'', ''0x0000000000000000000000000000000000000002''],
       pr_fee_tiers = []\<rparr>,
     pl_sell_token = ''0x0000000000000000000000000000000000000001'', pl_impact = 0\<rparr>"


definition watching_tx :: sent_tx where
  "watching_tx = \<lparr>x_wallet = show_hex 32 0, x_request = \<lparr>tx_from = 5, tx_to = 0xbb, tx_value = 0, tx_input = [1, 2, 3, 4],
     tx_nonce = 0, tx_chain_id = 56, tx_gas_limit = Some 25200, tx_gas_price = Some 3\<rparr>, x_raw = [9, 9]\<rparr>"

lemma engine_env_parts:
  "db_reply engine_env n = Served" "grpc_down engine_env n = None" "publish_fails engine_env n = False"
  "unix_secs engine_env n = 1700000000" "fresh_uuid engine_env n = of_nat n" "db_now engine_env n = int n"
  "elapsed_ms engine_env n = 0"
  by (simp_all add: engine_env_def sample_env_parts)

lemma engine_remote: "remote engine_env f s = (f (calls s), s\<lparr>calls := Suc (calls s)\<rparr>)"
  by (cases s) (simp add: remote_def engine_env_parts)

lemma engine_node_parts:
  "rpc_token0 (node_of engine_env) url pool n = Inr 1" "rpc_token1 (node_of engine_env) url pool n = Inr 2"
  "rpc_reserves (node_of engine_env) url pool n = Inr (1000000, 500000, 0)"
  "rpc_allowance (node_of engine_env) url token owner spender n = Inr (- 1)"
  "rpc_usd_price (node_of engine_env) url orc token pair v n = Inl ''no price''"
  "rpc_amounts_out (node_of engine_env) url router amount path n = Inr [amount, 500]"
  "rpc_gas_price (node_of engine_env) url n = Inr 3" "rpc_nonce (node_of engine_env) url a n = Inr 0"
  "rpc_total_supply (node_of engine_env) url token n = Inr 1000000000"
  "rpc_estimate_gas (node_of engine_env) url t n = Inr 21000" "rpc_send_raw (node_of engine_env) url raw n = Inr 77"
  "rpc_receipt (node_of engine_env) url h n = Inr (Some sample_receipt)"
  by (simp_all add: engine_env_def sample_node_answers)

lemma engine_texts:
  "provider_url engine_env ''bsc'' = Inr ''http://node''"
  "router_of engine_env watching watching_plan = Some 0xbb"
  "is_native_placeholder_address (pl_sell_token watching_plan) = False"
  "addr_parse (lib_of engine_env) (pl_sell_token watching_plan) = Some 1"
  "resolve_route_tokens_for_native engine_env (pl_route watching_plan) ''bsc'' = Inr ([1, 2], False, False)"
  "amount_out_min 100 500 (session_slippage_bps watching) = Inr 475"
  "chain_id_of engine_env ''bsc'' = 56"
  "uuid_parse (lib_of engine_env) (show_hex 32 0) = Some 0"
  "addr_parse (lib_of engine_env) (w_address sample_wallet) = Some 5"
  "eq_ic (w_chain sample_wallet) ''bsc''"
  "key_ok (lib_of engine_env) (replicate 32 7)"
  "parse_master_key engine_env = Inr zero_key"
  "gas_limit_of 21000 = 25200"
  "sample_b256_show 77 \<noteq> []"
  by code_simp+

lemma engine_codecs:
  "tx_to_json (lib_of engine_env) t = Some [7]" "tx_of_json (lib_of engine_env) b = Some sample_request"
  "sign_tx (lib_of engine_env) k x = Some ([9, 9], 77)" "b256_debug (lib_of engine_env) = sample_b256_show"
  "abi_encode (lib_of engine_env) c = [1, 2, 3, 4]"
  by (simp_all add: engine_env_def sample_lib_def)

lemma engine_opens: "decrypt_key engine_env zero_key (w_key sample_wallet) (w_nonce sample_wallet) = Inr (replicate 32 7)"
  by (simp add: decrypt_key_def engine_env_def sample_lib_def sample_open_def sample_wallet_def ok_or_def)

lemma engine_prepare:
  "prepare_tx engine_env ''bsc'' 56 5 0xbb [1, 2, 3, 4] 0 s =
     (Inr (''http://node'', x_request watching_tx, [7]), s\<lparr>calls := calls s + 3\<rparr>)"
  by (simp add: prepare_tx_def rbind_def engine_texts engine_node_parts engine_codecs engine_remote of_result_def ok_or_def
      ret_def watching_tx_def)

lemma engine_sign:
  assumes "wallets s = [sample_wallet]"
  shows "kms_sign engine_env (show_hex 32 0) [7] s = (Inr ([9, 9], sample_b256_show 77), s\<lparr>calls := calls s + 2\<rparr>)"
proof -
  have "w_id sample_wallet = 0" by (simp add: sample_wallet_def)
  then show ?thesis
    by (simp add: kms_sign_def grpc_def engine_texts sign_transaction_def parse_id_def status_err_def map_err_def
        rbind_def of_result_def ok_or_def query_def sql_def gets_def Let_def wallet_by_id_def assms engine_opens
        engine_codecs engine_env_parts ret_def)
qed

lemma engine_submit:
  assumes "wallets s = [sample_wallet]"
  shows "build_sign_and_submit_tx engine_env ''bsc'' 56 (show_hex 32 0) 5 0xbb [1, 2, 3, 4] 0 s =
    (Inr (sample_b256_show 77), s\<lparr>calls := calls s + 6, sent := sent s @ [watching_tx]\<rparr>)"
proof -
  have x: "watching_tx = \<lparr>x_wallet = show_hex 32 0, x_request = x_request watching_tx, x_raw = [9, 9]\<rparr>"
    by (simp add: watching_tx_def)
  have "send_raw engine_env ''http://node'' watching_tx (s\<lparr>calls := 5 + calls s\<rparr>) =
      (Inr 77, s\<lparr>calls := 6 + calls s, sent := sent s @ [watching_tx]\<rparr>)"
    by (simp add: send_raw_def rbind_def modify_def engine_remote engine_node_parts)
  then have send: "retry engine_env 3 (send_raw engine_env ''http://node'' watching_tx) (s\<lparr>calls := 5 + calls s\<rparr>) =
      (Inr 77, s\<lparr>calls := 6 + calls s, sent := sent s @ [watching_tx]\<rparr>)"
    unfolding numeral_3_eq_3 by (rule retry_first)
  show ?thesis
    using engine_sign [of "s\<lparr>calls := calls s + 3\<rparr>"] send assms
    by (simp add: build_sign_and_submit_tx_def rbind_def engine_prepare x [symmetric] map_err_def engine_codecs
        engine_texts ret_def)
qed

lemma watching_submitted:
  assumes "wallets s = [sample_wallet]"
  shows "submit_swap engine_env watching watching_plan s =
    (Inr (Some (sample_b256_show 77, 5)), s\<lparr>calls := calls s + 10, sent := sent s @ [watching_tx]\<rparr>)"
proof -
  have w: "w_id sample_wallet = 0" by (simp add: sample_wallet_def)
  have resolve: "resolve_session_wallet_address engine_env (show_hex 32 0) ''bsc'' s = (Inr 5, s\<lparr>calls := calls s + 1\<rparr>)"
    by (simp add: resolve_session_wallet_address_def Let_def rbind_def engine_texts of_result_def ok_or_def query_def sql_def
        gets_def engine_env_parts wallet_by_id_def assms w)
  have pl: "pl_type watching_plan = V2" "pl_amount watching_plan = 100" "si_chain watching = ''bsc''"
    "si_wallet watching = show_hex 32 0"
    by (simp_all add: watching_plan_def watching_def sample_session_def)
  have approve: "approve_sale engine_env watching watching_plan 0xbb 5 t = (Inr (Some ()), t\<lparr>calls := calls t + 1\<rparr>)" for t
  proof -
    have "(100 :: u256) \<le> - 1" by simp
    then show ?thesis
      by (simp add: approve_sale_def engine_texts or_skip_def ok_def ensure_token_approval_def pl rbind_def of_result_def ok_or_def engine_remote engine_node_parts attempt_def ret_def)
  qed
  have quote: "get_on_chain_quote engine_env ''bsc'' 0xbb 100 (pl_route watching_plan) V2 t = (Inr 500, t\<lparr>calls := calls t + 1\<rparr>)" for t
    by (simp add: get_on_chain_quote_def engine_texts rbind_def of_result_def engine_remote engine_node_parts ret_def)
  have data: "build_swap_calldata engine_env 100 500 (pl_route watching_plan) V2 fee 5 ''bsc'' (session_slippage_bps watching) t =
      (Inr [1, 2, 3, 4], t\<lparr>calls := calls t + 1\<rparr>)" for t fee
    by (simp add: build_swap_calldata_def build_swap_call_def engine_texts rbind_def of_result_def ask_def engine_codecs ret_def)
  have native: "swap_value engine_env watching watching_plan = 0"
    by (simp add: swap_value_def engine_texts pl)
  show ?thesis
    by (simp add: submit_swap_def obind_def or_skip_def attempt_def ok_def rbind_def engine_texts ret_def pl resolve approve
        quote data native engine_submit assms)
qed

lemma engine_plan_texts:
  "provider_url engine_env (si_chain watching) = Inr ''http://node''"
  "trade_direction watching sample_event = Some (hd (si_pools watching), V2)"
  "addr_parse (lib_of engine_env) (resolved_token_out sample_event (hd (si_pools watching))) = Some 1"
  "addr_parse (lib_of engine_env) (ev_pool_address sample_event) = Some 0xaa"
  "f_lt (Fin 0) (si_trigger watching) = False" "f_lt (Fin 0) (si_mcap watching) = False"
  "sale_size (lib_of engine_env) watching 1000 = Some 100"
  "parse_pool_swap_route (lib_of engine_env) (pi_path_json (hd (si_pools watching))) (ev_pool_address sample_event) =
     Some (pl_route watching_plan)"
  "pr_hop_tokens (pl_route watching_plan) = [pl_sell_token watching_plan, ''0x0000000000000000000000000000000000000002'']"
  "map_option (\<lambda>c. trim (cc_rpc_url c)) (chain_cfg_of engine_env ''bsc'') = Some ''http://node''"
  "parse_url engine_env e ''http://node'' = Inr ''http://node''"
  "max_impact_of engine_env watching = 500"
  by code_simp+

lemma engine_plan_numbers:
  "calculate_impact_from_reserves 1000000 500000 100 = 0"
  "opt_or 0 (u256_radix (lib_of engine_env) 10 (u256_show (lib_of engine_env) 1000000)) = 1000000"
  "opt_or 0 (u256_radix (lib_of engine_env) 10 (u256_show (lib_of engine_env) 500000)) = 500000"
  by code_simp+

text \<open>The plan does not look at the tables.\<close>

lemma watching_planned:
  "plan_trade engine_env 9 watching sample_event 1000 s = (Inr (Some watching_plan), s\<lparr>calls := calls s + 4\<rparr>)"
proof -
  have cap: "market_cap_snapshot engine_env 9 watching sample_event (hd (si_pools watching)) V2 s =
      (Inr (Some None), s\<lparr>calls := calls s + 1\<rparr>)" for s
    by (simp add: market_cap_snapshot_def fetch_token_market_cap_usd_from_oracle_def engine_texts engine_plan_texts rbind_def of_result_def
        fetch_oracle_usd_price_36_def ok_or_def engine_remote engine_node_parts attempt_def ret_def)
  obtain c where c: "chain_cfg_of engine_env ''bsc'' = Some c" "trim (cc_rpc_url c) = ''http://node''"
    using engine_plan_texts(10) by auto
  have impact: "calculate_price_impact engine_env ''bsc'' (ev_pool_address sample_event) V2 (pl_sell_token watching_plan) 100 s =
    (Inr 0, s\<lparr>calls := calls s + 3\<rparr>)" for s
    by (simp add: calculate_price_impact_def c rbind_def of_result_def ok_or_def Let_def engine_plan_texts engine_plan_numbers engine_texts
        pool_state_def engine_remote engine_node_parts ret_def orient_reserves_def)
  have pl: "watching_plan = \<lparr>pl_pool = hd (si_pools watching), pl_type = V2, pl_mcap = None, pl_amount = 100,
      pl_route = pl_route watching_plan, pl_sell_token = pl_sell_token watching_plan, pl_impact = 0\<rparr>" "si_chain watching = ''bsc''"
    by (simp_all add: watching_plan_def watching_def sample_session_def)
  have guard: "market_cap_guard watching None" by (simp add: market_cap_guard_def engine_plan_texts)
  have trigger: "trigger_guard engine_env 9 watching sample_event p pt a = ret (Some ())" for p pt a
    by (simp add: trigger_guard_def engine_plan_texts)
  have size: "plan_size_and_impact engine_env watching sample_event (hd (si_pools watching)) V2 1000 None s =
    (Inr (Some watching_plan), s\<lparr>calls := calls s + 3\<rparr>)" for s
    by (simp add: plan_size_and_impact_def engine_plan_texts obind_def or_skip_def attempt_def ok_def rbind_def ret_def
        impact pl(1) [symmetric] pl(2))
  show ?thesis
    by (simp add: plan_trade_def engine_plan_texts trigger obind_def [of "market_cap_snapshot e1 o1 i1 v1 p1 t1" for e1 o1 i1 v1 p1 t1]
       rbind_def cap guard size)
qed

lemma watching_recorded:
  "record_trade engine_env watching sample_event 100 0 None (Some (sample_b256_show 77)) (watched_world\<lparr>calls := n, sent := xs\<rparr>) =
   rbind (sql engine_env (add_sold engine_env (u256_rat 100) 9)) (\<lambda>_.
       ret \<lparr>rec_trade_id = uuid_show sample_lib (of_nat (Suc n)), rec_executed_at = show_int (int (Suc n)), rec_inserted = True\<rparr>)
     (watched_world\<lparr>calls := Suc n, sent := xs, trades := [new_trade_row \<lparr>nt_session = 9, nt_chain = ''bsc'', nt_trigger_tx = ''0xab'',
        nt_pool = ''0x00000000000000000000000000000000000000aa'', nt_log = 4, nt_trigger_amount = 1000,
        nt_sell_amount = u256_rat 100, nt_sell_tx = Some (sample_b256_show 77), nt_impact = 0, nt_mcap = None\<rparr>
        (of_nat (Suc n)) (int (Suc n)) 1000 100 None]\<rparr>)"
proof -
  have "numeric78 1000 = Some 1000" using numeric78_int [of 1000] by simp
  moreover have "decimal_parse sample_lib (u256_show sample_lib 100) = Some (u256_rat 100)"
    using sample_decimal_law by (simp add: decimal_law_def)
  moreover have "numeric78 (u256_rat 100) = Some 100" using u256_fits [of 100] by simp
  moreover have "decimal_parse (lib_of engine_env) = decimal_parse sample_lib" "uuid_parse (lib_of engine_env) = uuid_parse sample_lib"
    "u256_show (lib_of engine_env) = u256_show sample_lib" "uuid_show (lib_of engine_env) = uuid_show sample_lib"
    "time_show (lib_of engine_env) = show_int"
    by (simp_all add: engine_env_def sample_lib_def)
  ultimately show ?thesis
    by (simp add: record_trade_def store_trade_def mcap_column_def parse_numeric_decimal_def sample_ids
        watching_def sample_session_def sample_event_def insert_trade_def sql_def rbind_def of_result_def ok_or_def Let_def
        watched_world_def wallet_world_def user_world_def empty_world_def sample_session_row_def chain_ids_def opt_numeric_def
        has_trigger_def engine_env_parts)
qed

lemma watching_served:
  "get_active_sessions_for_token engine_env ''bsc'' [] (ev_pool_address sample_event) (watched_world\<lparr>calls := 1\<rparr>) =
     (Inr [watching], watched_world\<lparr>calls := 3\<rparr>)"
  by code_simp

lemma engine_receipt:
  "received_of_receipt engine_env ''bsc'' (si_target_token watching) 5 sample_receipt = None"
  "parse_receipt_success_from_json sample_receipt = Some True"
  "trim (sample_b256_show 77) = sample_b256_show 77"
  "b256_parse (lib_of engine_env) (sample_b256_show 77) = Some 77"
  by code_simp+

lemma engine_finalizes:
  assumes "rec_trade_id rec = uuid_show sample_lib i"
  shows "\<exists>t fin. finalize_or_fail engine_env watching rec (sample_b256_show 77) 5 u = (Inr fin, t) \<and> sent t = sent u \<and>
     map t_sell_amount (trades t) = map t_sell_amount (trades u)"
proof -
  have chain: "si_chain watching = ''bsc''" by (simp add: watching_def sample_session_def)
  have fetch: "fetch_receipt_with_received engine_env ''bsc'' (sample_b256_show 77) (si_target_token watching) 5 u =
      (Inr (Some (True, None)), u\<lparr>calls := Suc (calls u)\<rparr>)"
    by (simp add: fetch_receipt_with_received_def engine_texts engine_receipt rbind_def of_result_def ok_or_def engine_remote
        engine_node_parts ret_def)
  have id: "uuid_parse (lib_of engine_env) (rec_trade_id rec) = Some i"
    using sample_uuid_law [of i] by (simp add: assms engine_env_def sample_env_parts sample_lib_parts)
  show ?thesis
    by (simp add: finalize_or_fail_def finalize_trade_status_from_receipt_def engine_receipt engine_texts finalize_loop.simps chain fetch
        finish_confirmed_def confirm_with_amount_def mark_trade_confirmed_def trade_uuid_def id exec_def sql_def rbind_def Let_def
        attempt_def ret_def of_result_def ok_or_def modify_def set_trade_def engine_env_parts update_where_def)
qed

lemma watching_settles:
  "\<exists>t. settle_trade engine_env watching sample_event watching_plan (sample_b256_show 77) 5
      (watched_world\<lparr>calls := n, sent := xs\<rparr>) = (Inr (), t) \<and> sent t = xs \<and> map t_sell_amount (trades t) = [100]"
proof -
  let ?rec = "\<lparr>rec_trade_id = uuid_show sample_lib (of_nat (Suc n)), rec_executed_at = show_int (int (Suc n)), rec_inserted = True\<rparr>"
  have "sessions watched_world = [sample_session_row]" by (simp add: watched_world_def)
  then obtain u where rec: "record_trade engine_env watching sample_event 100 0 None (Some (sample_b256_show 77))
        (watched_world\<lparr>calls := n, sent := xs\<rparr>) = (Inr ?rec, u)" "sent u = xs" "map t_sell_amount (trades u) = [100]"
    unfolding watching_recorded
    by (simp add: rbind_def sql_def engine_env_parts Let_def add_sold_sample ret_def)
  obtain t fin where fin: "finalize_or_fail engine_env watching ?rec (sample_b256_show 77) 5 u = (Inr fin, t)"
    "sent t = sent u" "map t_sell_amount (trades t) = map t_sell_amount (trades u)"
    using engine_finalizes [OF recorded_trade.select_convs(1)] by blast
  have pl: "pl_amount watching_plan = 100" "pl_impact watching_plan = 0" "pl_mcap watching_plan = None"
    by (simp_all add: watching_plan_def)
  have open_session: "\<not> total_of (lib_of engine_env) watching \<le> sold_of (lib_of engine_env) watching + 100" by code_simp
  show ?thesis
    using fin rec by (simp add: settle_trade_def pl rbind_def publish_def open_session ret_def engine_env_parts)
qed

lemma watched_parts: "wallets watched_world = [sample_wallet]" "calls watched_world = 0" "sent watched_world = []"
  by (simp_all add: watched_world_def wallet_world_def user_world_def empty_world_def)

lemma engine_buy: "buy_amount_of (lib_of engine_env) sample_event = 1000"
  by code_simp

lemma watching_settled:
  "\<exists>t. settle_trade engine_env watching sample_event watching_plan (sample_b256_show 77) 5
      (watched_world\<lparr>calls := 17, sent := [watching_tx]\<rparr>) = (Inr (), t) \<and> sent t = [watching_tx] \<and> map t_sell_amount (trades t) = [100]"
  by (rule watching_settles)

lemma watching_processed:
  assumes "settle_trade engine_env watching sample_event watching_plan (sample_b256_show 77) 5
      (watched_world\<lparr>calls := 17, sent := [watching_tx]\<rparr>) = (Inr (), t)"
  shows "process_session engine_env 9 sample_event 1000 watching (watched_world\<lparr>calls := 3\<rparr>) = (Inr (), t)"
  using assms by (simp add: process_session_def rbind_def watching_planned watching_submitted watched_parts)

lemma engine_processed:
  assumes "process_session engine_env 9 sample_event 1000 watching (watched_world\<lparr>calls := 3\<rparr>) = (Inr (), t)"
  shows "process_swap_event engine_env 9 sample_event watched_world = (Inr (), t)"
proof -
  have ev: "ev_chain sample_event = ''bsc''" by (simp add: sample_event_def)
  show ?thesis
    by (simp add: process_swap_event_def rbind_def map_err_def grpc_def engine_env_parts watched_parts ev watching_served [unfolded One_nat_def] engine_buy assms ret_def)
qed

lemma engine_json_swap: "json_parse (lib_of engine_env) ''swap'' = Some (event_json sample_event)"
    by (simp add: engine_env_def engine_json_def)

lemma engine_handles:
  "\<exists>t. process_swap_event engine_env 9 sample_event watched_world = (Inr (), t) \<and>
     handle_message engine_env 9 ''swap'' watched_world = (Inr True, t) \<and>
     sent t = [watching_tx] \<and> map t_sell_amount (trades t) = [100]"
proof -
  from watching_settled obtain t where t: "settle_trade engine_env watching sample_event watching_plan (sample_b256_show 77) 5
      (watched_world\<lparr>calls := 17, sent := [watching_tx]\<rparr>) = (Inr (), t)" "sent t = [watching_tx]" "map t_sell_amount (trades t) = [100]"
    by (elim exE conjE)
  note run = engine_processed [OF watching_processed [OF t(1)]]
  have "handle_message engine_env 9 ''swap'' watched_world = (Inr True, t)"
    by (simp add: handle_message_def engine_json_swap opt_bind_def rbind_def attempt_def run ret_def)
  with run t show ?thesis by (intro exI [of _ t] conjI)
qed

lemma engine_uuid_law: "uuid_parse (lib_of engine_env) (uuid_show (lib_of engine_env) u) = Some u"
  using sample_uuid_law [of u] by (simp add: engine_env_def sample_env_parts sample_lib_parts)

theorem engine_sends_only_witness:
  "\<exists>t. process_swap_event engine_env 9 sample_event watched_world = (Inr (), t) \<and> sent t = [watching_tx] \<and>
     (\<exists>session p pt written router route a. serves engine_env sample_event watched_world session \<and> p \<in> set (si_pools session) \<and>
       eq_ic (if ev_token0_is_input sample_event then pi_token1 p else pi_token0 p) (si_sell_token session) \<and>
       dex_router_for_chain (cfg engine_env) (si_chain session) (pi_dex p) pt = Some written \<and>
       addr_parse (lib_of engine_env) written = Some router \<and> session_tx engine_env session router route a watching_tx)"
proof -
  obtain t where run: "process_swap_event engine_env 9 sample_event watched_world = (Inr (), t)" "sent t = [watching_tx]"
    using engine_handles by (elim exE conjE)
  have "ev_pool_address sample_event \<noteq> []" by (simp add: sample_event_def)
  from sends_one [OF engine_sends_only [OF engine_uuid_law this run(1)] watched_parts(3) run(2)] run show ?thesis by blast
qed

theorem acknowledged_books_witness:
  "\<exists>t. handle_message engine_env 9 ''swap'' watched_world = (Inr True, t) \<and> books_balanced t \<and>
     map t_sell_amount (trades t) = [100]"
proof -
  obtain t where run: "handle_message engine_env 9 ''swap'' watched_world = (Inr True, t)" "map t_sell_amount (trades t) = [100]"
    using engine_handles by (elim exE conjE)
  have "decimal_law (lib_of engine_env)"
    using sample_decimal_law by (simp add: decimal_law_def engine_env_def)
  moreover have "books_balanced watched_world"
    using session_world_books
    by (simp add: books_balanced_def watched_world_def session_world_def wallet_world_def user_world_def empty_world_def)
  ultimately have "books_balanced t" using run(1) by (rule acknowledged_books)
  with run show ?thesis by (intro exI conjI)
qed

text \<open>A session with a pool whose route has no tokens.\<close>

definition tokenless_env :: env where
  "tokenless_env = sample_env\<lparr>lib_of := sample_lib\<lparr>json_parse := (\<lambda>s. Some (tokenless_route ''0x00000000000000000000000000000000000000aa''))\<rparr>\<rparr>"

lemma tokenless_created: "\<exists>info t. create_session tokenless_env sample_create wallet_world = (Inr info, t)"
proof -
  let ?m = "create_session tokenless_env sample_create wallet_world"
  let ?p = "''0x00000000000000000000000000000000000000aa''"
  have ids: "uuid_parse sample_lib (show_hex 32 3) = Some 3" "uuid_parse sample_lib (show_hex 32 0) = Some 0" by code_simp+
  have nums: "total_column (lib_of tokenless_env) ''1000'' = Inr 1000"
    "limit_columns (Fin 10) (Fin 5) (Fin 0) (Fin 0) = Inr \<lparr>l_pov = 10, l_impact = 5, l_trigger = 0, l_mcap = 0\<rparr>"
    by code_simp+
  have "trim ''route'' \<noteq> []" by code_simp
  from tokenless_accepted(1) [OF this, of "lib_of tokenless_env" ?p]
  have path: "parse_pool_swap_path_json (lib_of tokenless_env) ''route'' ?p = Inr (tokenless_route ?p)"
    by (simp add: tokenless_env_def)
  have parts: "db_reply tokenless_env n = Served" "fresh_uuid tokenless_env n = fresh_uuid sample_env n"
    "uuid_parse (lib_of tokenless_env) = uuid_parse sample_lib" for n
    by (simp_all add: tokenless_env_def sample_env_def)
  have "\<not> isl (fst ?m)"
    by (simp add: create_session_def sample_create_def parts parse_id_def rbind_def of_result_def ok_or_def
        ids fresh_def ask_def parse_pool_paths_def path sbind_def session_path_def status_err_def map_err_def
        sql_def Let_def store_session_def nums insert_session_def new_session_def chain_ids_def wallet_world_def
        user_world_def empty_world_def sample_user_def sample_wallet_def ret_def insert_session_pool_def
        pool_type_column_def)
  then show ?thesis by (cases ?m; cases "fst ?m") auto
qed

theorem route_checks_compare_witness:
  "\<exists>info t i row. create_session tokenless_env sample_create wallet_world = (Inr info, t) \<and> row \<in> set (pools_of i t) \<and>
     sp_address row = ''0x00000000000000000000000000000000000000aa'' \<and>
     (\<exists>u. process_session tokenless_env 9 sample_event 1000 (watching\<lparr>si_pools := map (pool_row_info (lib_of tokenless_env)) (pools_of i t)\<rparr>) t =
        (Inr (), u) \<and> same_tables t u \<and> sent u = sent t)"
proof -
  obtain info t where run: "create_session tokenless_env sample_create wallet_world = (Inr info, t)"
    using tokenless_created by blast
  let ?pool = "''0x00000000000000000000000000000000000000aa''"
  have owned: "\<forall>p \<in> set (session_pools wallet_world). \<exists>r \<in> set (sessions wallet_world). s_id r = sp_session p"
    by (simp add: wallet_world_def user_world_def empty_world_def)
  have differ: "distinct (map (\<lambda>q. lower (pi_address q)) (cs_pools sample_create))"
    and p: "hd (cs_pools sample_create) \<in> set (cs_pools sample_create)" "pi_address (hd (cs_pools sample_create)) = ?pool"
    by (simp_all add: sample_create_def)
  have json: "json_parse (lib_of tokenless_env) x = Some (tokenless_route ?pool)" for x by (simp add: tokenless_env_def)
  have bad: "route_of_json (tokenless_route ?pool) = None"
    by (simp add: tokenless_route_def route_of_json_def j_strings_def opt_bind_def)
  have ev: "eq_ic (pi_address (hd (cs_pools sample_create))) (ev_pool_address sample_event)"
    by (simp add: p sample_event_def eq_ic_def)
  from route_checks_compare [OF owned run differ p(1) json bad json, THEN conjunct2, THEN conjunct2] obtain i row where
    "row \<in> set (pools_of i t)" "sp_address row = ?pool"
    and skip: "\<forall>orc event buy session u. si_pools session = map (pool_row_info (lib_of tokenless_env)) (pools_of i t) \<and>
        eq_ic (pi_address (hd (cs_pools sample_create))) (ev_pool_address event) \<longrightarrow>
      (\<exists>u'. process_session tokenless_env orc event buy session u = (Inr (), u') \<and> same_tables u u' \<and> sent u' = sent u)"
    unfolding p(2) by blast
  moreover have "\<exists>u. process_session tokenless_env 9 sample_event 1000
      (watching\<lparr>si_pools := map (pool_row_info (lib_of tokenless_env)) (pools_of i t)\<rparr>) t = (Inr (), u) \<and> same_tables t u \<and> sent u = sent t"
    using ev by (intro skip [rule_format]) simp
  ultimately show ?thesis using run by blast
qed


definition redelivered_world :: world where
  "redelivered_world = watched_world\<lparr>trades := [sample_trade\<lparr>t_trigger_pool := ev_pool_address sample_event\<rparr>]\<rparr>"

theorem redelivery_sells_again_witness:
  "\<exists>r t x. process_session engine_env 9 sample_event 1000 watching redelivered_world = (r, t) \<and>
     trades t = trades redelivered_world \<and> x \<in> set (sent t) \<and> swaps engine_env watching 0xbb (pl_route watching_plan) 100 x"
proof -
  obtain r t where run: "process_session engine_env 9 sample_event 1000 watching redelivered_world = (r, t)"
    by (cases "process_session engine_env 9 sample_event 1000 watching redelivered_world")
  have id: "uuid_parse (lib_of engine_env) (si_id watching) = Some 9"
    using sample_ids(1) by (simp add: watching_def sample_session_def engine_env_def sample_lib_parts)
  have known: "has_trigger (9, ev_tx_hash sample_event, ev_pool_address sample_event, ev_log_index sample_event) redelivered_world"
    by (simp add: has_trigger_def redelivered_world_def sample_trade_def trigger_of_def new_trade_row_def sample_event_def)
  have w: "wallets (redelivered_world\<lparr>calls := n\<rparr>) = [sample_wallet]" for n
    by (simp add: redelivered_world_def watched_parts)
  have a: "pl_amount watching_plan = 100" by (simp add: watching_plan_def)
  obtain x ys where x: "sent t = sent redelivered_world @ ys @ [x]" "swaps engine_env watching 0xbb (pl_route watching_plan) 100 x"
    and tables: "same_tables redelivered_world t"
    using redelivery_sells_again [OF id known watching_planned watching_submitted [OF w] run] unfolding a engine_texts(2) by blast
  have "x \<in> set (sent t)" "trades t = trades redelivered_world"
    using x(1) tables by (simp_all add: same_tables_def)
  then show ?thesis using run x(2) by blast
qed

end
