(* ===== verification/Email.thy ===== *)
theory Email
  imports Sample
begin

text \<open>
  E-mails (\<open>crates/api-gateway/src/email.rs\<close>): when a sender exists, the amounts they show, and the
  subject and plain-text part of every message.  The HTML part repeats the text and is not modelled.
  Handing a message to the mailer appends it to \<open>mails\<close>; what the transport answers is only logged.
  \<open>web\<close> collects the libraries of the gateway: password hashing, signed tokens, one-time codes, the
  syntax of mailboxes and of header values, the \<open>FromStr\<close> of 256-bit integers, raw \<open>eth_call\<close> answers, and
  the two functions of the mathematical library whose precision Rust leaves open.
\<close>

record web =
  pw_hash :: "string \<Rightarrow> nat \<Rightarrow> string option"
  pw_check :: "string \<Rightarrow> string \<Rightarrow> bool option"
  jwt_seal :: "json \<Rightarrow> string \<Rightarrow> string option"
  jwt_open :: "string \<Rightarrow> string \<Rightarrow> u64 \<Rightarrow> json option"
  totp_ok :: "byte list \<Rightarrow> string option \<Rightarrow> string \<Rightarrow> bool"
  totp_check :: "byte list \<Rightarrow> string \<Rightarrow> nat \<Rightarrow> bool option"
  totp_url :: "byte list \<Rightarrow> string \<Rightarrow> string"
  totp_qr :: "byte list \<Rightarrow> string \<Rightarrow> string option"
  secret_text :: "byte list \<Rightarrow> string"
  mailbox_ok :: "string \<Rightarrow> bool"
  u256_from_str :: "string \<Rightarrow> u256 option"
  eth_call_reply :: "string \<Rightarrow> string \<Rightarrow> string \<Rightarrow> nat \<Rightarrow> err + json"
  log10_of :: "f64 \<Rightarrow> f64"
  power_of_10 :: "f64 \<Rightarrow> f64"
  header_value_ok :: "string \<Rightarrow> bool"

section \<open>Amounts\<close>

definition trim_zeros :: "string \<Rightarrow> string" where
  "trim_zeros s = dropWhile (\<lambda>c. c = CHR ''0'') s"

definition trim_end_zeros :: "string \<Rightarrow> string" where
  "trim_end_zeros s = rev (dropWhile (\<lambda>c. c = CHR ''0'') (rev s))"

definition ether_digits :: "string \<Rightarrow> string" where
  "ether_digits digits =
     (if length digits \<le> 18
      then
        let fractional = trim_end_zeros (replicate (18 - length digits) CHR ''0'' @ digits)
        in if fractional = [] then ''0'' else ''0.'' @ fractional
      else
        let split = length digits - 18; integer = take split digits;
            fractional = trim_end_zeros (drop split digits)
        in if fractional = [] then integer else integer @ ''.'' @ fractional)"

type_synonym wei_text = string

definition format_wei_as_ether :: "wei_text \<Rightarrow> string" where
  "format_wei_as_ether amount_wei =
     (let trimmed = trim amount_wei in
      if trimmed = [] then ''0''
      else
        let (is_negative, digits) =
              (case strip_prefix ''-'' trimmed of Some stripped \<Rightarrow> (True, stripped) | None \<Rightarrow> (False, trimmed))
        in if \<not> list_all is_digit digits then amount_wei
           else
             let digits = trim_zeros digits in
             if digits = [] then ''0''
             else if is_negative then ''-'' @ ether_digits digits else ether_digits digits)"

section \<open>Messages\<close>

definition nl :: string where
  "nl = [CHR 0x0A]"

definition em_dash :: string where
  "em_dash = [CHR 0xE2, CHR 0x80, CHR 0x94]"

definition text_lines :: "string list \<Rightarrow> string" where
  "text_lines ls = join nl ls"

definition signature_line :: string where
  "signature_line = em_dash @ '' Liquifier Platform''"

definition has_sender :: "env \<Rightarrow> bool" where
  "has_sender E \<longleftrightarrow> smtp_host (smtp (cfg E)) \<noteq> []"

definition base_url :: "env \<Rightarrow> string" where
  "base_url E = smtp_base_url (smtp (cfg E))"

definition hand_mail :: "web \<Rightarrow> string \<Rightarrow> string \<Rightarrow> string \<Rightarrow> (world, 'e, unit) rt" where
  "hand_mail W to subject body =
     (if mailbox_ok W to
      then modify (\<lambda>s. s\<lparr>mails := mails s @ [\<lparr>mail_to = to, mail_subject = subject, mail_text = body\<rparr>]\<rparr>)
      else ret ())"

definition verification_text :: "env \<Rightarrow> string \<Rightarrow> string" where
  "verification_text E token = text_lines
     [''Welcome to Liquifier!'', '''', ''Please verify your email by clicking the link below:'', '''',
      base_url E @ ''/verify-email?token='' @ token, '''',
      ''This link expires in 24 hours.'', '''',
      ''If you didn'' @ [CHR 0x27] @ ''t create an account, you can safely ignore this email.'']"

definition send_verification_email :: "env \<Rightarrow> web \<Rightarrow> string \<Rightarrow> string \<Rightarrow> (world, 'e, unit) rt" where
  "send_verification_email E W to_email token =
     hand_mail W to_email ''Verify your Liquifier account'' (verification_text E token)"

definition send_deposit_alert ::
  "web \<Rightarrow> string \<Rightarrow> string \<Rightarrow> string \<Rightarrow> string \<Rightarrow> wei_text \<Rightarrow> string \<Rightarrow> string \<Rightarrow> string \<Rightarrow> (world, 'e, unit) rt" where
  "send_deposit_alert W admin_email username user_email wallet_address amount_wei token tx_hash chain =
     hand_mail W admin_email (''Deposit Alert: '' @ token @ '' received by '' @ username) (text_lines
       [''New Deposit Alert'', '''', ''A common user has received a deposit:'', '''',
        ''User: '' @ username @ '' ('' @ user_email @ [CHR 0x29], ''Wallet: '' @ wallet_address,
        ''Amount: '' @ format_wei_as_ether amount_wei, ''Token: '' @ token, ''Chain: '' @ chain,
        ''Tx Hash: '' @ tx_hash, '''', signature_line])"

definition status_label :: "string \<Rightarrow> string" where
  "status_label status =
     (if status = ''completed'' then ''Completed'' else if status = ''failed'' then ''Failed'' else status)"

definition send_trade_alert ::
  "web \<Rightarrow> string \<Rightarrow> string \<Rightarrow> string \<Rightarrow> string \<Rightarrow> string \<Rightarrow> wei_text \<Rightarrow> wei_text \<Rightarrow> string \<Rightarrow> string
     \<Rightarrow> f64 option \<Rightarrow> string option \<Rightarrow> (world, 'e, unit) rt" where
  "send_trade_alert W user_email username trade_id session_id chain sell_amount received_amount tx_hash status
     price_impact_bps failure_reason =
     hand_mail W user_email (''Trade '' @ status_label status @ '' '' @ em_dash @ '' '' @ chain) (text_lines
       ([''Trade Executed'', '''', ''Hi '' @ username @ '','', '''', ''A trade has been executed on your session:'', '''',
         ''Trade ID: '' @ trade_id, ''Session ID: '' @ session_id, ''Chain: '' @ chain,
         ''Sell Amount: '' @ format_wei_as_ether sell_amount,
         ''Received Amount: '' @ format_wei_as_ether received_amount,
         ''Price Impact: '' @ (case price_impact_bps of None \<Rightarrow> ''N/A'' | Some b \<Rightarrow> f_show_fixed 2 b @ '' bps''),
         ''Status: '' @ status_label status] @
        (case failure_reason of None \<Rightarrow> [] | Some r \<Rightarrow> [''Failure Reason: '' @ r]) @
        [''Tx Hash: '' @ tx_hash, '''', signature_line]))"

definition send_user_deposit_alert ::
  "web \<Rightarrow> string \<Rightarrow> string \<Rightarrow> string \<Rightarrow> wei_text \<Rightarrow> string \<Rightarrow> string \<Rightarrow> string \<Rightarrow> (world, 'e, unit) rt" where
  "send_user_deposit_alert W user_email username wallet_address amount_wei token tx_hash chain =
     hand_mail W user_email (''Deposit Received '' @ em_dash @ '' '' @ token @ '' on '' @ chain) (text_lines
       [''Deposit Received'', '''', ''Hi '' @ username @ '','', '''', ''A deposit has been received into your wallet:'', '''',
        ''Wallet: '' @ wallet_address, ''Amount: '' @ format_wei_as_ether amount_wei, ''Token: '' @ token,
        ''Chain: '' @ chain, ''Tx Hash: '' @ tx_hash, '''', signature_line])"

text \<open>No code of the repository calls the next one.\<close>

definition send_shortfall_alert ::
  "web \<Rightarrow> string \<Rightarrow> string \<Rightarrow> string \<Rightarrow> f64 \<Rightarrow> f64 \<Rightarrow> f64 \<Rightarrow> (world, 'e, unit) rt" where
  "send_shortfall_alert W user_email username session_id received_usd required_usd shortfall_usd =
     hand_mail W user_email
       (''Action Required: Additional $'' @ f_show_fixed 2 shortfall_usd @ '' Deposit Needed'') (text_lines
       [''Additional Deposit Required'', '''', ''Hi '' @ username @ '','', '''',
        ''Your selling session (ID: '' @ session_id @ '') has completed, but the realised USDT value ($'' @
          f_show_fixed 2 received_usd @ '') fell short of the minimum deposit amount ($'' @
          f_show_fixed 2 required_usd @ '').'', '''',
        ''Please deposit an additional $'' @ f_show_fixed 2 shortfall_usd @
          '' worth of tokens to bring your total up to the required minimum.'', '''', signature_line])"

definition send_refund_verification_email ::
  "env \<Rightarrow> web \<Rightarrow> string \<Rightarrow> string \<Rightarrow> f64 \<Rightarrow> string \<Rightarrow> (world, 'e, unit) rt" where
  "send_refund_verification_email E W to_email token amount_usd destination_wallet =
     hand_mail W to_email ''Verify your Liquifier refund request'' (text_lines
       [''Refund Request Verification'', '''',
        ''You have requested a refund of $'' @ f_show_fixed 2 amount_usd @ '' USD to the following wallet:'', '''',
        destination_wallet, '''', ''Please confirm this request by clicking the link below:'', '''',
        base_url E @ ''/verify-refund?token='' @ token, '''', ''This link expires in 1 hour.'', '''',
        ''If you did not request this refund, you can safely ignore this email.''])"

section \<open>Relations that ignore e-mails\<close>

locale mail_rel = world_rel R for R :: "world \<Rightarrow> world \<Rightarrow> bool" +
  assumes rel_mail: "R s (s\<lparr>mails := mails s @ ms\<rparr>)"
begin

lemma keeps_hand_mail: "keeps R (hand_mail W to subject body)"
  unfolding hand_mail_def by (intro keeps_if keeps_modify keeps_ret rel_mail)

lemma keeps_mails:
  "keeps R (send_verification_email E W to token)"
  "keeps R (send_deposit_alert W to u e w a tok h c)"
  "keeps R (send_trade_alert W to u ti si c a b h st i f)"
  "keeps R (send_user_deposit_alert W to u w a tok h c)"
  "keeps R (send_shortfall_alert W to u si x y z)"
  "keeps R (send_refund_verification_email E W to token amount dest)"
  unfolding send_verification_email_def send_deposit_alert_def send_trade_alert_def send_user_deposit_alert_def
    send_shortfall_alert_def send_refund_verification_email_def
  by (rule keeps_hand_mail)+

end

section \<open>The amount shown is the amount\<close>

text \<open>The value of a text of digits with at most one point.\<close>

definition point_value :: "string \<Rightarrow> rat" where
  "point_value s =
     (case split_on CHR ''.'' s of
        [i] \<Rightarrow> of_nat (digits_val i)
      | [i, f] \<Rightarrow> of_nat (digits_val i) + of_nat (digits_val f) / 10 ^ length f
      | _ \<Rightarrow> 0)"

lemma digits_val_append: "digits_val (a @ b) = digits_val a * 10 ^ length b + digits_val b"
proof (induction b rule: rev_induct)
  case (snoc c b)
  have "digits_val (a @ b @ [c]) = 10 * digits_val (a @ b) + digit_val c"
    by (simp add: digits_val_def flip: append_assoc)
  moreover have "digits_val (b @ [c]) = 10 * digits_val b + digit_val c" by (simp add: digits_val_def)
  ultimately show ?case using snoc by simp
qed (simp add: digits_val_def)

lemma digits_val_zeros: "digits_val (replicate k CHR ''0'') = 0"
  by (induction k rule: nat_induct) (auto simp: digits_val_def digit_val_def code_def replicate_append_same [symmetric])

lemma takeWhile_zeros: "takeWhile (\<lambda>c. c = z) s = replicate (length (takeWhile (\<lambda>c. c = z) s)) z"
  by (induction s) auto

lemma trim_zeros_val: "digits_val (trim_zeros s) = digits_val s"
proof -
  have "digits_val (takeWhile (\<lambda>c. c = CHR ''0'') s) = 0"
    by (subst takeWhile_zeros) (rule digits_val_zeros)
  then have "digits_val (takeWhile (\<lambda>c. c = CHR ''0'') s @ trim_zeros s) = digits_val (trim_zeros s)"
    by (simp add: digits_val_append)
  then show ?thesis by (simp add: trim_zeros_def)
qed

lemma trim_end_zeros_split: "\<exists>k. s = trim_end_zeros s @ replicate k CHR ''0''"
proof -
  let ?w = "takeWhile (\<lambda>c. c = CHR ''0'') (rev s)"
  have "rev (rev s) = rev (?w @ dropWhile (\<lambda>c. c = CHR ''0'') (rev s))" by (simp only: takeWhile_dropWhile_id)
  then have "s = trim_end_zeros s @ rev ?w" by (simp only: trim_end_zeros_def rev_append rev_rev_ident)
  moreover have "rev ?w = replicate (length ?w) CHR ''0''"
    using takeWhile_zeros [of "CHR ''0''" "rev s"] by (metis rev_replicate)
  ultimately show ?thesis by metis
qed

lemma fraction_trimmed:
  "(of_nat (digits_val (trim_end_zeros s)) :: rat) / 10 ^ length (trim_end_zeros s) = of_nat (digits_val s) / 10 ^ length s"
proof -
  obtain k where k: "s = trim_end_zeros s @ replicate k CHR ''0''" using trim_end_zeros_split by blast
  have "digits_val s = digits_val (trim_end_zeros s) * 10 ^ k"
    by (subst k) (simp add: digits_val_append digits_val_zeros)
  moreover have "length s = length (trim_end_zeros s) + k" by (subst k) simp
  ultimately show ?thesis by (simp add: power_add)
qed

lemma point_value_parts:
  assumes "list_all is_digit i" "list_all is_digit f"
  shows "point_value i = of_nat (digits_val i)"
    "point_value (i @ ''.'' @ f) = of_nat (digits_val i) + of_nat (digits_val f) / 10 ^ length f"
proof -
  have "CHR ''.'' \<notin> set i" "CHR ''.'' \<notin> set f"
    using assms by (auto simp: list_all_iff is_digit_def code_def)
  then show "point_value i = of_nat (digits_val i)"
    "point_value (i @ ''.'' @ f) = of_nat (digits_val i) + of_nat (digits_val f) / 10 ^ length f"
    by (simp_all add: point_value_def split_on_no split_on_append)
qed

lemma trim_end_zeros_digits: "list_all is_digit s \<Longrightarrow> list_all is_digit (trim_end_zeros s)"
  using trim_end_zeros_split [of s] by (metis list_all_append)

lemma ether_digits_value:
  assumes "list_all is_digit d"
  shows "point_value (ether_digits d) = of_nat (digits_val d) / 10 ^ 18"
proof (cases "length d \<le> 18")
  case True
  let ?s = "replicate (18 - length d) CHR ''0'' @ d"
  have digits: "list_all is_digit (trim_end_zeros ?s)"
    using assms by (intro trim_end_zeros_digits) (auto simp: list_all_iff is_digit_def code_def)
  have val: "(of_nat (digits_val (trim_end_zeros ?s)) :: rat) / 10 ^ length (trim_end_zeros ?s) = of_nat (digits_val d) / 10 ^ 18"
    using fraction_trimmed [of ?s] True by (simp add: digits_val_append digits_val_zeros)
  show ?thesis
  proof (cases "trim_end_zeros ?s = []")
    case True
    then show ?thesis using val point_value_parts(1) [of "''0''" "[]"] \<open>length d \<le> 18\<close>
      by (simp add: ether_digits_def digits_val_def digit_val_def code_def is_digit_def)
  next
    case False
    then show ?thesis
      using val point_value_parts(2) [OF _ digits, of "''0''"] \<open>length d \<le> 18\<close>
      by (simp add: ether_digits_def Let_def digits_val_def digit_val_def code_def is_digit_def)
  qed
next
  case False
  let ?n = "length d - 18"
  have d: "list_all is_digit (take ?n d)" "list_all is_digit (drop ?n d)"
    using assms by (auto simp: list_all_iff dest: in_set_takeD in_set_dropD)
  have len: "length (drop ?n d) = 18" using False by simp
  have "digits_val d = digits_val (take ?n d) * 10 ^ 18 + digits_val (drop ?n d)"
    using digits_val_append [of "take ?n d" "drop ?n d"] len by simp
  then have "(of_nat (digits_val d) :: rat) / 10 ^ 18 =
      of_nat (digits_val (take ?n d)) + of_nat (digits_val (drop ?n d)) / 10 ^ 18"
    by (simp add: add_divide_distrib)
  moreover have "(of_nat (digits_val (drop ?n d)) :: rat) / 10 ^ 18 =
      of_nat (digits_val (trim_end_zeros (drop ?n d))) / 10 ^ length (trim_end_zeros (drop ?n d))"
    using fraction_trimmed [of "drop ?n d"] len by simp
  ultimately show ?thesis
    using point_value_parts [OF d(1) trim_end_zeros_digits [OF d(2)]] False
    by (auto simp: ether_digits_def Let_def digits_val_def)
qed

lemma format_wei_value:
  "point_value (format_wei_as_ether (show_nat n)) = of_nat n / 10 ^ 18"
proof -
  have digits: "list_all is_digit (show_nat n)" "show_nat n \<noteq> []"
    using all_digits_show_nat [of n] by (simp_all add: all_digits_def)
  then have "\<not> is_ws c" if "c \<in> set (show_nat n)" for c
    using that by (auto simp: list_all_iff is_digit_def is_ws_def)
  then have "trim (show_nat n) = show_nat n" by (intro trim_no_ws) blast
  moreover have "strip_prefix ''-'' (show_nat n) = None"
    using digits by (cases "show_nat n") (auto simp: strip_prefix_def starts_with_def is_digit_def code_def)
  moreover have z: "list_all is_digit (trim_zeros (show_nat n))"
    using digits by (auto simp: trim_zeros_def list_all_iff dest: set_dropWhileD)
  moreover have "point_value ''0'' = 0"
    by (simp add: point_value_def digits_val_def digit_val_def code_def)
  moreover have "trim_zeros (show_nat n) = [] \<Longrightarrow> n = 0"
    using trim_zeros_val [of "show_nat n"] digits_val_show_nat [of n] by (simp add: digits_val_def [of "[]"])
  ultimately show ?thesis
    using digits ether_digits_value [OF z] trim_zeros_val [of "show_nat n"]
    by (cases "trim_zeros (show_nat n) = []") (auto simp: format_wei_as_ether_def Let_def)
qed

end
