(* ===== verification/Auth.thy ===== *)
theory Auth
  imports Email Events Kms
begin

text \<open>
  Accounts (\<open>crates/api-gateway/src/auth.rs\<close>, \<open>jwt_middleware.rs\<close>, and the handlers of
  \<open>routes.rs\<close> on users): signed tokens, the check in front of the protected routes, sign-up, login,
  refresh, second factor, e-mail verification and roles.  A handler answers a JSON value or an HTTP
  status; \<open>Panicked\<close> is the panic of \<open>row.get\<close> on a missing value.
\<close>

datatype http =
    Bad_Request | Unauthorized | Forbidden | Not_Found | Conflict | Unprocessable | Server_Error
  | Bad_Gateway | Service_Unavailable | Panicked

section \<open>Answers of other parties\<close>

definition or_http :: "http \<Rightarrow> (world, 'e, 'a) rt \<Rightarrow> (world, http, 'a) rt" where
  "or_http h m = map_err (\<lambda>_. h) m"

definition need :: "http \<Rightarrow> 'a option \<Rightarrow> (world, http, 'a) rt" where
  "need h x = of_result (ok_or h x)"

definition unix_now :: "env \<Rightarrow> (world, 'e, u64) rt" where
  "unix_now E = ask (\<lambda>n. Inr (unix_secs E n))"

text \<open>A connection to a service is opened for every request.\<close>

definition connect :: "env \<Rightarrow> (world, http, unit) rt" where
  "connect E = ask (\<lambda>n. case grpc_down E n of Some e \<Rightarrow> Inl Service_Unavailable | None \<Rightarrow> Inr ())"

definition with_kms :: "env \<Rightarrow> (byte list \<Rightarrow> (world, status, 'a) rt) \<Rightarrow> (world, status, 'a) rt" where
  "with_kms E call =
     grpc E (case parse_master_key E of Inl e \<Rightarrow> fail (Unavailable, e) | Inr master \<Rightarrow> call master)"

section \<open>Tokens\<close>

record claims =
  c_sub :: string
  c_exp :: u64
  c_iat :: u64
  c_type :: string
  c_role :: string

definition claims_json :: "claims \<Rightarrow> json" where
  "claims_json c = JObj [(''sub'', JStr (c_sub c)), (''exp'', JPos (c_exp c)), (''iat'', JPos (c_iat c)),
     (''token_type'', JStr (c_type c)), (''role'', JStr (c_role c))]"

text \<open>A token without a role counts as an administrator's.\<close>

definition claims_of_json :: "json \<Rightarrow> claims option" where
  "claims_of_json j =
     opt_bind (j_field ''sub'' j) (\<lambda>sub. opt_bind (j_num ''exp'' j) (\<lambda>ex. opt_bind (j_num ''iat'' j) (\<lambda>iat.
     opt_bind (j_field ''token_type'' j) (\<lambda>ty.
     opt_bind (case j_get ''role'' j of None \<Rightarrow> Some ''admin'' | Some v \<Rightarrow> j_str v) (\<lambda>role.
     Some \<lparr>c_sub = sub, c_exp = ex, c_iat = iat, c_type = ty, c_role = role\<rparr>)))))"

definition jwt_key :: "env \<Rightarrow> string" where
  "jwt_key E = auth_jwt_secret (auth (cfg E))"

definition create_token :: "env \<Rightarrow> web \<Rightarrow> string \<Rightarrow> u64 \<Rightarrow> uuid \<Rightarrow> string \<Rightarrow> (world, http, string) rt" where
  "create_token E W ty ttl user role =
     rbind (unix_now E) (\<lambda>t.
     need Server_Error (jwt_seal W (claims_json \<lparr>c_sub = uuid_show (lib_of E) user, c_exp = t + ttl, c_iat = t,
       c_type = ty, c_role = role\<rparr>) (jwt_key E)))"

definition create_access_token_with_role :: "env \<Rightarrow> web \<Rightarrow> uuid \<Rightarrow> string \<Rightarrow> (world, http, string) rt" where
  "create_access_token_with_role E W user role = create_token E W ''access'' 3600 user role"

definition create_refresh_token_with_role :: "env \<Rightarrow> web \<Rightarrow> uuid \<Rightarrow> string \<Rightarrow> (world, http, string) rt" where
  "create_refresh_token_with_role E W user role = create_token E W ''refresh'' 604800 user role"

definition create_access_token :: "env \<Rightarrow> web \<Rightarrow> uuid \<Rightarrow> (world, http, string) rt" where
  "create_access_token E W user = create_access_token_with_role E W user ''admin''"

definition validate_token :: "env \<Rightarrow> web \<Rightarrow> string \<Rightarrow> (world, http, claims) rt" where
  "validate_token E W token =
     rbind (unix_now E) (\<lambda>t. need Unauthorized (opt_bind (jwt_open W token (jwt_key E) t) claims_of_json))"

record auth_user =
  au_id :: uuid
  au_role :: string

definition require_auth :: "env \<Rightarrow> web \<Rightarrow> string option \<Rightarrow> (world, http, auth_user) rt" where
  "require_auth E W header =
     rbind (need Unauthorized header) (\<lambda>auth_header.
     rbind (need Unauthorized (strip_prefix ''Bearer '' auth_header)) (\<lambda>token.
     rbind (validate_token E W token) (\<lambda>c.
     if c_type c \<noteq> ''access'' then fail Unauthorized
     else
       rbind (need Unauthorized (uuid_parse (lib_of E) (c_sub c))) (\<lambda>i.
       ret \<lparr>au_id = i, au_role = c_role c\<rparr>))))"

definition is_admin :: "auth_user \<Rightarrow> bool" where
  "is_admin user \<longleftrightarrow> au_role user = ''admin''"

section \<open>The table of users\<close>

definition user_by_email :: "string \<Rightarrow> world \<Rightarrow> user_row option" where
  "user_by_email email s = find (\<lambda>u. u_email u = email) (users s)"

definition user_by_id :: "uuid \<Rightarrow> world \<Rightarrow> user_row option" where
  "user_by_id i s = find (\<lambda>u. u_id u = i) (users s)"

definition set_user :: "uuid \<Rightarrow> (user_row \<Rightarrow> user_row) \<Rightarrow> world \<Rightarrow> world" where
  "set_user i f s = s\<lparr>users := update_where (\<lambda>u. u_id u = i) f (users s)\<rparr>"

text \<open>Verification tokens are unique.\<close>

definition set_vtoken :: "uuid \<Rightarrow> string \<Rightarrow> int \<Rightarrow> world \<Rightarrow> (err + unit) \<times> world" where
  "set_vtoken i token expires s =
     (if list_ex (\<lambda>u. u_id u \<noteq> i \<and> u_vtoken u = Some token) (users s)
      then (Inl ''duplicate key value violates unique constraint'', s)
      else (Inr (), set_user i (\<lambda>u. u\<lparr>u_vtoken := Some token, u_vexpires := Some expires\<rparr>) s))"

definition user_conflict :: "user_row \<Rightarrow> user_row \<Rightarrow> bool" where
  "user_conflict r q \<longleftrightarrow>
     u_id q = u_id r \<or> u_email q = u_email r \<or> (u_vtoken r \<noteq> None \<and> u_vtoken q = u_vtoken r) \<or>
     (u_username r \<noteq> None \<and> u_username q = u_username r)"

definition insert_user :: "user_row \<Rightarrow> world \<Rightarrow> (err + unit) \<times> world" where
  "insert_user r s =
     (if list_ex (user_conflict r) (users s)
      then (Inl ''duplicate key value violates unique constraint'', s)
      else (Inr (), s\<lparr>users := users s @ [r]\<rparr>))"

definition expiry_of :: "u64 \<Rightarrow> int \<Rightarrow> int" where
  "expiry_of t ttl = uint t + ttl"

text \<open>A new verification token for a user, and its e-mail; three handlers do this.\<close>

definition renew_token :: "env \<Rightarrow> web \<Rightarrow> uuid \<Rightarrow> string \<Rightarrow> (world, http, unit) rt" where
  "renew_token E W i email =
     rbind (fresh E) (\<lambda>token_id.
     let token = uuid_show (lib_of E) token_id in
     rbind (unix_now E) (\<lambda>t.
     rbind (or_http Server_Error (sql E (set_vtoken i token (expiry_of t 86400)))) (\<lambda>_.
     if has_sender E then send_verification_email E W email token else ret ())))"

section \<open>Signing up\<close>

record signup_request =
  su_email :: string
  su_password :: string
  su_username :: "string option"
  su_role :: string

definition signup_valid :: "signup_request \<Rightarrow> bool" where
  "signup_valid body \<longleftrightarrow>
     CHR ''@'' \<in> set (su_email body) \<and> length (su_email body) \<le> 256 \<and>
     8 \<le> length (su_password body) \<and> length (su_password body) \<le> 128 \<and>
     (case su_username body of None \<Rightarrow> False | Some u \<Rightarrow> 3 \<le> length u \<and> length u \<le> 50)"

definition verification_required :: "env \<Rightarrow> uuid \<Rightarrow> string \<Rightarrow> string \<Rightarrow> json" where
  "verification_required E i role message =
     JObj [(''status'', JStr ''email_verification_required''), (''user_id'', JStr (uuid_show (lib_of E) i)),
       (''role'', JStr role), (''message'', JStr message)]"

definition totp_setup_required :: "env \<Rightarrow> uuid \<Rightarrow> string \<Rightarrow> string \<Rightarrow> json" where
  "totp_setup_required E i token message =
     JObj [(''status'', JStr ''totp_setup_required''), (''user_id'', JStr (uuid_show (lib_of E) i)),
       (''role'', JStr ''admin''), (''access_token'', JStr token), (''message'', JStr message)]"

definition signup_existing :: "env \<Rightarrow> web \<Rightarrow> signup_request \<Rightarrow> user_row \<Rightarrow> (world, http, json) rt" where
  "signup_existing E W body row =
     (if \<not> u_email_verified row then
        rbind (renew_token E W (u_id row) (su_email body)) (\<lambda>_.
        ret (verification_required E (u_id row) (show_role (u_role row))
               ''Please check your email to verify your account.''))
      else if u_role row = Admin \<and> u_email_verified row \<and> \<not> u_totp_enabled row then
        rbind (create_access_token E W (u_id row)) (\<lambda>token.
        ret (totp_setup_required E (u_id row) token ''Email verified. Please set up 2FA to continue.''))
      else fail Conflict)"

definition signup_new :: "env \<Rightarrow> web \<Rightarrow> signup_request \<Rightarrow> string \<Rightarrow> (world, http, json) rt" where
  "signup_new E W body password_hash =
     rbind (fresh E) (\<lambda>i.
     rbind (fresh E) (\<lambda>token_id.
     let token = uuid_show (lib_of E) token_id in
     rbind (unix_now E) (\<lambda>t.
     rbind (map_err (\<lambda>e. if str_contains ''duplicate key'' e then Conflict else Server_Error)
       (sql E (\<lambda>s. insert_user \<lparr>u_id = i, u_email = su_email body, u_password_hash = password_hash,
          u_totp_secret = None, u_totp_enabled = False, u_created = db_now E (calls s), u_email_verified = False,
          u_vtoken = Some token, u_vexpires = Some (expiry_of t 86400), u_role = Common,
          u_username = su_username body\<rparr> s))) (\<lambda>_.
     rbind (if has_sender E then send_verification_email E W (su_email body) token else ret ()) (\<lambda>_.
     ret (verification_required E i ''common''
            ''Account created. Please check your email to verify your account.''))))))"

definition signup :: "env \<Rightarrow> web \<Rightarrow> signup_request \<Rightarrow> (world, http, json) rt" where
  "signup E W body =
     (if \<not> signup_valid body then fail Bad_Request
      else
        rbind (ask (\<lambda>n. ok_or Server_Error (pw_hash W (su_password body) n))) (\<lambda>password_hash.
        rbind (or_http Server_Error (query E (user_by_email (su_email body)))) (\<lambda>existing.
        case existing of
          Some row \<Rightarrow> signup_existing E W body row
        | None \<Rightarrow> signup_new E W body password_hash)))"

section \<open>Logging in\<close>

record login_request =
  lo_email :: string
  lo_password :: string
  lo_totp :: "string option"

definition authenticated :: "env \<Rightarrow> uuid \<Rightarrow> string \<Rightarrow> string \<Rightarrow> string \<Rightarrow> json" where
  "authenticated E i access refresh role =
     JObj [(''status'', JStr ''authenticated''), (''access_token'', JStr access), (''refresh_token'', JStr refresh),
       (''user_id'', JStr (uuid_show (lib_of E) i)), (''role'', JStr role)]"

definition both_tokens :: "env \<Rightarrow> web \<Rightarrow> uuid \<Rightarrow> string \<Rightarrow> (world, http, string \<times> string) rt" where
  "both_tokens E W i role =
     rbind (create_access_token_with_role E W i role) (\<lambda>access.
     rbind (create_refresh_token_with_role E W i role) (\<lambda>refresh.
     ret (access, refresh)))"

text \<open>The check of a code against the stored secret.\<close>

definition check_code :: "env \<Rightarrow> web \<Rightarrow> byte list \<Rightarrow> string \<Rightarrow> (world, http, unit) rt" where
  "check_code E W secret totp_code =
     (if \<not> totp_ok W secret None [] then fail Server_Error
      else
        rbind (ask (\<lambda>n. ok_or Server_Error (totp_check W secret totp_code n))) (\<lambda>valid.
        if valid then ret () else fail Unauthorized))"

definition login_admin :: "env \<Rightarrow> web \<Rightarrow> login_request \<Rightarrow> user_row \<Rightarrow> (world, http, json) rt" where
  "login_admin E W body row =
     (if \<not> u_totp_enabled row then
        rbind (create_access_token E W (u_id row)) (\<lambda>token.
        ret (totp_setup_required E (u_id row) token ''Please set up 2FA to continue.''))
      else if opt_or [] (lo_totp body) = [] then
        ret (JObj [(''status'', JStr ''totp_required''), (''user_id'', JStr (uuid_show (lib_of E) (u_id row))),
          (''role'', JStr ''admin''), (''message'', JStr ''Please enter your 2FA code.'')])
      else
        rbind (need Panicked (u_totp_secret row)) (\<lambda>secret.
        rbind (check_code E W secret (opt_or [] (lo_totp body))) (\<lambda>_.
        rbind (both_tokens E W (u_id row) ''admin'') (\<lambda>(access, refresh).
        ret (authenticated E (u_id row) access refresh ''admin'')))))"

definition login :: "env \<Rightarrow> web \<Rightarrow> login_request \<Rightarrow> (world, http, json) rt" where
  "login E W body =
     rbind (or_http Server_Error (query E (user_by_email (lo_email body)))) (\<lambda>found_row.
     rbind (need Unauthorized found_row) (\<lambda>row.
     rbind (need Server_Error (pw_check W (lo_password body) (u_password_hash row))) (\<lambda>valid.
     if \<not> valid then fail Unauthorized
     else if \<not> u_email_verified row then
       rbind (renew_token E W (u_id row) (lo_email body)) (\<lambda>_.
       ret (verification_required E (u_id row) (show_role (u_role row))
              ''Please verify your email before signing in. A new verification link has been sent.''))
     else if u_role row = Common then
       rbind (both_tokens E W (u_id row) ''common'') (\<lambda>(access, refresh).
       ret (authenticated E (u_id row) access refresh ''common''))
     else login_admin E W body row)))"

definition refresh_token :: "env \<Rightarrow> web \<Rightarrow> string \<Rightarrow> (world, http, json) rt" where
  "refresh_token E W token =
     rbind (validate_token E W token) (\<lambda>c.
     if c_type c \<noteq> ''refresh'' then fail Unauthorized
     else
       rbind (need Unauthorized (uuid_parse (lib_of E) (c_sub c))) (\<lambda>i.
       rbind (or_http Server_Error (query E (\<lambda>s. map_option (\<lambda>u. show_role (u_role u)) (user_by_id i s)))) (\<lambda>found_role.
       rbind (need Unauthorized found_role) (\<lambda>role.
       if role \<noteq> ''admin'' \<and> role \<noteq> ''common'' then fail Unauthorized
       else
         rbind (both_tokens E W i role) (\<lambda>(access, refresh).
         ret (JObj [(''access_token'', JStr access), (''refresh_token'', JStr refresh),
           (''user_id'', JStr (uuid_show (lib_of E) i))]))))))"

section \<open>Second factor\<close>

definition setup_2fa :: "env \<Rightarrow> web \<Rightarrow> auth_user \<Rightarrow> (world, http, json) rt" where
  "setup_2fa E W user =
     rbind (ask (\<lambda>n. Inr (random_bytes E n))) (\<lambda>secret.
     rbind (or_http Server_Error (query E (\<lambda>s. map_option u_email (user_by_id (au_id user) s)))) (\<lambda>row.
     rbind (need Server_Error row) (\<lambda>email.
     if \<not> totp_ok W secret (Some ''Liquifier'') email then fail Server_Error
     else
       rbind (need Server_Error (totp_qr W secret email)) (\<lambda>qr.
       rbind (or_http Server_Error (exec E (set_user (au_id user) (\<lambda>u. u\<lparr>u_totp_secret := Some secret\<rparr>)))) (\<lambda>_.
       ret (JObj [(''secret'', JStr (secret_text W secret)), (''otpauth_url'', JStr (totp_url W secret email)),
         (''qr_code_base64'', JStr qr)]))))))"

definition verify_2fa :: "env \<Rightarrow> web \<Rightarrow> auth_user \<Rightarrow> string \<Rightarrow> (world, http, json) rt" where
  "verify_2fa E W user totp_code =
     rbind (or_http Server_Error (query E (\<lambda>s. map_option u_totp_secret (user_by_id (au_id user) s)))) (\<lambda>row.
     rbind (need Server_Error row) (\<lambda>totp_secret.
     rbind (need Bad_Request totp_secret) (\<lambda>secret.
     rbind (check_code E W secret totp_code) (\<lambda>_.
     rbind (or_http Server_Error (exec E (set_user (au_id user) (\<lambda>u. u\<lparr>u_totp_enabled := True\<rparr>)))) (\<lambda>_.
     ret (JObj [(''status'', JStr ''2fa_enabled'')]))))))"

text \<open>The check in front of the export of a key and of a withdrawal.\<close>

definition confirm_2fa :: "env \<Rightarrow> web \<Rightarrow> auth_user \<Rightarrow> string option \<Rightarrow> (world, http, unit) rt" where
  "confirm_2fa E W user totp_code =
     rbind (or_http Server_Error (query E (user_by_id (au_id user)))) (\<lambda>found_row.
     rbind (need Server_Error found_row) (\<lambda>row.
     if \<not> u_totp_enabled row then fail Forbidden
     else
       rbind (need Bad_Request totp_code) (\<lambda>given.
       rbind (need Panicked (u_totp_secret row)) (\<lambda>secret.
       check_code E W secret given))))"

section \<open>E-mail verification\<close>

definition resend_verification :: "env \<Rightarrow> web \<Rightarrow> auth_user \<Rightarrow> (world, http, unit) rt" where
  "resend_verification E W user =
     rbind (fresh E) (\<lambda>token_id.
     let token = uuid_show (lib_of E) token_id in
     rbind (unix_now E) (\<lambda>t.
     rbind (or_http Server_Error (sql E (set_vtoken (au_id user) token (expiry_of t 86400)))) (\<lambda>_.
     if has_sender E then
       rbind (or_http Server_Error (query E (\<lambda>s. map_option u_email (user_by_id (au_id user) s)))) (\<lambda>row.
       rbind (need Server_Error row) (\<lambda>email.
       send_verification_email E W email token))
     else ret ())))"

definition awaits :: "string \<Rightarrow> int \<Rightarrow> user_row \<Rightarrow> bool" where
  "awaits token tm u \<longleftrightarrow>
     u_vtoken u = Some token \<and> (case u_vexpires u of None \<Rightarrow> False | Some ex \<Rightarrow> tm < ex) \<and> \<not> u_email_verified u"

definition verified_user :: "user_row \<Rightarrow> user_row" where
  "verified_user u = u\<lparr>u_email_verified := True, u_vtoken := None, u_vexpires := None\<rparr>"

text \<open>The update answers the number of rows it changed.\<close>

definition mark_verified :: "env \<Rightarrow> string \<Rightarrow> world \<Rightarrow> (err + nat) \<times> world" where
  "mark_verified E token s =
     (Inr (length (filter (awaits token (db_now E (calls s))) (users s))),
      s\<lparr>users := update_where (awaits token (db_now E (calls s))) verified_user (users s)\<rparr>)"

definition verify_email :: "env \<Rightarrow> string option \<Rightarrow> (world, http, json) rt" where
  "verify_email E param =
     rbind (need Bad_Request param) (\<lambda>token.
     rbind (or_http Server_Error (query E (\<lambda>s. find (awaits token (db_now E (calls s))) (users s)))) (\<lambda>found_row.
     rbind (need Bad_Request found_row) (\<lambda>row.
     rbind (or_http Server_Error (sql E (mark_verified E token))) (\<lambda>affected.
     if affected = 0 then fail Bad_Request
     else
       rbind (if u_role row = Common then
                rbind (attempt (connect E)) (\<lambda>c.
                case c of
                  Inl e \<Rightarrow> ret ()
                | Inr u \<Rightarrow>
                    rbind (attempt (with_kms E (\<lambda>master. create_wallet E master (uuid_show (lib_of E) (u_id row)) ''bsc'')))
                      (\<lambda>_. ret ()))
              else ret ()) (\<lambda>_.
       ret (JObj [(''verified'', JBool True), (''role'', JStr (show_role (u_role row)))]))))))"

section \<open>Profiles and roles\<close>

definition get_profile :: "env \<Rightarrow> auth_user \<Rightarrow> (world, http, json) rt" where
  "get_profile E user =
     rbind (or_http Server_Error (query E (user_by_id (au_id user)))) (\<lambda>found_row.
     rbind (need Server_Error found_row) (\<lambda>u.
     ret (JObj [(''user_id'', JStr (uuid_show (lib_of E) (au_id user))), (''email'', JStr (u_email u)),
       (''username'', opt_str (u_username u)), (''totp_enabled'', JBool (u_totp_enabled u)),
       (''email_verified'', JBool (u_email_verified u)), (''role'', JStr (show_role (u_role u))),
       (''created_at'', JStr (time_show (lib_of E) (u_created u)))])))"

definition admin_update_user_role :: "env \<Rightarrow> auth_user \<Rightarrow> string \<Rightarrow> string \<Rightarrow> (world, http, json) rt" where
  "admin_update_user_role E user target role =
     (if \<not> is_admin user then fail Forbidden
      else
        rbind (need Bad_Request (role_of role)) (\<lambda>new_role.
        rbind (need Bad_Request (uuid_parse (lib_of E) target)) (\<lambda>i.
        if i = au_id user then fail Bad_Request
        else
          rbind (or_http Server_Error (exec E (set_user i
            (\<lambda>u. u\<lparr>u_role := new_role, u_totp_enabled := False, u_totp_secret := None\<rparr>)))) (\<lambda>_.
          ret (JObj [(''user_id'', JStr target), (''role'', JStr role)])))))"

text \<open>The first administrator, created at the start of the service.\<close>

definition seed_admin_user :: "env \<Rightarrow> web \<Rightarrow> (world, err, unit) rt" where
  "seed_admin_user E W =
     (let A = auth (cfg E) in
      if auth_admin_email A = [] \<or> auth_admin_password A = [] then ret ()
      else
        rbind (map_err (\<lambda>e. ''Failed to check for existing admin'' @ e)
                (query E (\<lambda>s. length (filter (\<lambda>u. u_role u = Admin) (users s))))) (\<lambda>existing.
        if 0 < existing then ret ()
        else
          rbind (ask (\<lambda>n. ok_or ''Failed to hash admin seed password'' (pw_hash W (auth_admin_password A) n))) (\<lambda>password_hash.
          rbind (fresh E) (\<lambda>i. rbind (fresh E) (\<lambda>token_id. rbind (unix_now E) (\<lambda>t.
          map_err (\<lambda>e. ''Failed to insert seed admin user'' @ e)
            (sql E (\<lambda>s. insert_user \<lparr>u_id = i, u_email = auth_admin_email A, u_password_hash = password_hash,
               u_totp_secret = None, u_totp_enabled = False, u_created = db_now E (calls s), u_email_verified = False,
               u_vtoken = Some (uuid_show (lib_of E) token_id), u_vexpires = Some (expiry_of t 86400),
               u_role = Admin, u_username = None\<rparr> s))))))))"

section \<open>Frame\<close>

context world_rel begin

lemma keeps_or_http: "keeps R m \<Longrightarrow> keeps R (or_http h m)"
  unfolding or_http_def by (rule keeps_map_err)

lemma keeps_need: "keeps R (need h x)"
  unfolding need_def by (rule keeps_of_result)

lemma keeps_unix_now: "keeps R (unix_now E)"
  unfolding unix_now_def by (rule keeps_ask)

lemma keeps_connect: "keeps R (connect E)"
  unfolding connect_def by (rule keeps_ask)

lemma keeps_with_kms: "(\<And>master. keeps R (call master)) \<Longrightarrow> keeps R (with_kms E call)"
  unfolding with_kms_def by (intro keeps_grpc keeps_case_sum keeps_fail)

lemmas keeps_http = keeps_or_http keeps_need keeps_unix_now keeps_connect keeps_world

lemma keeps_token: "keeps R (create_token E W ty ttl i role)"
  unfolding create_token_def by (intro keeps_http)

lemma keeps_access_token: "keeps R (create_access_token_with_role E W i role)" "keeps R (create_access_token E W i)"
  unfolding create_access_token_def create_access_token_with_role_def by (rule keeps_token)+

lemma keeps_both_tokens: "keeps R (both_tokens E W i role)"
  unfolding both_tokens_def create_access_token_with_role_def create_refresh_token_with_role_def
  by (intro keeps_token keeps_http)

lemma keeps_validate: "keeps R (validate_token E W token)"
  unfolding validate_token_def by (intro keeps_http)

lemma keeps_require_auth: "keeps R (require_auth E W header)"
  unfolding require_auth_def by (intro keeps_validate keeps_http)

lemma keeps_check_code: "keeps R (check_code E W secret c)"
  unfolding check_code_def by (intro keeps_http)

lemma keeps_confirm_2fa: "keeps R (confirm_2fa E W user c)"
  unfolding confirm_2fa_def by (intro keeps_check_code keeps_http)

lemma keeps_login_admin: "keeps R (login_admin E W body row)"
  unfolding login_admin_def by (intro keeps_check_code keeps_both_tokens keeps_access_token keeps_http)

lemma keeps_refresh: "keeps R (refresh_token E W token)"
  unfolding refresh_token_def by (intro keeps_validate keeps_both_tokens keeps_http)

lemma keeps_profile: "keeps R (get_profile E user)"
  unfolding get_profile_def by (intro keeps_http)

end

text \<open>
  The interface to the accounts: a relation that ignores e-mails and is kept by a new verification
  token, a new user, a new secret and a verified address is kept by the public handlers.
\<close>

locale account_rel = mail_rel R for R :: "world \<Rightarrow> world \<Rightarrow> bool" +
  assumes rel_vtoken: "R s (snd (set_vtoken i token ex s))"
    and rel_user: "\<not> u_totp_enabled r \<Longrightarrow> \<not> u_email_verified r \<Longrightarrow> R s (snd (insert_user r s))"
    and rel_secret: "R s (set_user i (\<lambda>u. u\<lparr>u_totp_secret := Some secret\<rparr>) s)"
    and rel_verified: "R s (snd (mark_verified E token s))"
begin

lemma keeps_renew: "keeps R (renew_token E W i email)"
  unfolding renew_token_def Let_def by (intro keeps_sql rel_vtoken keeps_mails keeps_http)

lemma keeps_signup: "keeps R (signup E W body)"
  unfolding signup_def signup_existing_def signup_new_def Let_def
  by (intro keeps_renew keeps_access_token keeps_sql rel_user keeps_mails keeps_http) simp_all

lemma keeps_login: "keeps R (login E W body)"
  unfolding login_def by (intro keeps_renew keeps_both_tokens keeps_login_admin keeps_http)

lemma keeps_setup_2fa: "keeps R (setup_2fa E W user)"
  unfolding setup_2fa_def by (intro keeps_exec rel_secret keeps_http)

lemma keeps_resend: "keeps R (resend_verification E W user)"
  unfolding resend_verification_def Let_def by (intro keeps_sql rel_vtoken keeps_mails keeps_http)

lemma keeps_seed: "keeps R (seed_admin_user E W)"
  unfolding seed_admin_user_def Let_def by (intro keeps_sql rel_user keeps_http) simp_all

lemma keeps_verify_email:
  assumes "\<And>master u. keeps R (create_wallet E master u ''bsc'')"
  shows "keeps R (verify_email E param)"
  unfolding verify_email_def by (intro keeps_with_kms assms keeps_sql rel_verified keeps_http)

end

section \<open>The table of users stays well formed\<close>

definition users_good :: "user_row list \<Rightarrow> bool" where
  "users_good us \<longleftrightarrow>
     distinct (map u_id us) \<and> distinct (map u_email us) \<and>
     (\<forall>u \<in> set us. \<forall>v \<in> set us. u_vtoken u \<noteq> None \<and> u_vtoken v = u_vtoken u \<longrightarrow> u_id v = u_id u) \<and>
     (\<forall>u \<in> set us. u_totp_enabled u \<longrightarrow> u_totp_secret u \<noteq> None)"

definition users_ok :: "world \<Rightarrow> bool" where
  "users_ok s \<longleftrightarrow> users_good (users s)"

interpretation usr: world_inv users_ok
  by unfold_locales (simp_all add: users_ok_def)

lemma users_goodD:
  assumes "users_good us"
  shows "distinct (map u_id us)" "distinct (map u_email us)"
    and "\<And>u v. u \<in> set us \<Longrightarrow> v \<in> set us \<Longrightarrow> u_vtoken u \<noteq> None \<Longrightarrow> u_vtoken v = u_vtoken u \<Longrightarrow> u_id v = u_id u"
    and "\<And>u. u \<in> set us \<Longrightarrow> u_totp_enabled u \<Longrightarrow> u_totp_secret u \<noteq> None"
  using assms unfolding users_good_def by blast+

lemma users_goodI:
  assumes "distinct (map u_id us)" "distinct (map u_email us)"
    and "\<And>u v. u \<in> set us \<Longrightarrow> v \<in> set us \<Longrightarrow> u_vtoken u \<noteq> None \<Longrightarrow> u_vtoken v = u_vtoken u \<Longrightarrow> u_id v = u_id u"
    and "\<And>u. u \<in> set us \<Longrightarrow> u_totp_enabled u \<Longrightarrow> u_totp_secret u \<noteq> None"
  shows "users_good us"
  using assms unfolding users_good_def by blast

text \<open>An update of rows that keeps the keys and makes no second copy of a token.\<close>

lemma users_good_update:
  assumes good: "users_good us"
    and keys: "\<And>u. u_id (f u) = u_id u" "\<And>u. u_email (f u) = u_email u"
    and totp: "\<And>u. u \<in> set us \<Longrightarrow> P u \<Longrightarrow> u_totp_enabled (f u) \<Longrightarrow> u_totp_secret (f u) \<noteq> None"
    and fresh_token: "\<And>u v. u \<in> set us \<Longrightarrow> P u \<Longrightarrow> v \<in> set us \<Longrightarrow> u_id v \<noteq> u_id u \<Longrightarrow> u_vtoken (f u) \<noteq> None \<Longrightarrow>
        u_vtoken (if P v then f v else v) \<noteq> u_vtoken (f u)"
  shows "users_good (update_where P f us)"
proof (rule users_goodI)
  let ?g = "\<lambda>u. if P u then f u else u"
  have row: "\<exists>u0 \<in> set us. u = ?g u0" if "u \<in> set (update_where P f us)" for u
    using set_update_where [OF that] by blast
  have id: "u_id (?g u) = u_id u" for u using keys by simp
  show "distinct (map u_id (update_where P f us))" "distinct (map u_email (update_where P f us))"
    using users_goodD(1,2) [OF good] by (simp_all add: map_update_where keys)
  show "u_totp_secret u \<noteq> None" if "u \<in> set (update_where P f us)" "u_totp_enabled u" for u
    using row [OF that(1)] that(2) totp users_goodD(4) [OF good] by (metis (full_types))
  fix u v
  assume u: "u \<in> set (update_where P f us)" and v: "v \<in> set (update_where P f us)"
    and tok: "u_vtoken u \<noteq> None" "u_vtoken v = u_vtoken u"
  obtain u0 v0 where u0: "u0 \<in> set us" "u = ?g u0" and v0: "v0 \<in> set us" "v = ?g v0"
    using row [OF u] row [OF v] by blast
  have ids: "u_id u = u_id u0" "u_id v = u_id v0" using u0 v0 id by simp_all
  show "u_id v = u_id u"
  proof (rule ccontr)
    assume "u_id v \<noteq> u_id u"
    then have ne: "u_id v0 \<noteq> u_id u0" using ids by simp
    consider "P u0" | "\<not> P u0" "P v0" | "\<not> P u0" "\<not> P v0" by blast
    then show False
    proof cases
      case 1
      then have "u = f u0" using u0 by simp
      then show ?thesis using fresh_token [OF u0(1) 1 v0(1) ne] tok v0(2) by simp
    next
      case 2
      then have "v = f v0" "u = u0" using u0 v0 by simp_all
      then show ?thesis using fresh_token [OF v0(1) 2(2) u0(1) ne [symmetric]] tok 2 by simp
    next
      case 3
      then have "v = v0" "u = u0" using u0 v0 by simp_all
      then show ?thesis using users_goodD(3) [OF good u0(1) v0(1)] tok ne by simp
    qed
  qed
qed

lemma users_ok_vtoken:
  assumes ok: "users_ok s"
  shows "users_ok (snd (set_vtoken i token ex s))"
proof (cases "list_ex (\<lambda>u. u_id u \<noteq> i \<and> u_vtoken u = Some token) (users s)")
  case False
  have good: "users_good (users s)" using ok by (simp add: users_ok_def)
  have "users_good (update_where (\<lambda>u. u_id u = i) (\<lambda>u. u\<lparr>u_vtoken := Some token, u_vexpires := Some ex\<rparr>) (users s))"
  proof (rule users_good_update [OF good])
    show "u_vtoken (if u_id v = i then v\<lparr>u_vtoken := Some token, u_vexpires := Some ex\<rparr> else v)
        \<noteq> u_vtoken (u\<lparr>u_vtoken := Some token, u_vexpires := Some ex\<rparr>)"
      if "u_id u = i" "v \<in> set (users s)" "u_id v \<noteq> u_id u" for u v :: user_row
      using that False by (auto simp: list_ex_iff)
    show "u_totp_secret (u\<lparr>u_vtoken := Some token, u_vexpires := Some ex\<rparr>) \<noteq> None"
      if "u \<in> set (users s)" "u_totp_enabled (u\<lparr>u_vtoken := Some token, u_vexpires := Some ex\<rparr>)" for u
      using users_goodD(4) [OF good that(1)] that(2) by simp
  qed simp_all
  then show ?thesis using False by (simp add: set_vtoken_def set_user_def users_ok_def)
qed (use ok in \<open>simp add: set_vtoken_def\<close>)

lemma users_ok_insert:
  assumes ok: "users_ok s" and new: "\<not> u_totp_enabled r"
  shows "users_ok (snd (insert_user r s))"
proof (cases "list_ex (user_conflict r) (users s)")
  case False
  have good: "users_good (users s)" using ok by (simp add: users_ok_def)
  have no: "u_id q \<noteq> u_id r" "u_email q \<noteq> u_email r" "u_vtoken r \<noteq> None \<Longrightarrow> u_vtoken q \<noteq> u_vtoken r"
    if "q \<in> set (users s)" for q
    using False that by (auto simp: list_ex_iff user_conflict_def)
  have "users_good (users s @ [r])"
  proof (rule users_goodI)
    show "distinct (map u_id (users s @ [r]))" "distinct (map u_email (users s @ [r]))"
      using users_goodD(1,2) [OF good] no by force+
    show "u_totp_secret u \<noteq> None" if "u \<in> set (users s @ [r])" "u_totp_enabled u" for u
      using that new users_goodD(4) [OF good] by auto
    show "u_id v = u_id u" if "u \<in> set (users s @ [r])" "v \<in> set (users s @ [r])" "u_vtoken u \<noteq> None" "u_vtoken v = u_vtoken u" for u v
    proof (cases "u = r \<or> v = r")
      case True
      then show ?thesis using that no(3) [of u] no(3) [of v] by fastforce
    next
      case False
      then show ?thesis using that users_goodD(3) [OF good, of u v] by simp
    qed
  qed
  then show ?thesis using False by (simp add: insert_user_def users_ok_def)
qed (use ok in \<open>simp add: insert_user_def\<close>)

lemma users_ok_verified:
  assumes ok: "users_ok s"
  shows "users_ok (snd (mark_verified E token s))"
proof -
  have good: "users_good (users s)" using ok by (simp add: users_ok_def)
  have "users_good (update_where (awaits token (db_now E (calls s))) verified_user (users s))"
    using users_goodD(4) [OF good] by (intro users_good_update [OF good]) (simp_all add: verified_user_def)
  then show ?thesis by (simp add: mark_verified_def users_ok_def)
qed

lemma users_ok_set:
  assumes ok: "users_ok s" and keys: "\<And>u. u_id (f u) = u_id u" "\<And>u. u_email (f u) = u_email u" "\<And>u. u_vtoken (f u) = u_vtoken u"
    and totp: "\<And>u. u \<in> set (users s) \<Longrightarrow> u_id u = i \<Longrightarrow> u_totp_enabled (f u) \<Longrightarrow> u_totp_secret (f u) \<noteq> None"
  shows "users_ok (set_user i f s)"
proof -
  have good: "users_good (users s)" using ok by (simp add: users_ok_def)
  have "users_good (update_where (\<lambda>u. u_id u = i) f (users s))"
  proof (rule users_good_update [OF good])
    show "u_vtoken (if u_id v = i then f v else v) \<noteq> u_vtoken (f u)"
      if "u \<in> set (users s)" "u_id u = i" "v \<in> set (users s)" "u_id v \<noteq> u_id u" "u_vtoken (f u) \<noteq> None" for u v
      using users_goodD(3) [OF good that(1,3)] that(4,5) keys by auto
  qed (simp_all add: keys totp)
  then show ?thesis by (simp add: set_user_def users_ok_def)
qed

interpretation acc: account_rel "inv_step users_ok"
proof
  fix s :: world and i :: uuid and token :: string and E :: env and r :: user_row
  show "inv_step users_ok s (s\<lparr>mails := mails s @ ms\<rparr>)" for ms by (simp add: inv_step_def users_ok_def)
  show "inv_step users_ok s (snd (set_vtoken i token ex s))" for ex by (simp add: inv_step_def users_ok_vtoken)
  show "inv_step users_ok s (snd (insert_user r s))" if "\<not> u_totp_enabled r"
    using that by (simp add: inv_step_def users_ok_insert)
  show "inv_step users_ok s (set_user i (\<lambda>u. u\<lparr>u_totp_secret := Some secret\<rparr>) s)" for secret
    unfolding inv_step_def by (intro impI users_ok_set) simp_all
  show "inv_step users_ok s (snd (mark_verified E token s))" by (simp add: inv_step_def users_ok_verified)
qed


end
