(* ===== verification/AbiText.thy ===== *)
theory AbiText
  imports Prelude
begin

text \<open>
  The decoder of a string answered by a contract (\<open>decode_abi_string\<close> of
  \<open>crates/api-gateway/src/routes.rs\<close>), on the bytes behind the hexadecimal text.  Offsets are 64-bit
  words whose additions wrap, as in a release build; \<open>Panic\<close> is the panic of a slice out of range.
\<close>

datatype 'a checked = Panic | Value 'a

section \<open>Bytes\<close>

definition be_word :: "8 word list \<Rightarrow> u64" where
  "be_word bs = word_of_nat (foldl (\<lambda>acc b. 256 * acc + unat b) 0 bs)"

definition slice :: "8 word list \<Rightarrow> u64 \<Rightarrow> u64 \<Rightarrow> 8 word list checked" where
  "slice data a b =
     (if a \<le> b \<and> unat b \<le> length data then Value (take (unat b - unat a) (drop (unat a) data)) else Panic)"

text \<open>\<open>String::from_utf8\<close>: the well-formed sequences of the Unicode standard.\<close>

definition continues :: "8 word \<Rightarrow> bool" where
  "continues b \<longleftrightarrow> 0x80 \<le> b \<and> b \<le> 0xBF"

fun utf8_ok :: "8 word list \<Rightarrow> bool" where
  "utf8_ok [] = True"
| "utf8_ok [b] = (b < 0x80)"
| "utf8_ok [b, c] =
     (if b < 0x80 then utf8_ok [c] else 0xC2 \<le> b \<and> b \<le> 0xDF \<and> continues c)"
| "utf8_ok [b, c, d] =
     (if b < 0x80 then utf8_ok [c, d]
      else if 0xC2 \<le> b \<and> b \<le> 0xDF then continues c \<and> utf8_ok [d]
      else 0xE0 \<le> b \<and> b \<le> 0xEF \<and> continues c \<and> continues d \<and> (b = 0xE0 \<longrightarrow> 0xA0 \<le> c) \<and> (b = 0xED \<longrightarrow> c \<le> 0x9F))"
| "utf8_ok (b # c # d # e # rest) =
     (if b < 0x80 then utf8_ok (c # d # e # rest)
      else if 0xC2 \<le> b \<and> b \<le> 0xDF then continues c \<and> utf8_ok (d # e # rest)
      else if 0xE0 \<le> b \<and> b \<le> 0xEF
      then continues c \<and> continues d \<and> (b = 0xE0 \<longrightarrow> 0xA0 \<le> c) \<and> (b = 0xED \<longrightarrow> c \<le> 0x9F) \<and> utf8_ok (e # rest)
      else 0xF0 \<le> b \<and> b \<le> 0xF4 \<and> continues c \<and> continues d \<and> continues e \<and>
        (b = 0xF0 \<longrightarrow> 0x90 \<le> c) \<and> (b = 0xF4 \<longrightarrow> c \<le> 0x8F) \<and> utf8_ok rest)"

definition text_of :: "8 word list \<Rightarrow> string" where
  "text_of bs = map (\<lambda>b. char_of (unat b)) bs"

section \<open>The decoder\<close>

definition text_bytes :: "8 word list \<Rightarrow> u64 \<Rightarrow> u64 \<Rightarrow> string option checked" where
  "text_bytes data start len =
     (if length data < unat (start + len) then Value None
      else (case slice data start (start + len) of
        Panic \<Rightarrow> Panic
      | Value bs \<Rightarrow> Value (if utf8_ok bs then Some (text_of bs) else None)))"

definition decode_abi_bytes :: "8 word list \<Rightarrow> string option checked" where
  "decode_abi_bytes data =
     (if length data < 64 then Value None
      else
        let offset = be_word (take 8 (drop 24 data)) in
        if length data < unat (offset + 32) then Value None
        else (case slice data (offset + 24) (offset + 32) of
          Panic \<Rightarrow> Panic
        | Value w \<Rightarrow> text_bytes data (offset + 32) (be_word w)))"

text \<open>What the ABI makes of a string: the offset 32, the length, the bytes and some padding.\<close>

definition be_octets :: "nat \<Rightarrow> 8 word list" where
  "be_octets n =
     [word_of_nat (n div 256 ^ 7), word_of_nat (n div 256 ^ 6), word_of_nat (n div 256 ^ 5), word_of_nat (n div 256 ^ 4),
      word_of_nat (n div 256 ^ 3), word_of_nat (n div 256 ^ 2), word_of_nat (n div 256), word_of_nat n]"

definition abi_string :: "8 word list \<Rightarrow> 8 word list \<Rightarrow> 8 word list" where
  "abi_string bs padding =
     replicate 24 0 @ be_octets 32 @ replicate 24 0 @ be_octets (length bs) @ bs @ padding"

section \<open>Correctness\<close>

lemma div_256_step: "n div 256 ^ k = 256 * (n div 256 ^ Suc k) + n div 256 ^ k mod 256" for n :: nat
  by (metis div_mult2_eq mult_div_mod_eq power_Suc2)

lemma be_word_be_octets: "n < 2 ^ 64 \<Longrightarrow> be_word (be_octets n) = word_of_nat n"
proof -
  assume n: "n < 2 ^ 64"
  have byte: "unat (word_of_nat m :: 8 word) = m mod 256" for m by (simp add: unat_of_nat)
  define x where "x k = n div 256 ^ k" for k
  have step: "256 * x j + x k mod 256 = x k" if "j = Suc k" for j k
    unfolding x_def that by (rule div_256_step [symmetric])
  have "x 8 = 0" using n by (simp add: x_def)
  then have top: "x 7 mod 256 = x 7" using step [of 8 7] by simp
  have steps: "256 * x 1 + x 0 mod 256 = x 0" "256 * x 2 + x 1 mod 256 = x 1" "256 * x 3 + x 2 mod 256 = x 2"
    "256 * x 4 + x 3 mod 256 = x 3" "256 * x 5 + x 4 mod 256 = x 4" "256 * x 6 + x 5 mod 256 = x 5" "256 * x 7 + x 6 mod 256 = x 6"
    by (rule step, simp)+
  have "be_octets n = map word_of_nat [x 7, x 6, x 5, x 4, x 3, x 2, x 1, x 0]"
    unfolding be_octets_def x_def by (simp only: list.map power_0 power_one_right div_by_1)
  then have "foldl (\<lambda>acc b. 256 * acc + unat b) 0 (be_octets n) =
      256 * (256 * (256 * (256 * (256 * (256 * (256 * (x 7 mod 256) + x 6 mod 256) + x 5 mod 256) + x 4 mod 256)
        + x 3 mod 256) + x 2 mod 256) + x 1 mod 256) + x 0 mod 256"
    by (simp only: list.map foldl.simps byte mult_0_right add_0_left)
  also have "\<dots> = x 0" unfolding top steps ..
  finally show ?thesis by (simp add: be_word_def x_def)
qed

lemma length_be_octets [simp]: "length (be_octets n) = 8"
  by (simp add: be_octets_def)

text \<open>a string encoded as the ABI prescribes, with any padding behind it, is decoded to that string.\<close>

theorem abi_string_round_trip:
  assumes "length bs < 2 ^ 64 - 64" "utf8_ok bs"
  shows "decode_abi_bytes (abi_string bs padding) = Value (Some (text_of bs))"
proof -
  let ?n = "word_of_nat (length bs) :: u64"
  have offset: "be_word (take 8 (drop 24 (abi_string bs padding))) = 32"
    using be_word_be_octets [of 32] by (simp add: abi_string_def)
  have n: "unat ?n = length bs" "unat (64 + ?n) = 64 + length bs"
    using assms(1) by (simp_all add: unat_of_nat unat_word_ariths)
  have one: "slice (abi_string bs padding) 56 64 = Value (be_octets (length bs))"
    by (simp add: slice_def abi_string_def)
  have len: "be_word (be_octets (length bs)) = ?n" using be_word_be_octets assms(1) by simp
  have "(64 :: u64) \<le> 64 + ?n" using n by (simp add: word_le_nat_alt)
  then have two: "slice (abi_string bs padding) 64 (64 + ?n) = Value bs"
    using n by (simp add: slice_def abi_string_def)
  have long: "length (abi_string bs padding) = 64 + length bs + length padding" by (simp add: abi_string_def)
  show ?thesis
    unfolding decode_abi_bytes_def text_bytes_def offset Let_def using one two len n long assms(2) by simp
qed

text \<open>Where the additions wrap.\<close>

lemma wrap_once: "k \<le> n \<Longrightarrow> n < 2 * k \<Longrightarrow> n mod k = n - k" for n k :: nat
  by (simp add: le_mod_geq)

lemma text_bytes_panics:
  "text_bytes data start len = Panic \<longleftrightarrow>
     2 ^ 64 \<le> unat start + unat len \<and> unat start + unat len - 2 ^ 64 \<le> length data"
proof (cases "unat start + unat len < 2 ^ 64")
  case True
  then have "unat (start + len) = unat start + unat len" by (simp add: unat_add_small)
  then show ?thesis using True by (simp add: text_bytes_def slice_def word_le_nat_alt)
next
  case False
  have small: "unat start < 2 ^ 64" "unat len < 2 ^ 64"
    using unsigned_less [of start, where ?'a = nat] unsigned_less [of len, where ?'a = nat] by simp_all
  have "unat (start + len) = (unat start + unat len) mod 2 ^ 64" by (simp add: unat_word_ariths)
  also have "\<dots> = unat start + unat len - 2 ^ 64" using False small by (simp add: wrap_once)
  finally have sum: "unat (start + len) = unat start + unat len - 2 ^ 64" .
  then have "\<not> start \<le> start + len" using small False by (simp add: word_le_nat_alt)
  then show ?thesis using False sum by (simp add: text_bytes_def slice_def not_le)
qed

text \<open>The word in front of a position.\<close>

definition word_before :: "8 word list \<Rightarrow> nat \<Rightarrow> nat" where
  "word_before data pos = unat (be_word (take 8 (drop (pos - 8) data)))"

text \<open>C8: the decoder panics exactly when the addition of the offset, or of the length, wraps in a way that passes the
  comparison with the size of the answer: the two checks do not protect the slices.\<close>

theorem abi_decode_panics:
  assumes "length data < 2 ^ 63"
  shows "decode_abi_bytes data = Panic \<longleftrightarrow>
    64 \<le> length data \<and>
    (let offset = word_before data 32; start = (offset + 32) mod 2 ^ 64; len = word_before data start in
      2 ^ 64 - 32 \<le> offset \<and> offset < 2 ^ 64 - 24 \<or>
      start \<le> length data \<and> 2 ^ 64 \<le> start + len \<and> start + len - 2 ^ 64 \<le> length data)"
proof (cases "64 \<le> length data")
  case True
  define off where "off = be_word (take 8 (drop 24 data))"
  have before: "word_before data 32 = unat off" by (simp add: word_before_def off_def)
  have small: "unat off < 2 ^ 64" using unsigned_less [of off, where ?'a = nat] by simp
  have add32: "unat (off + 32) = (unat off + 32) mod 2 ^ 64" and add24: "unat (off + 24) = (unat off + 24) mod 2 ^ 64"
    by (simp_all add: unat_word_ariths)
  have run: "decode_abi_bytes data =
     (if length data < unat (off + 32) then Value None
      else (case slice data (off + 24) (off + 32) of Panic \<Rightarrow> Panic | Value w \<Rightarrow> text_bytes data (off + 32) (be_word w)))"
    using True unfolding decode_abi_bytes_def off_def Let_def by simp
  define start where "start = (unat off + 32) mod 2 ^ 64"
  consider (mid) "2 ^ 64 - 32 \<le> unat off" "unat off < 2 ^ 64 - 24"
    | (good) "\<not> (2 ^ 64 - 32 \<le> unat off \<and> unat off < 2 ^ 64 - 24)" "unat (off + 24) + 8 = start" "unat (off + 32) = start"
  proof -
    have "unat (off + 24) + 8 = start" "unat (off + 32) = start" if "unat off < 2 ^ 64 - 32"
      using that add32 add24 by (simp_all add: start_def)
    moreover have "unat (off + 24) + 8 = start" "unat (off + 32) = start" if "2 ^ 64 - 24 \<le> unat off"
    proof -
      have "start = unat off + 32 - 2 ^ 64" unfolding start_def using that small by (intro wrap_once) simp_all
      moreover have "unat (off + 24) = unat off + 24 - 2 ^ 64" unfolding add24 using that small by (intro wrap_once) simp_all
      ultimately show "unat (off + 24) + 8 = start" "unat (off + 32) = start" using that add32 by (simp_all add: start_def)
    qed
    ultimately show thesis using that by linarith
  qed
  then show ?thesis
  proof cases
    case mid
    have "unat (off + 32) = unat off + 32 - 2 ^ 64" unfolding add32 using mid by (intro wrap_once) simp_all
    moreover have "unat (off + 24) = unat off + 24" unfolding add24 using mid by simp
    ultimately have "unat (off + 32) < 8" "2 ^ 64 - 8 \<le> unat (off + 24)" using mid by simp_all
    then have "\<not> length data < unat (off + 32)" "\<not> off + 24 \<le> off + 32" using True by (simp_all add: word_le_nat_alt)
    then show ?thesis using mid True by (simp add: run before Let_def slice_def)
  next
    case good
    have bef: "word_before data start = unat (be_word (take 8 (drop (unat (off + 24)) data)))"
      using good(2) by (simp add: word_before_def flip: good(2))
    have "off + 24 \<le> off + 32" using good by (simp add: word_le_nat_alt)
    then have "slice data (off + 24) (off + 32) = Value (take 8 (drop (unat (off + 24)) data))" if "start \<le> length data"
      using good that by (simp add: slice_def flip: good(2))
    then have "decode_abi_bytes data = Panic \<longleftrightarrow> start \<le> length data \<and>
        text_bytes data (off + 32) (be_word (take 8 (drop (unat (off + 24)) data))) = Panic"
      using good(3) by (simp add: run)
    also have "\<dots> \<longleftrightarrow> start \<le> length data \<and> 2 ^ 64 \<le> start + word_before data start \<and>
        start + word_before data start - 2 ^ 64 \<le> length data"
      unfolding text_bytes_panics good(3) bef ..
    finally show ?thesis using good(1) True unfolding before Let_def start_def [symmetric] by blast
  qed
qed (simp add: decode_abi_bytes_def)

section \<open>Instances\<close>

theorem abi_string_round_trip_witness:
  "decode_abi_bytes (abi_string [0x57, 0x4B, 0x43] (replicate 29 0)) = Value (Some ''WKC'')"
proof -
  have "length [0x57, 0x4B, 0x43 :: 8 word] < 2 ^ 64 - 64" "utf8_ok [0x57, 0x4B, 0x43]" by code_simp+
  from abi_string_round_trip [OF this] have
    "decode_abi_bytes (abi_string [0x57, 0x4B, 0x43] (replicate 29 0)) = Value (Some (text_of [0x57, 0x4B, 0x43]))" .
  moreover have "text_of [0x57, 0x4B, 0x43] = ''WKC''" by code_simp
  ultimately show ?thesis by simp
qed

text \<open>An answer of 64 bytes whose first word is \<open>2^64 - 32\<close>.\<close>

definition poison :: "8 word list" where
  "poison = replicate 24 0 @ replicate 7 0xFF @ [0xE0] @ replicate 32 0"

theorem abi_decode_panics_witness: "length poison = 64 \<and> decode_abi_bytes poison = Panic"
proof -
  have "length poison = 64" by code_simp
  moreover have "word_before poison 32 = 2 ^ 64 - 32" by code_simp
  ultimately show ?thesis using abi_decode_panics [of poison] by simp
qed

end
