(* ===== verification/PriceCache.thy ===== *)
theory PriceCache
  imports Auth Paths AbiText "HOL-Library.AList"
begin

text \<open>
  Prices and token data of the gateway (\<open>crates/api-gateway/src/routes.rs\<close>): the pool of an oracle
  price is chosen among the discovered pools and remembered in Redis; a cached pool whose price cannot
  be read is chosen again once.
\<close>

section \<open>Redis\<close>

text \<open>A failure to read counts as a missing key, a failure to write is only logged.\<close>

definition redis_get :: "env \<Rightarrow> string \<Rightarrow> (world, 'e, string option) rt" where
  "redis_get E key = (\<lambda>s. (Inr (if redis_fails E (calls s) then None else map_of (redis_keys s) key),
     s\<lparr>calls := Suc (calls s)\<rparr>))"

definition redis_set :: "env \<Rightarrow> string \<Rightarrow> string \<Rightarrow> (world, 'e, unit) rt" where
  "redis_set E key v = (\<lambda>s. (Inr (),
     (if redis_fails E (calls s) then s else s\<lparr>redis_keys := AList.update key v (redis_keys s)\<rparr>)
       \<lparr>calls := Suc (calls s)\<rparr>))"

locale cache_rel = world_rel R for R :: "world \<Rightarrow> world \<Rightarrow> bool" +
  assumes rel_redis: "R s (s\<lparr>redis_keys := ks\<rparr>)"
begin

lemma keeps_redis: "keeps R (redis_get E key)" "keeps R (redis_set E key v)"
  by (auto simp: keeps_def redis_get_def redis_set_def rel_calls intro: rel_trans [OF rel_redis rel_calls])

end

section \<open>The pool of a price\<close>

record oracle_pool =
  op_address :: string
  op_version :: byte

definition oracle_pool_json :: "oracle_pool \<Rightarrow> json" where
  "oracle_pool_json p = JObj [(''pool_address'', JStr (op_address p)), (''version'', JPos (ucast (op_version p)))]"

definition oracle_pool_of_json :: "json \<Rightarrow> oracle_pool option" where
  "oracle_pool_of_json j =
     opt_bind (j_field ''pool_address'' j) (\<lambda>a. opt_bind (j_num ''version'' j) (\<lambda>n.
     if unat n \<le> 255 then Some \<lparr>op_address = a, op_version = ucast n\<rparr> else None))"

definition token_pool_cache_key :: "string \<Rightarrow> string \<Rightarrow> string" where
  "token_pool_cache_key chain token_address =
     ''oracle_pool:'' @ lower (trim chain) @ '':'' @ lower (trim token_address)"

definition validate_hex_address :: "lib \<Rightarrow> string \<Rightarrow> bool" where
  "validate_hex_address L v \<longleftrightarrow>
     (let addr = trim v in starts_with ''0x'' addr \<and> length addr = 42 \<and> hex_decode L (drop 2 addr) \<noteq> None)"

definition parse_u256_amount :: "web \<Rightarrow> string \<Rightarrow> u256 option" where
  "parse_u256_amount W raw =
     (let trimmed = trim raw; integral = trim (hd (split_on CHR ''.'' trimmed)) in
      if trimmed = [] \<or> integral = [] then None else u256_from_str W integral)"

definition pool_type_to_version :: "string \<Rightarrow> byte option" where
  "pool_type_to_version pt =
     (let t = lower (trim pt) in if t = ''v2'' then Some 2 else if t = ''v3'' then Some 3 else None)"

definition pool_token_liquidity_metric :: "web \<Rightarrow> pool_info \<Rightarrow> string \<Rightarrow> u256 option" where
  "pool_token_liquidity_metric W pool token_address =
     (let token_is_0 = eq_ic (pi_token0 pool) token_address; token_is_1 = eq_ic (pi_token1 pool) token_address;
          t = lower (trim (pi_type pool)) in
      if \<not> token_is_0 \<and> \<not> token_is_1 then None
      else if t = ''v2'' then parse_u256_amount W (if token_is_0 then pi_reserve0 pool else pi_reserve1 pool)
      else if t = ''v3'' then parse_u256_amount W (if token_is_0 then pi_balance0 pool else pi_balance1 pool)
      else None)"

fun choose_loop ::
  "web \<Rightarrow> string \<Rightarrow> pool_info list \<Rightarrow> (u256 \<times> oracle_pool) option \<Rightarrow> oracle_pool option \<Rightarrow> oracle_pool option" where
  "choose_loop W token [] best fallback = (case best of Some (m, entry) \<Rightarrow> Some entry | None \<Rightarrow> fallback)"
| "choose_loop W token (pool # pools) best fallback =
     (case pool_type_to_version (pi_type pool) of
        None \<Rightarrow> choose_loop W token pools best fallback
      | Some version \<Rightarrow>
          let entry = \<lparr>op_address = pi_address pool, op_version = version\<rparr>;
              fallback = (case fallback of None \<Rightarrow> Some entry | Some e \<Rightarrow> Some e) in
          (case pool_token_liquidity_metric W pool token of
            None \<Rightarrow> choose_loop W token pools best fallback
          | Some metric \<Rightarrow>
              if metric = 0 then choose_loop W token pools best fallback
              else choose_loop W token pools
                (case best of
                   Some (best_metric, e) \<Rightarrow> if metric \<le> best_metric then Some (best_metric, e) else Some (metric, entry)
                 | None \<Rightarrow> Some (metric, entry)) fallback))"

definition choose_best_oracle_pool :: "web \<Rightarrow> pool_info list \<Rightarrow> string \<Rightarrow> oracle_pool option" where
  "choose_best_oracle_pool W pools token_address = choose_loop W token_address pools None None"

definition usable_entry :: "lib \<Rightarrow> oracle_pool \<Rightarrow> bool" where
  "usable_entry L entry \<longleftrightarrow> validate_hex_address L (op_address entry) \<and> (op_version entry = 2 \<or> op_version entry = 3)"

definition cached_entry :: "lib \<Rightarrow> string option \<Rightarrow> oracle_pool option" where
  "cached_entry L cached =
     opt_bind cached (\<lambda>txt. opt_bind (json_parse L txt) (\<lambda>j. opt_bind (oracle_pool_of_json j) (\<lambda>entry.
     if usable_entry L entry then Some entry else None)))"

definition resolve_cached_oracle_pool ::
  "env \<Rightarrow> web \<Rightarrow> string \<Rightarrow> string \<Rightarrow> bool \<Rightarrow> (world, http, oracle_pool \<times> bool) rt" where
  "resolve_cached_oracle_pool E W chain token_address force_refresh =
     (let key = token_pool_cache_key chain token_address; L = lib_of E in
      rbind (if force_refresh then ret None else rbind (redis_get E key) (\<lambda>cached. ret (cached_entry L cached))) (\<lambda>hit.
      case hit of
        Some entry \<Rightarrow> ret (entry, True)
      | None \<Rightarrow>
          rbind (connect E) (\<lambda>_.
          rbind (or_http Bad_Gateway (grpc E (discover_pools_rpc E chain token_address))) (\<lambda>pools.
          rbind (need Not_Found (choose_best_oracle_pool W pools token_address)) (\<lambda>selected.
          rbind (redis_set E key (json_show L (oracle_pool_json selected))) (\<lambda>_.
          ret (selected, False)))))))"

definition fetch_pool_price_36 :: "env \<Rightarrow> string \<Rightarrow> addr \<Rightarrow> string \<Rightarrow> oracle_pool \<Rightarrow> (world, err, u256) rt" where
  "fetch_pool_price_36 E rpc_url oracle_address token_address pool =
     (if \<not> url_ok (lib_of E) rpc_url then fail ''Invalid rpc_url''
      else
        rbind (of_result (ok_or ''Invalid token address'' (addr_parse (lib_of E) token_address))) (\<lambda>token.
        rbind (of_result (ok_or ''Invalid pool address'' (addr_parse (lib_of E) (op_address pool)))) (\<lambda>pair.
        remote E (rpc_usd_price (node_of E) rpc_url oracle_address token pair (op_version pool)))))"

definition usd_of_36 :: "lib \<Rightarrow> u256 \<Rightarrow> f64" where
  "usd_of_36 L price = f_div (opt_or (Fin 0) (f_parse (u256_show L price))) (rnd (10 ^ 36))"

text \<open>A number that is not finite is written as null.\<close>

definition f_json :: "f64 \<Rightarrow> json" where
  "f_json x = (if is_finite x then JFloat x else JNull)"

section \<open>The two handlers\<close>

definition get_token_usd_price :: "env \<Rightarrow> web \<Rightarrow> string \<Rightarrow> string \<Rightarrow> (world, http, json) rt" where
  "get_token_usd_price E W chain0 token_address =
     (let L = lib_of E; chain = lower (trim chain0);
          token = lower (normalize_token_for_chain (cfg E) chain (trim token_address)) in
      if chain = [] \<or> \<not> validate_hex_address L token then fail Bad_Request
      else
        rbind (need Bad_Request (map_of (chain_entries (cfg E)) chain)) (\<lambda>chain_cfg.
        let rpc_url = trim (cc_rpc_url chain_cfg) in
        if rpc_url = [] then fail Bad_Request
        else
          rbind (need Server_Error (addr_parse L (buy_trigger_oracle_address (execution (cfg E))))) (\<lambda>orc.
          rbind (resolve_cached_oracle_pool E W chain token False) (\<lambda>(pool, from_cache).
          rbind (attempt (fetch_pool_price_36 E rpc_url orc token pool)) (\<lambda>price.
          rbind (case price of
                   Inr v \<Rightarrow> ret (pool, v)
                 | Inl e \<Rightarrow>
                     if \<not> from_cache then fail Bad_Gateway
                     else
                       rbind (resolve_cached_oracle_pool E W chain token True) (\<lambda>(again, _).
                       rbind (or_http Bad_Gateway (fetch_pool_price_36 E rpc_url orc token again)) (\<lambda>v.
                       ret (again, v)))) (\<lambda>(used, v).
          ret (JObj [(''token_address'', JStr token_address), (''usd_price'', f_json (usd_of_36 L v)),
            (''pool_address'', JStr (op_address used)), (''pool_version'', JPos (ucast (op_version used)))])))))))"

definition without_0x :: "string \<Rightarrow> string" where
  "without_0x s = (case strip_prefix ''0x'' s of Some r \<Rightarrow> r | None \<Rightarrow> s)"

definition decode_abi_string :: "lib \<Rightarrow> string \<Rightarrow> string option checked" where
  "decode_abi_string L hex_data =
     (case hex_decode L (without_0x hex_data) of None \<Rightarrow> Value None | Some data \<Rightarrow> decode_abi_bytes data)"

definition eth_call :: "env \<Rightarrow> web \<Rightarrow> string \<Rightarrow> string \<Rightarrow> string \<Rightarrow> (world, http, string) rt" where
  "eth_call E W rpc_url to data =
     rbind (or_http Bad_Gateway (remote E (eth_call_reply W rpc_url to data))) (\<lambda>resp.
     need Bad_Gateway (j_field ''result'' resp))"

definition erc20_call_string :: "env \<Rightarrow> web \<Rightarrow> string \<Rightarrow> string \<Rightarrow> string \<Rightarrow> (world, http, string) rt" where
  "erc20_call_string E W rpc_url address selector =
     rbind (eth_call E W rpc_url address selector) (\<lambda>result.
     case decode_abi_string (lib_of E) result of
       Panic \<Rightarrow> fail Panicked
     | Value x \<Rightarrow> need Bad_Gateway x)"

definition erc20_call_uint8 :: "env \<Rightarrow> web \<Rightarrow> string \<Rightarrow> string \<Rightarrow> string \<Rightarrow> (world, http, byte) rt" where
  "erc20_call_uint8 E W rpc_url address selector =
     rbind (eth_call E W rpc_url address selector) (\<lambda>result.
     rbind (need Bad_Gateway (hex_decode (lib_of E) (without_0x result))) (\<lambda>data.
     if length data < 32 then fail Bad_Gateway else ret (data ! 31)))"

text \<open>The three calls run together in the code; they only read.\<close>

definition get_token_metadata :: "env \<Rightarrow> web \<Rightarrow> string \<Rightarrow> string \<Rightarrow> (world, http, json) rt" where
  "get_token_metadata E W chain0 address0 =
     (let chain = lower (trim chain0); input_address = lower (trim address0);
          answer = (\<lambda>name symbol decimals. JObj [(''address'', JStr address0), (''name'', JStr name), (''symbol'', JStr symbol),
            (''decimals'', JPos (ucast (decimals :: byte)))]) in
      if \<not> validate_hex_address (lib_of E) input_address then fail Bad_Request
      else if chain = ''bsc'' \<and> is_native_token_placeholder input_address then ret (answer ''BNB'' ''BNB'' 18)
      else
        let address = lower (normalize_token_for_chain (cfg E) chain input_address) in
        rbind (need Bad_Request (map_of (chain_entries (cfg E)) chain)) (\<lambda>chain_cfg.
        if cc_rpc_url chain_cfg = [] then fail Bad_Request
        else
          rbind (erc20_call_string E W (cc_rpc_url chain_cfg) address ''0x06fdde03'') (\<lambda>name.
          rbind (erc20_call_string E W (cc_rpc_url chain_cfg) address ''0x95d89b41'') (\<lambda>symbol.
          rbind (erc20_call_uint8 E W (cc_rpc_url chain_cfg) address ''0x313ce567'') (\<lambda>decimals.
          ret (answer name symbol decimals))))))"

section \<open>Frame\<close>

context world_rel begin

lemma keeps_discover_rpc: "keeps R (discover_pools_rpc E chain token)"
  unfolding discover_pools_rpc_def Let_def by (intro keeps_discover_pools keeps_status_err keeps_world)

lemma keeps_pool_price: "keeps R (fetch_pool_price_36 E rpc_url orc token pool)"
  unfolding fetch_pool_price_36_def by (intro keeps_world)

end

context cache_rel begin

lemma keeps_resolve: "keeps R (resolve_cached_oracle_pool E W chain token force_refresh)"
  unfolding resolve_cached_oracle_pool_def Let_def
  by (intro keeps_redis keeps_grpc keeps_discover_rpc keeps_http)

lemma keeps_token_price: "keeps R (get_token_usd_price E W chain token)"
  unfolding get_token_usd_price_def Let_def
  by (intro keeps_resolve keeps_pool_price keeps_http)

end

section \<open>The choice is the first pool of greatest liquidity\<close>

definition entry_of :: "pool_info \<Rightarrow> oracle_pool" where
  "entry_of p = \<lparr>op_address = pi_address p, op_version = opt_or 0 (pool_type_to_version (pi_type p))\<rparr>"

definition priced :: "pool_info \<Rightarrow> bool" where
  "priced p \<longleftrightarrow> pool_type_to_version (pi_type p) \<noteq> None"

definition liquidity_of :: "web \<Rightarrow> string \<Rightarrow> pool_info \<Rightarrow> u256" where
  "liquidity_of W token p = (if priced p then opt_or 0 (pool_token_liquidity_metric W p token) else 0)"

definition deepest :: "web \<Rightarrow> string \<Rightarrow> pool_info list \<Rightarrow> pool_info option" where
  "deepest W token ps = find (\<lambda>p. priced p \<and> (\<forall>q \<in> set ps. liquidity_of W token q \<le> liquidity_of W token p)) ps"

lemma find_over_append: "find P (xs @ ys) = (case find P xs of None \<Rightarrow> find P ys | Some x \<Rightarrow> Some x)"
  by (induction xs) auto

lemma deepest_is_first:
  assumes "deepest W token ps = Some t" "liquidity_of W token t = 0"
  shows "find priced ps = Some t"
proof -
  have "\<forall>q \<in> set ps. liquidity_of W token q = 0"
    using assms find_Some_in [OF assms(1) [unfolded deepest_def]] by (metis word_le_0_iff)
  then have "find priced ps = deepest W token ps"
    unfolding deepest_def by (intro find_cong) auto
  then show ?thesis using assms(1) by simp
qed

lemma deepest_exists:
  assumes "p \<in> set ps" "priced p"
  shows "deepest W token ps \<noteq> None"
proof -
  let ?S = "liquidity_of W token ` set (filter priced ps)"
  have "finite ?S" "?S \<noteq> {}" using assms by auto
  then have "Max ?S \<in> ?S" by (rule Max_in)
  then obtain t where t: "t \<in> set ps" "priced t" "liquidity_of W token t = Max ?S" by auto
  have "liquidity_of W token q \<le> liquidity_of W token t" if "q \<in> set ps" for q
  proof (cases "priced q")
    case True
    then show ?thesis using that t(3) \<open>finite ?S\<close> by simp
  qed (simp add: liquidity_of_def)
  then show ?thesis using t unfolding deepest_def find_None_iff by blast
qed

lemma deepest_snoc:
  "deepest W token (ps @ [p]) =
     (if \<not> priced p then deepest W token ps
      else case deepest W token ps of
        None \<Rightarrow> Some p
      | Some t \<Rightarrow> if liquidity_of W token p \<le> liquidity_of W token t then Some t else Some p)"
proof -
  let ?l = "liquidity_of W token"
  have none: "deepest W token ps = None \<Longrightarrow> \<not> priced q" if "q \<in> set ps" for q
    using deepest_exists that by blast
  have zero: "\<not> priced q \<Longrightarrow> ?l q = 0" for q by (simp add: liquidity_of_def)
  show ?thesis
  proof (cases "deepest W token ps")
    case None
    then have "find (\<lambda>q. priced q \<and> (\<forall>r \<in> set (ps @ [p]). ?l r \<le> ?l q)) ps = None"
      using none by (auto simp: find_None_iff)
    then show ?thesis using None none zero by (auto simp: deepest_def find_over_append)
  next
    case (Some t)
    have t: "t \<in> set ps" "priced t" "\<forall>r \<in> set ps. ?l r \<le> ?l t"
      using find_Some_in [OF Some [unfolded deepest_def]] by auto
    show ?thesis
    proof (cases "?l p \<le> ?l t")
      case True
      have "(priced q \<and> (\<forall>r \<in> set (ps @ [p]). ?l r \<le> ?l q)) = (priced q \<and> (\<forall>r \<in> set ps. ?l r \<le> ?l q))" if "q \<in> set ps" for q
        using True t(1) by auto
      then have "find (\<lambda>q. priced q \<and> (\<forall>r \<in> set (ps @ [p]). ?l r \<le> ?l q)) ps = deepest W token ps"
        unfolding deepest_def by (intro find_cong) auto
      then show ?thesis using Some True by (simp add: deepest_def find_over_append)
    next
      case False
      then have "priced p" using zero by (cases "priced p") auto
      have "find (\<lambda>q. priced q \<and> (\<forall>r \<in> set (ps @ [p]). ?l r \<le> ?l q)) ps = None"
        using False t(3) by (auto simp: find_None_iff)
      moreover have "\<forall>r \<in> set (ps @ [p]). ?l r \<le> ?l p" using False t(3) by auto
      ultimately show ?thesis using False Some \<open>priced p\<close> by (simp add: deepest_def find_over_append)
    qed
  qed
qed

text \<open>The state of the loop after a prefix.\<close>

definition best_of :: "web \<Rightarrow> string \<Rightarrow> pool_info list \<Rightarrow> (u256 \<times> oracle_pool) option" where
  "best_of W token ps =
     (case deepest W token ps of
        None \<Rightarrow> None
      | Some t \<Rightarrow> if liquidity_of W token t = 0 then None else Some (liquidity_of W token t, entry_of t))"

lemma choose_loop_deepest:
  "choose_loop W token pools (best_of W token ps) (map_option entry_of (find priced ps)) =
     map_option entry_of (deepest W token (ps @ pools))"
proof (induction pools arbitrary: ps)
  case Nil
  show ?case
  proof (cases "deepest W token ps")
    case None
    then have "find priced ps = None" using deepest_exists unfolding find_None_iff by blast
    then show ?thesis using None by (simp add: best_of_def)
  next
    case (Some t)
    then show ?thesis using deepest_is_first [OF Some] by (simp add: best_of_def)
  qed
next
  case (Cons p pools)
  have fall: "map_option entry_of (find priced (ps @ [p])) =
      (case map_option entry_of (find priced ps) of
         None \<Rightarrow> if priced p then Some (entry_of p) else None | Some e \<Rightarrow> Some e)"
    by (simp add: find_over_append split: option.splits)
  have IH: "choose_loop W token pools (best_of W token (ps @ [p])) (map_option entry_of (find priced (ps @ [p]))) =
      map_option entry_of (deepest W token (ps @ p # pools))"
    using Cons.IH [of "ps @ [p]"] by simp
  show ?case
  proof (cases "pool_type_to_version (pi_type p)")
    case None
    then have "\<not> priced p" by (simp add: priced_def)
    then have "best_of W token (ps @ [p]) = best_of W token ps" by (simp add: best_of_def deepest_snoc)
    moreover have "map_option entry_of (find priced (ps @ [p])) = map_option entry_of (find priced ps)"
      unfolding fall using \<open>\<not> priced p\<close> by (simp split: option.split)
    ultimately show ?thesis using IH None by simp
  next
    case (Some version)
    then have p: "priced p" "entry_of p = \<lparr>op_address = pi_address p, op_version = version\<rparr>"
      by (simp_all add: priced_def entry_of_def)
    have l: "liquidity_of W token p = opt_or 0 (pool_token_liquidity_metric W p token)" using p(1) by (simp add: liquidity_of_def)
    have step: "best_of W token (ps @ [p]) =
        (case pool_token_liquidity_metric W p token of
           None \<Rightarrow> best_of W token ps
         | Some metric \<Rightarrow>
             if metric = 0 then best_of W token ps
             else (case best_of W token ps of
                Some (best_metric, e) \<Rightarrow> if metric \<le> best_metric then Some (best_metric, e) else Some (metric, entry_of p)
              | None \<Rightarrow> Some (metric, entry_of p)))"
      using p(1) by (cases "deepest W token ps"; cases "pool_token_liquidity_metric W p token") (simp_all add: best_of_def deepest_snoc l)
    show ?thesis
      unfolding IH [symmetric] step fall
      by (simp add: Some p Let_def split: option.split prod.split)
  qed
qed

text \<open>the loop over the discovered pools chooses the first one, among those of a known type, whose liquidity in the
  token is the greatest; without a readable liquidity it falls back to the first pool of a known type.\<close>

theorem oracle_pool_choice:
  "choose_best_oracle_pool W pools token = map_option entry_of (deepest W token pools)"
  using choose_loop_deepest [of W token pools "[]"] by (simp add: choose_best_oracle_pool_def best_of_def deepest_def)

section \<open>The choice is remembered\<close>

lemma oracle_pool_round_trip: "oracle_pool_of_json (oracle_pool_json p) = Some p"
proof -
  have "unat (ucast (op_version p) :: u64) = unat (op_version p)"
    using unsigned_less [of "op_version p", where ?'a = nat] by (simp add: unsigned_ucast_eq take_bit_eq_mod)
  moreover have "ucast (ucast (op_version p) :: u64) = op_version p"
    by (rule ucast_up_ucast_id) (simp add: is_up source_size target_size)
  moreover have "unat (op_version p) \<le> 255" using unsigned_less [of "op_version p", where ?'a = nat] by simp
  ultimately show ?thesis
    by (simp add: oracle_pool_json_def oracle_pool_of_json_def j_field_def j_num_def opt_bind_def)
qed

text \<open>with a Redis that works, a pool found by a discovery is answered from the cache the next time, without any
  further remote call, as long as its address and version pass the check of the reader.\<close>

theorem resolved_pool_remembered:
  assumes found: "resolve_cached_oracle_pool E W chain token force_refresh s = (Inr (pool, False), t)"
    and redis: "\<forall>n. \<not> redis_fails E n" and ok: "usable_entry (lib_of E) pool"
    and shown: "\<forall>p. json_parse (lib_of E) (json_show (lib_of E) (oracle_pool_json p)) = Some (oracle_pool_json p)"
    and later: "redis_keys u = redis_keys t"
  shows "resolve_cached_oracle_pool E W chain token False u = (Inr (pool, True), u\<lparr>calls := Suc (calls u)\<rparr>)"
proof -
  let ?key = "token_pool_cache_key chain token"
  obtain w where "(redis_set E ?key (json_show (lib_of E) (oracle_pool_json pool)) :: (world, http, unit) rt) w = (Inr (), t)"
    using found unfolding resolve_cached_oracle_pool_def Let_def
    by (auto simp: rbind_Inr_iff split: option.splits)
  then have "map_of (redis_keys t) ?key = Some (json_show (lib_of E) (oracle_pool_json pool))"
    using redis by (auto simp: redis_set_def update_conv')
  then show ?thesis
    using redis ok shown later
    by (simp add: resolve_cached_oracle_pool_def rbind_def redis_get_def ret_def cached_entry_def oracle_pool_round_trip opt_bind_def Let_def)
qed

section \<open>An instance\<close>

text \<open>The text of a pool is its version, as a character, and its address.\<close>

definition pool_text :: "json \<Rightarrow> string" where
  "pool_text j = (case oracle_pool_of_json j of None \<Rightarrow> [] | Some p \<Rightarrow> char_of (unat (op_version p)) # op_address p)"

definition text_pool :: "string \<Rightarrow> json option" where
  "text_pool s = (case s of [] \<Rightarrow> None | c # a \<Rightarrow> Some (oracle_pool_json \<lparr>op_address = a, op_version = word_of_nat (of_char c)\<rparr>))"

definition price_lib :: lib where
  "price_lib = sample_lib\<lparr>json_show := pool_text, json_parse := text_pool\<rparr>"

definition price_env :: env where
  "price_env = sample_env\<lparr>lib_of := price_lib\<rparr>"

definition price_web :: web where
  "price_web =
     \<lparr>pw_hash = (\<lambda>p n. None), pw_check = (\<lambda>p h. None), jwt_seal = (\<lambda>j key. None), jwt_open = (\<lambda>token key tm. None),
      totp_ok = (\<lambda>secret issuer account. True), totp_check = (\<lambda>secret c n. None), totp_url = (\<lambda>secret account. account),
      totp_qr = (\<lambda>secret account. None), secret_text = (\<lambda>secret. []), mailbox_ok = (\<lambda>to. False),
      u256_from_str = sample_u256_radix 10, eth_call_reply = (\<lambda>url to data n. Inr (JObj [])),
      log10_of = (\<lambda>x. Fin 0), power_of_10 = (\<lambda>x. Fin 1), header_value_ok = (\<lambda>s. True)\<rparr>"

definition price_pool :: oracle_pool where
  "price_pool = \<lparr>op_address = ''0x00000000000000000000000000000000000000aa'', op_version = 2\<rparr>"

lemma price_lib_law: "json_parse (lib_of price_env) (json_show (lib_of price_env) (oracle_pool_json p)) = Some (oracle_pool_json p)"
proof -
  have "unat (op_version p) < 256" using unsigned_less [of "op_version p", where ?'a = nat] by simp
  then have "of_char (char_of (unat (op_version p)) :: char) = unat (op_version p)" by simp
  then show ?thesis
    by (cases p) (simp add: price_env_def price_lib_def pool_text_def text_pool_def oracle_pool_round_trip)
qed

lemma price_env_parts:
  "cfg price_env = sample_settings" "lib_of price_env = price_lib" "node_of price_env = sample_node"
  "grpc_down price_env n = None" "redis_fails price_env n = False"
  by (simp_all add: price_env_def sample_env_parts)

lemma enrich_keeps: "dp_address (enrich prices p) = dp_address p" "dp_type (enrich prices p) = dp_type p"
  by (simp_all add: enrich_def Let_def)

lemma price_discovered:
  "\<exists>p t. discover_pools price_env ''http://node'' ''bsc'' ''0x0000000000000000000000000000000000000001'' s = (Inr [p], t) \<and>
     dp_address p = ''0x00000000000000000000000000000000000000aa'' \<and> dp_type p = V2"
proof -
  have conf: "dex_factories_for_chain sample_settings ''bsc'' = cc_dex_factories sample_chain"
    "base_tokens_for_chain sample_settings ''bsc'' = [''0x0000000000000000000000000000000000000002'']"
    "map_of (chain_entries sample_settings) ''bsc'' = Some sample_chain"
    by code_simp+
  have parse: "addr_parse price_lib ''0x0000000000000000000000000000000000000001'' = Some 1"
    "addr_parse price_lib ''0x0000000000000000000000000000000000000002'' = Some 2"
    "addr_parse price_lib ''0x00000000000000000000000000000000000000fa'' = Some 0xfa"
    "addr_parse price_lib ''0x0000000000000000000000000000000000000009'' = Some 9"
    "addr_debug price_lib 0xaa = ''0x00000000000000000000000000000000000000aa''"
    "eq_ic ''0x0000000000000000000000000000000000000002'' ''0x0000000000000000000000000000000000000001'' = False"
    by code_simp+
  show ?thesis
    by (simp add: discover_pools_def conf parse price_env_parts rbind_def of_result_def ok_or_def sample_chain_def
        discover_in_factory_def discover_with_base_def found_def attempt_def discover_v2_pool_def remote_def
        ret_def Let_def fetch_base_token_prices_def base_price_def sample_node_answers unique_pools_def enrich_keeps ok_def
        opt_bind_def)
qed

lemma price_resolved:
  "fst (resolve_cached_oracle_pool price_env price_web ''bsc'' ''0x0000000000000000000000000000000000000001'' False empty_world) =
     Inr (price_pool, False)"
proof -
  let ?token = "''0x0000000000000000000000000000000000000001''"
  obtain p t where run: "discover_pools price_env ''http://node'' ''bsc'' ?token (empty_world\<lparr>calls := 3\<rparr>) = (Inr [p], t)"
    and p: "dp_address p = ''0x00000000000000000000000000000000000000aa''" "dp_type p = V2"
    using price_discovered [of "empty_world\<lparr>calls := 3\<rparr>"] by blast
  have conf: "normalize_token_for_chain sample_settings ''bsc'' ?token = ?token"
    "sa_evm_rpc_url (session_api sample_settings) = ''http://node''" "url_ok price_lib ''http://node''"
    by code_simp+
  have "priced (pool_info_of price_env ?token p)" "entry_of (pool_info_of price_env ?token p) = price_pool"
    using p by (simp_all add: priced_def entry_of_def pool_info_of_def pool_type_to_version_def show_pool_type_def price_pool_def) code_simp+
  then have chosen: "choose_best_oracle_pool price_web [pool_info_of price_env ?token p] ?token = Some price_pool"
    unfolding oracle_pool_choice by (simp add: deepest_def)
  have "redis_keys empty_world = []" "calls empty_world = 0" by (simp_all add: empty_world_def)
  then show ?thesis
    using run chosen
    by (simp add: resolve_cached_oracle_pool_def Let_def rbind_def redis_get_def cached_entry_def opt_bind_def ret_def
        connect_def ask_def price_env_parts or_http_def map_err_def grpc_def discover_pools_rpc_def conf status_err_def
        need_def ok_or_def of_result_def redis_set_def numeral_eq_Suc)
qed

lemma price_usable: "usable_entry (lib_of price_env) price_pool"
  by code_simp

theorem resolved_pool_remembered_witness:
  "\<exists>t. resolve_cached_oracle_pool price_env price_web ''bsc'' ''0x0000000000000000000000000000000000000001'' False empty_world =
      (Inr (price_pool, False), t) \<and>
    resolve_cached_oracle_pool price_env price_web ''bsc'' ''0x0000000000000000000000000000000000000001'' False t =
      (Inr (price_pool, True), t\<lparr>calls := Suc (calls t)\<rparr>)"
proof -
  obtain t where found: "resolve_cached_oracle_pool price_env price_web ''bsc'' ''0x0000000000000000000000000000000000000001''
      False empty_world = (Inr (price_pool, False), t)"
    using price_resolved by (metis prod.collapse)
  have redis: "\<forall>n. \<not> redis_fails price_env n" by (simp add: price_env_def sample_env_parts)
  have shown: "\<forall>p. json_parse (lib_of price_env) (json_show (lib_of price_env) (oracle_pool_json p)) = Some (oracle_pool_json p)"
    using price_lib_law by blast
  show ?thesis using found resolved_pool_remembered [OF found redis price_usable shown refl] by blast
qed

end
