(* ===== verification/Gateway.thy ===== *)
theory Gateway
  imports PriceCache Sessions
begin

text \<open>
  The routes of the gateway to the wallet service and the session service, and its listings
  (\<open>crates/api-gateway/src/routes.rs\<close>).  A handler here ends in \<open>_route\<close> where the service behind it has
  an operation of the same name.  A body that serde cannot read never reaches a handler.  In an ordering by
  text the database is taken to compare bytes.
\<close>

section \<open>Values\<close>

definition j_int :: "int \<Rightarrow> json" where
  "j_int i = (if 0 \<le> i then JPos (of_int i) else JNeg i)"

definition j_u32 :: "u32 \<Rightarrow> json" where
  "j_u32 n = JPos (ucast n)"

text \<open>The text of a \<open>NUMERIC\<close> with two decimals.\<close>

definition numeric_text :: "rat \<Rightarrow> string" where
  "numeric_text x =
     (let c = \<lfloor>\<bar>x\<bar> * 100\<rfloor>; n = nat (c div 100); f = nat (c mod 100) in
      (if x < 0 then ''-'' else []) @ show_nat n @ ''.'' @ show_nat (f div 10) @ show_nat (f mod 10))"

definition display :: "env \<Rightarrow> string \<Rightarrow> string \<Rightarrow> json" where
  "display E chain token = JStr (display_token_for_chain (cfg E) chain token)"

definition pool_json :: "env \<Rightarrow> string \<Rightarrow> pool_info \<Rightarrow> json" where
  "pool_json E chain p =
     JObj [(''pool_address'', JStr (pi_address p)), (''pool_type'', JStr (pi_type p)), (''dex_name'', JStr (pi_dex p)),
       (''token0'', display E chain (pi_token0 p)), (''token1'', display E chain (pi_token1 p)),
       (''fee_tier'', j_u32 (pi_fee p)), (''reserve0'', JStr (pi_reserve0 p)), (''reserve1'', JStr (pi_reserve1 p)),
       (''liquidity'', JStr (pi_liquidity p)), (''balance0'', JStr (pi_balance0 p)), (''balance1'', JStr (pi_balance1 p)),
       (''token0_price_usd'', f_json (pi_price0 p)), (''token1_price_usd'', f_json (pi_price1 p)),
       (''swap_path_json'', JStr (pi_path_json p))]"

definition session_info_to_json :: "env \<Rightarrow> session_info \<Rightarrow> json" where
  "session_info_to_json E s =
     JObj [(''session_id'', JStr (si_id s)), (''user_id'', JStr (si_user s)), (''wallet_id'', JStr (si_wallet s)),
       (''chain'', JStr (si_chain s)), (''status'', JStr (si_status s)),
       (''sell_token'', display E (si_chain s) (si_sell_token s)), (''sell_token_symbol'', JStr (si_sell_symbol s)),
       (''sell_token_decimals'', j_u32 (si_sell_decimals s)),
       (''target_token'', display E (si_chain s) (si_target_token s)), (''target_token_symbol'', JStr (si_target_symbol s)),
       (''target_token_decimals'', j_u32 (si_target_decimals s)), (''strategy'', JStr (si_strategy s)),
       (''total_amount'', JStr (si_total s)), (''amount_sold'', JStr (si_sold s)), (''pov_percent'', f_json (si_pov s)),
       (''max_price_impact'', f_json (si_impact s)), (''min_buy_trigger_usd'', f_json (si_trigger s)),
       (''min_market_cap_usd'', f_json (si_mcap s)), (''swap_path_json'', JStr (si_path_json s)),
       (''public_slug'', JStr (si_slug s)), (''public_sharing_enabled'', JBool (si_sharing s)),
       (''created_at'', JStr (si_created s)), (''updated_at'', JStr (si_updated s)),
       (''pools'', JArr (map (pool_json E (si_chain s)) (si_pools s)))]"

definition path_json :: "env \<Rightarrow> string \<Rightarrow> swap_path \<Rightarrow> json" where
  "path_json E chain p =
     JObj [(''rank'', j_u32 (sw_rank p)), (''hops'', JArr (map JStr (sw_hops p))),
       (''hop_tokens'', JArr (map (display E chain) (sw_hop_tokens p))), (''estimated_output'', JStr (sw_output p)),
       (''estimated_price_impact'', f_json (sw_impact p)), (''fee_percent'', f_json (sw_fee p))]"

text \<open>How the status of a gRPC call becomes one of HTTP.\<close>

definition missing_or_failed :: "(world, status, 'a) rt \<Rightarrow> (world, http, 'a) rt" where
  "missing_or_failed m = map_err (\<lambda>e. if fst e = NotFound then Not_Found else Server_Error) m"

fun balance_status :: "grpc_code \<Rightarrow> http" where
  "balance_status InvalidArgument = Bad_Request"
| "balance_status NotFound = Not_Found"
| "balance_status FailedPrecondition = Bad_Request"
| "balance_status Unavailable = Service_Unavailable"
| "balance_status PermissionDenied = Server_Error"
| "balance_status Internal = Server_Error"

section \<open>Wallets\<close>

definition create_wallet_route :: "env \<Rightarrow> auth_user \<Rightarrow> string option \<Rightarrow> (world, http, json) rt" where
  "create_wallet_route E user chain =
     rbind (connect E) (\<lambda>_.
     rbind (or_http Server_Error (with_kms E (\<lambda>master.
       create_wallet E master (uuid_show (lib_of E) (au_id user)) (opt_or ''bsc'' chain)))) (\<lambda>(wallet_id, address).
     ret (JObj [(''wallet_id'', JStr wallet_id), (''address'', JStr address)])))"

text \<open>The export for a named owner, behind the second factor of the caller.\<close>

definition export_for :: "env \<Rightarrow> web \<Rightarrow> auth_user \<Rightarrow> string \<Rightarrow> string \<Rightarrow> string option \<Rightarrow> (world, http, json) rt" where
  "export_for E W user owner wallet_id totp_code =
     rbind (confirm_2fa E W user totp_code) (\<lambda>_.
     rbind (connect E) (\<lambda>_.
     rbind (or_http Server_Error (with_kms E (\<lambda>master. export_private_key E master wallet_id owner))) (\<lambda>(private_key, address).
     ret (JObj [(''private_key'', JStr private_key), (''address'', JStr address)]))))"

definition export_wallet :: "env \<Rightarrow> web \<Rightarrow> auth_user \<Rightarrow> string \<Rightarrow> string option \<Rightarrow> (world, http, json) rt" where
  "export_wallet E W user wallet_id totp_code =
     export_for E W user (uuid_show (lib_of E) (au_id user)) wallet_id totp_code"

definition admin_export_user_wallet ::
  "env \<Rightarrow> web \<Rightarrow> auth_user \<Rightarrow> string \<Rightarrow> string \<Rightarrow> string option \<Rightarrow> (world, http, json) rt" where
  "admin_export_user_wallet E W user target_user_id wallet_id totp_code =
     (if \<not> is_admin user then fail Forbidden else export_for E W user target_user_id wallet_id totp_code)"

definition wallet_json :: "wallet_info \<Rightarrow> json" where
  "wallet_json w = JObj [(''wallet_id'', JStr (wi_id w)), (''address'', JStr (wi_address w)),
     (''chain'', JStr (wi_chain w)), (''created_at'', JStr (wi_created w))]"

definition wallets_of :: "env \<Rightarrow> uuid \<Rightarrow> (world, http, json) rt" where
  "wallets_of E i =
     rbind (connect E) (\<lambda>_.
     rbind (or_http Server_Error (grpc E (list_wallets E (uuid_show (lib_of E) i)))) (\<lambda>ws.
     ret (JObj [(''wallets'', JArr (map wallet_json ws))])))"

definition list_wallets_route :: "env \<Rightarrow> auth_user \<Rightarrow> (world, http, json) rt" where
  "list_wallets_route E user = wallets_of E (au_id user)"

definition admin_get_user_wallets :: "env \<Rightarrow> auth_user \<Rightarrow> string \<Rightarrow> (world, http, json) rt" where
  "admin_get_user_wallets E user target_user_id =
     (if \<not> is_admin user then fail Forbidden
      else rbind (need Bad_Request (uuid_parse (lib_of E) target_user_id)) (\<lambda>target_id. wallets_of E target_id))"

definition get_balance_route :: "env \<Rightarrow> string \<Rightarrow> string \<Rightarrow> string \<Rightarrow> (world, http, json) rt" where
  "get_balance_route E wallet_id token rpc_url =
     rbind (connect E) (\<lambda>_.
     let token_address = (if is_native_token_placeholder token then normalize_token_for_chain (cfg E) ''bsc'' token else token) in
     rbind (map_err (\<lambda>e. balance_status (fst e)) (grpc E (get_balance E wallet_id token_address rpc_url))) (\<lambda>(balance, decimals).
     ret (JObj [(''balance'', JStr balance), (''decimals'', j_u32 decimals)])))"

section \<open>Sessions\<close>

definition validate_pool_swap_path_json :: "lib \<Rightarrow> string \<Rightarrow> string \<Rightarrow> bool" where
  "validate_pool_swap_path_json L path pool_address =
     (let trimmed = trim path in
      if trimmed = [] then False
      else
        (case json_parse L trimmed of
           None \<Rightarrow> False
         | Some v \<Rightarrow>
             (case opt_bind (j_get ''hops'' v) j_array of
                None \<Rightarrow> False
              | Some [] \<Rightarrow> False
              | Some (h # hops) \<Rightarrow>
                  (case j_str h of
                     None \<Rightarrow> False
                   | Some first_hop \<Rightarrow>
                       if \<not> eq_ic first_hop pool_address then False
                       else
                         (case opt_bind (j_get ''hop_tokens'' v) j_array of
                            None \<Rightarrow> False
                          | Some hop_tokens \<Rightarrow> length hop_tokens = length (h # hops) + 1)))))"

record session_body =
  sb_wallet :: string
  sb_chain :: string
  sb_sell_token :: string
  sb_sell_symbol :: string
  sb_sell_decimals :: u32
  sb_target_token :: string
  sb_target_symbol :: string
  sb_target_decimals :: u32
  sb_total :: string
  sb_pov :: f64
  sb_impact :: f64
  sb_trigger :: f64
  sb_mcap :: f64
  sb_path_json :: "string option"
  sb_pools :: "pool_info list option"

definition wallet_owner :: "env \<Rightarrow> string \<Rightarrow> world \<Rightarrow> (err + uuid option) \<times> world" where
  "wallet_owner E wallet_id s =
     (case uuid_parse (lib_of E) wallet_id of
        None \<Rightarrow> (Inl ''invalid input syntax for type uuid'', s)
      | Some i \<Rightarrow> (Inr (map_option w_user (wallet_by_id i s)), s))"

text \<open>For whom the session is created: an administrator acts for the owner of the wallet.\<close>

definition session_owner :: "env \<Rightarrow> auth_user \<Rightarrow> string \<Rightarrow> (world, http, uuid) rt" where
  "session_owner E user wallet_id =
     (if is_admin user then
        rbind (or_http Server_Error (sql E (wallet_owner E wallet_id))) (\<lambda>row. need Not_Found row)
      else ret (au_id user))"

definition grpc_pool :: "env \<Rightarrow> string \<Rightarrow> pool_info \<Rightarrow> pool_info" where
  "grpc_pool E chain p =
     p\<lparr>pi_token0 := normalize_token_for_chain (cfg E) chain (pi_token0 p),
       pi_token1 := normalize_token_for_chain (cfg E) chain (pi_token1 p)\<rparr>"

definition session_request :: "env \<Rightarrow> session_body \<Rightarrow> pool_info list \<Rightarrow> uuid \<Rightarrow> create_session_request" where
  "session_request E body pools owner =
     \<lparr>cs_user = uuid_show (lib_of E) owner, cs_wallet = sb_wallet body, cs_chain = sb_chain body,
      cs_sell_token = normalize_token_for_chain (cfg E) (sb_chain body) (sb_sell_token body),
      cs_sell_symbol = sb_sell_symbol body, cs_sell_decimals = sb_sell_decimals body,
      cs_target_token = normalize_token_for_chain (cfg E) (sb_chain body) (sb_target_token body),
      cs_target_symbol = sb_target_symbol body, cs_target_decimals = sb_target_decimals body,
      cs_strategy = ''pov'', cs_total = sb_total body, cs_pov = sb_pov body, cs_impact = sb_impact body,
      cs_trigger = sb_trigger body, cs_path_json = opt_or [] (sb_path_json body),
      cs_pools = map (grpc_pool E (sb_chain body)) pools, cs_mcap = sb_mcap body\<rparr>"

definition max_u128 :: nat where
  "max_u128 = 340282366920938463463374607431768211455"

text \<open>The balance must cover the amount; a balance that does not fit counts as nothing.\<close>

definition check_balance :: "env \<Rightarrow> session_body \<Rightarrow> (world, http, unit) rt" where
  "check_balance E body =
     rbind (connect E) (\<lambda>_.
     rbind (or_http Server_Error (grpc E (get_balance E (sb_wallet body)
       (normalize_token_for_chain (cfg E) (sb_chain body) (sb_sell_token body)) []))) (\<lambda>(balance, _).
     let wallet_balance = opt_or 0 (parse_unsigned max_u128 balance) in
     rbind (need Bad_Request (parse_unsigned max_u128 (sb_total body))) (\<lambda>requested_amount.
     if wallet_balance < requested_amount then fail Bad_Request else ret ())))"

definition create_session_route :: "env \<Rightarrow> auth_user \<Rightarrow> session_body \<Rightarrow> (world, http, json) rt" where
  "create_session_route E user body =
     rbind (connect E) (\<lambda>_.
     let pools = opt_or [] (sb_pools body) in
     if pools = [] then fail Bad_Request
     else if list_ex (\<lambda>p. \<not> validate_pool_swap_path_json (lib_of E) (pi_path_json p) (pi_address p)) pools
     then fail Bad_Request
     else
       rbind (check_balance E body) (\<lambda>_.
       rbind (session_owner E user (sb_wallet body)) (\<lambda>owner.
       rbind (or_http Server_Error (grpc E (create_session E (session_request E body pools owner)))) (\<lambda>resp.
       ret (session_info_to_json E resp)))))"

definition list_sessions_route :: "env \<Rightarrow> auth_user \<Rightarrow> (world, http, json) rt" where
  "list_sessions_route E user =
     rbind (connect E) (\<lambda>_.
     rbind (or_http Server_Error (grpc E (list_sessions E (if is_admin user then [] else uuid_show (lib_of E) (au_id user))))) (\<lambda>ss.
     ret (JObj [(''sessions'', JArr (map (session_info_to_json E) ss))])))"

definition may_access :: "auth_user \<Rightarrow> session_row \<Rightarrow> bool" where
  "may_access user r \<longleftrightarrow> is_admin user \<or> s_user r = au_id user"

definition ensure_session_access :: "env \<Rightarrow> auth_user \<Rightarrow> string \<Rightarrow> (world, http, unit) rt" where
  "ensure_session_access E user session_id =
     rbind (need Bad_Request (uuid_parse (lib_of E) session_id)) (\<lambda>i.
     rbind (or_http Server_Error (query E (\<lambda>s. list_ex (\<lambda>r. s_id r = i \<and> may_access user r) (sessions s)))) (\<lambda>allowed.
     if allowed then ret () else fail Not_Found))"

text \<open>A call of the session service whose answer is a session.\<close>

definition session_answer :: "env \<Rightarrow> (world, status, session_info) rt \<Rightarrow> (world, http, json) rt" where
  "session_answer E call =
     rbind (connect E) (\<lambda>_.
     rbind (missing_or_failed (grpc E call)) (\<lambda>resp.
     ret (session_info_to_json E resp)))"

definition get_session_route :: "env \<Rightarrow> auth_user \<Rightarrow> string \<Rightarrow> (world, http, json) rt" where
  "get_session_route E user session_id =
     rbind (ensure_session_access E user session_id) (\<lambda>_. session_answer E (get_session E session_id))"

definition update_session_config_route ::
  "env \<Rightarrow> auth_user \<Rightarrow> string \<Rightarrow> f64 \<Rightarrow> f64 \<Rightarrow> f64 \<Rightarrow> f64 \<Rightarrow> (world, http, json) rt" where
  "update_session_config_route E user session_id pov impact trigger mcap =
     (if \<not> is_admin user then fail Forbidden
      else
        rbind (ensure_session_access E user session_id) (\<lambda>_.
        session_answer E (update_session_config E session_id pov impact trigger mcap)))"

definition toggle_public_sharing_route :: "env \<Rightarrow> auth_user \<Rightarrow> string \<Rightarrow> bool \<Rightarrow> (world, http, json) rt" where
  "toggle_public_sharing_route E user session_id enabled =
     rbind (ensure_session_access E user session_id) (\<lambda>_.
     session_answer E (toggle_public_sharing E session_id enabled))"

definition get_session_by_slug_route :: "env \<Rightarrow> string \<Rightarrow> (world, http, json) rt" where
  "get_session_by_slug_route E slug = session_answer E (get_session_by_slug E slug)"

section \<open>Pools and paths\<close>

definition get_swap_paths_route :: "env \<Rightarrow> string \<Rightarrow> string \<Rightarrow> string \<Rightarrow> string \<Rightarrow> (world, http, json) rt" where
  "get_swap_paths_route E chain sell_token target_token amount =
     rbind (connect E) (\<lambda>_.
     rbind (or_http Server_Error (grpc E (get_swap_paths E chain (normalize_token_for_chain (cfg E) chain sell_token)
       (normalize_token_for_chain (cfg E) chain target_token) amount))) (\<lambda>paths.
     ret (JObj [(''paths'', JArr (map (path_json E chain) paths))])))"

definition discover_pools_route :: "env \<Rightarrow> string \<Rightarrow> string \<Rightarrow> (world, http, json) rt" where
  "discover_pools_route E chain token_address =
     rbind (connect E) (\<lambda>_.
     rbind (or_http Server_Error (grpc E (discover_pools_rpc E chain (normalize_token_for_chain (cfg E) chain token_address)))) (\<lambda>pools.
     ret (JObj [(''pools'', JArr (map (pool_json E chain) pools))])))"

definition compute_pool_path_route :: "env \<Rightarrow> path_cache \<Rightarrow> pool_path_request \<Rightarrow> (world, http, json \<times> path_cache) rt" where
  "compute_pool_path_route E cache body =
     (let norm = normalize_token_for_chain (cfg E) (pq_chain body) in
      rbind (or_http Bad_Gateway (connect E)) (\<lambda>_.
      rbind (or_http Server_Error (grpc E (compute_pool_path E cache (body\<lparr>pq_sell := norm (pq_sell body),
        pq_target := norm (pq_target body), pq_token0 := norm (pq_token0 body), pq_token1 := norm (pq_token1 body)\<rparr>)))) (\<lambda>(path, cache').
      ret (JObj [(''path'', case path of None \<Rightarrow> JNull | Some p \<Rightarrow> path_json E (pq_chain body) p)], cache'))))"

section \<open>Trades\<close>

fun show_trade_status :: "trade_status \<Rightarrow> string" where
  "show_trade_status T_Submitted = ''submitted''"
| "show_trade_status T_Confirmed = ''confirmed''"
| "show_trade_status T_Failed = ''failed''"
| "show_trade_status T_Routing = ''routing''"

definition clamp_trades_limit :: "int \<Rightarrow> int" where
  "clamp_trades_limit limit = max 1 (min 200 limit)"

definition trade_time :: "trade_row \<Rightarrow> int" where
  "trade_time t = opt_or (t_created t) (t_executed t)"

text \<open>No statement ever sets \<open>route_tx_hash\<close>, so it is null and the trigger is next.\<close>

definition trade_tx_hash :: "trade_row \<Rightarrow> string" where
  "trade_tx_hash t = (case t_sell_tx t of Some h \<Rightarrow> if h = [] then t_trigger_tx t else h | None \<Rightarrow> t_trigger_tx t)"

definition trade_json :: "lib \<Rightarrow> trade_row \<Rightarrow> json" where
  "trade_json L t =
     JObj [(''trade_id'', JStr (uuid_show L (t_id t))), (''session_id'', JStr (uuid_show L (t_session t))),
       (''chain'', JStr (t_chain t)), (''status'', JStr (show_trade_status (t_status t))),
       (''sell_amount'', JStr (show_int (t_sell_amount t))),
       (''received_amount'', JStr (show_int (opt_or 0 (t_received t)))), (''tx_hash'', JStr (trade_tx_hash t)),
       (''price_impact_bps'', j_int (sint (t_impact t))),
       (''market_cap_usd'', opt_str (map_option numeric_text (t_mcap t))), (''failure_reason'', opt_str (t_failure t)),
       (''executed_at'', JStr (time_show L (trade_time t)))]"

text \<open>The trades of the sessions that a condition selects; the session of a trade exists and is unique.\<close>

definition trades_where :: "(session_row \<Rightarrow> bool) \<Rightarrow> world \<Rightarrow> trade_row list" where
  "trades_where P s = filter (\<lambda>t. list_ex (\<lambda>r. s_id r = t_session t \<and> P r) (sessions s)) (trades s)"

definition total_received :: "(session_row \<Rightarrow> bool) \<Rightarrow> world \<Rightarrow> string" where
  "total_received P s =
     show_int (sum_list (map (\<lambda>t. opt_or 0 (t_received t)) (filter (\<lambda>t. t_status t = T_Confirmed) (trades_where P s))))"

definition latest_trades :: "(session_row \<Rightarrow> bool) \<Rightarrow> int \<Rightarrow> world \<Rightarrow> trade_row list" where
  "latest_trades P limit s = take (nat limit) (sort_key (\<lambda>t. - trade_time t) (trades_where P s))"

definition trades_answer :: "env \<Rightarrow> (session_row \<Rightarrow> bool) \<Rightarrow> int \<Rightarrow> (world, http, json) rt" where
  "trades_answer E P limit =
     rbind (or_http Server_Error (query E (total_received P))) (\<lambda>total_received_raw.
     rbind (or_http Server_Error (query E (latest_trades P limit))) (\<lambda>rows.
     ret (JObj [(''trades'', JArr (map (trade_json (lib_of E)) rows)), (''total_received'', JStr total_received_raw)])))"

definition get_session_trades :: "env \<Rightarrow> auth_user \<Rightarrow> string \<Rightarrow> int \<Rightarrow> (world, http, json) rt" where
  "get_session_trades E user session_id limit =
     rbind (need Bad_Request (uuid_parse (lib_of E) session_id)) (\<lambda>i.
     trades_answer E (\<lambda>r. s_id r = i \<and> may_access user r) (clamp_trades_limit limit))"

definition get_public_session_trades :: "env \<Rightarrow> string \<Rightarrow> int \<Rightarrow> (world, http, json) rt" where
  "get_public_session_trades E slug limit =
     trades_answer E (\<lambda>r. s_slug r = Some slug \<and> s_sharing r) (clamp_trades_limit limit)"

section \<open>Listings\<close>

definition wallets_owned :: "uuid \<Rightarrow> world \<Rightarrow> wallet_row list" where
  "wallets_owned i s = filter (\<lambda>w. w_user w = i) (wallets s)"

definition sessions_on :: "wallet_row list \<Rightarrow> world \<Rightarrow> session_row list" where
  "sessions_on ws s = filter (\<lambda>r. list_ex (\<lambda>w. w_id w = s_wallet r) ws) (sessions s)"

definition admin_list_users :: "env \<Rightarrow> auth_user \<Rightarrow> (world, http, json) rt" where
  "admin_list_users E user =
     (let L = lib_of E in
      if \<not> is_admin user then fail Forbidden
      else
        rbind (or_http Server_Error (query E (\<lambda>s. map (\<lambda>u. let ws = wallets_owned (u_id u) s in
            (u, length ws, length (sessions_on ws s))) (sort_key (\<lambda>u. - u_created u) (users s))))) (\<lambda>rows.
        ret (JObj [(''users'', JArr (map (\<lambda>(u, nw, ns). JObj [(''user_id'', JStr (uuid_show L (u_id u))),
          (''email'', JStr (u_email u)), (''username'', opt_str (u_username u)), (''role'', JStr (show_role (u_role u))),
          (''email_verified'', JBool (u_email_verified u)), (''totp_enabled'', JBool (u_totp_enabled u)),
          (''wallet_count'', j_int (int nw)), (''session_count'', j_int (int ns)),
          (''created_at'', JStr (time_show L (u_created u)))]) rows))])))"

definition admin_list_all_wallets :: "env \<Rightarrow> auth_user \<Rightarrow> (world, http, json) rt" where
  "admin_list_all_wallets E user =
     (let L = lib_of E in
      if \<not> is_admin user then fail Forbidden
      else
        rbind (or_http Server_Error (query E (\<lambda>s.
            sort_key (\<lambda>(w, u). (u_username u = None, opt_or [] (u_username u), - w_created w))
              (List.map_filter (\<lambda>w. map_option (Pair w) (user_by_id (w_user w) s)) (wallets s))))) (\<lambda>rows.
        ret (JObj [(''wallets'', JArr (map (\<lambda>(w, u). JObj [(''wallet_id'', JStr (uuid_show L (w_id w))),
          (''address'', JStr (w_address w)), (''chain'', JStr (w_chain w)),
          (''created_at'', JStr (time_show L (w_created w))), (''owner_id'', JStr (uuid_show L (u_id u))),
          (''owner_name'', JStr (opt_or (u_email u) (u_username u)))]) rows))])))"

text \<open>The sessions on the wallets of a user, newest first, with the address of the wallet.\<close>

definition wallet_sessions :: "uuid \<Rightarrow> world \<Rightarrow> (session_row \<times> wallet_row) list" where
  "wallet_sessions i s =
     List.map_filter (\<lambda>r. map_option (Pair r) (find (\<lambda>w. w_id w = s_wallet r) (wallets_owned i s)))
       (sort_key (\<lambda>r. - s_created r) (sessions s))"

definition session_brief :: "lib \<Rightarrow> session_row \<Rightarrow> wallet_row \<Rightarrow> (string \<times> json) list" where
  "session_brief L r w =
     [(''session_id'', JStr (uuid_show L (s_id r))), (''status'', JStr (show_session_status (s_status r))),
      (''sell_token_symbol'', JStr (s_sell_symbol r)), (''target_token_symbol'', JStr (s_target_symbol r)),
      (''sell_token_decimals'', j_int (sint (s_sell_decimals r))), (''chain'', JStr (s_chain r)),
      (''total_amount'', JStr (show_int (s_total r))), (''amount_sold'', JStr (show_int (s_sold r))),
      (''pov_percent'', f_json (rnd (s_pov r))), (''wallet_address'', JStr (w_address w)),
      (''public_slug'', opt_str (s_slug r)), (''created_at'', JStr (time_show L (s_created r)))]"

definition admin_get_user_sessions :: "env \<Rightarrow> auth_user \<Rightarrow> string \<Rightarrow> (world, http, json) rt" where
  "admin_get_user_sessions E user target_user_id =
     (let L = lib_of E in
      if \<not> is_admin user then fail Forbidden
      else
        rbind (need Bad_Request (uuid_parse L target_user_id)) (\<lambda>target_id.
        rbind (or_http Server_Error (query E (wallet_sessions target_id))) (\<lambda>rows.
        ret (JObj [(''sessions'', JArr (map (\<lambda>(r, w). JObj (session_brief L r w @
          [(''target_token_decimals'', j_int (sint (s_target_decimals r))), (''strategy'', JStr (s_strategy r)),
           (''updated_at'', JStr (time_show L (s_updated r)))])) rows))]))))"

definition list_my_wallet_sessions :: "env \<Rightarrow> auth_user \<Rightarrow> (world, http, json) rt" where
  "list_my_wallet_sessions E user =
     rbind (or_http Server_Error (query E (wallet_sessions (au_id user)))) (\<lambda>rows.
     ret (JObj [(''sessions'', JArr (map (\<lambda>(r, w). JObj (session_brief (lib_of E) r w)) rows))]))"

definition my_deposits :: "uuid \<Rightarrow> world \<Rightarrow> deposit_row list" where
  "my_deposits i s =
     take 100 (sort_key (\<lambda>d. - d_created d) (filter (\<lambda>d. list_ex (\<lambda>w. w_id w = d_wallet d) (wallets_owned i s)) (deposits s)))"

definition list_my_deposits :: "env \<Rightarrow> auth_user \<Rightarrow> (world, http, json) rt" where
  "list_my_deposits E user =
     (let L = lib_of E in
      rbind (or_http Server_Error (query E (my_deposits (au_id user)))) (\<lambda>rows.
      ret (JObj [(''deposits'', JArr (map (\<lambda>d. JObj [(''deposit_id'', JStr (uuid_show L (d_id d))), (''chain'', JStr (d_chain d)),
        (''token_address'', JStr (d_token d)), (''from_address'', JStr (d_from d)), (''amount'', JStr (d_amount d)),
        (''tx_hash'', JStr (d_tx d)), (''block_number'', j_int (d_block d)), (''log_index'', j_int (sint (d_log d))),
        (''created_at'', JStr (time_show L (d_created d)))]) rows))])))"

definition list_chains :: "env \<Rightarrow> json" where
  "list_chains E =
     JObj [(''chains'', JArr (map (\<lambda>(name, c). JObj [(''name'', JStr name), (''chain_id'', JPos (cc_chain_id c))])
       (enabled_chains (chain_entries (cfg E)))))]"

definition get_platform_config :: "env \<Rightarrow> json" where
  "get_platform_config E =
     (let X = execution (cfg E) in
      JObj [(''min_deposit_amount_usd'', f_json (min_deposit_amount_usd X)), (''sell_token'', JStr (ex_sell_token X)),
        (''sell_token_symbol'', JStr (ex_sell_token_symbol X)), (''sell_token_decimals'', j_u32 (ex_sell_token_decimals X)),
        (''target_token'', JStr (ex_target_token X)), (''target_token_symbol'', JStr (ex_target_token_symbol X)),
        (''target_token_decimals'', j_u32 (ex_target_token_decimals X)), (''session_chain'', JStr (session_chain X)),
        (''pov_percent'', f_json (ex_pov_percent X)), (''session_max_price_impact'', f_json (session_max_price_impact X)),
        (''min_buy_trigger_percent'', f_json (min_buy_trigger_percent X))])"

section \<open>Frame\<close>

text \<open>All but three of these handlers only read.\<close>

context world_rel begin

lemma keeps_missing: "keeps R m \<Longrightarrow> keeps R (missing_or_failed m)"
  unfolding missing_or_failed_def by (rule keeps_map_err)

lemmas keeps_callers = keeps_confirm_2fa keeps_connect

lemma keeps_export_for: "keeps R (export_for E W user owner wallet_id totp_code)"
  unfolding export_for_def by (intro keeps_confirm_2fa keeps_with_kms keeps_export keeps_http)

lemma keeps_exports: "keeps R (export_wallet E W user wallet_id totp_code)"
    "keeps R (admin_export_user_wallet E W user target wallet_id totp_code)"
  unfolding export_wallet_def admin_export_user_wallet_def by (intro keeps_export_for keeps_http)+

lemma keeps_wallets_of: "keeps R (wallets_of E i)"
  unfolding wallets_of_def by (intro keeps_grpc keeps_list_wallets keeps_http)

lemma keeps_wallet_lists: "keeps R (list_wallets_route E user)" "keeps R (admin_get_user_wallets E user target)"
  unfolding list_wallets_route_def admin_get_user_wallets_def by (intro keeps_wallets_of keeps_http)+

lemma keeps_balance_route: "keeps R (get_balance_route E wallet_id token url)"
  unfolding get_balance_route_def Let_def by (intro keeps_grpc keeps_get_balance keeps_map_err keeps_http)

lemma keeps_check_balance: "keeps R (check_balance E body)"
  unfolding check_balance_def Let_def by (intro keeps_grpc keeps_get_balance keeps_http)

lemma keeps_session_owner: "keeps R (session_owner E user w)"
  unfolding session_owner_def
  by (intro keeps_sql keeps_http) (simp add: wallet_owner_def rel_refl split: option.split)

lemma keeps_session_answer: "keeps R call \<Longrightarrow> keeps R (session_answer E call)"
  unfolding session_answer_def by (intro keeps_missing keeps_grpc keeps_http)

lemma keeps_access: "keeps R (ensure_session_access E user session_id)"
  unfolding ensure_session_access_def by (intro keeps_http)

lemma keeps_session_reads:
  "keeps R (list_sessions_route E user)" "keeps R (get_session_route E user session_id)" "keeps R (get_session_by_slug_route E slug)"
  unfolding list_sessions_route_def get_session_route_def get_session_by_slug_route_def
  by (intro keeps_session_answer keeps_access keeps_get_session keeps_by_slug keeps_list_sessions keeps_grpc keeps_http)+

lemma keeps_pool_routes:
  "keeps R (get_swap_paths_route E chain sell target amount)" "keeps R (discover_pools_route E chain token)"
  "keeps R (compute_pool_path_route E cache body)"
  unfolding get_swap_paths_route_def discover_pools_route_def compute_pool_path_route_def get_swap_paths_def compute_pool_path_def
    compute_path_miss_def Let_def
  by (intro keeps_discover_pools keeps_discover_rpc keeps_grpc keeps_kms keeps_http)+

lemma keeps_trades: "keeps R (trades_answer E P limit)"
  unfolding trades_answer_def by (intro keeps_http)

lemma keeps_listings:
  "keeps R (get_session_trades E user session_id limit)" "keeps R (get_public_session_trades E slug limit)"
  "keeps R (admin_list_users E user)" "keeps R (admin_list_all_wallets E user)" "keeps R (admin_get_user_sessions E user target)"
  "keeps R (list_my_wallet_sessions E user)" "keeps R (list_my_deposits E user)"
  unfolding get_session_trades_def get_public_session_trades_def admin_list_users_def admin_list_all_wallets_def
    admin_get_user_sessions_def list_my_wallet_sessions_def list_my_deposits_def Let_def
  by (intro keeps_trades keeps_http)+

end

end
