(* ===== verification/Funding.thy ===== *)
theory Funding
  imports Gateway Submit
begin

text \<open>
  The handlers of the gateway that move money or start a sale (\<open>crates/api-gateway/src/routes.rs\<close>): the gas
  for a session that is about to start, the withdrawal by an administrator, and the session created for a
  user who just wants to sell.  The text of a failed connection or call is the text of the failure;
  what a parser of the libraries appends to a message is left out.
\<close>

section \<open>Refusals\<close>

text \<open>A refusal is a status with a message; the message is empty when the body is.\<close>

type_synonym refusal = "http \<times> string"

definition bare :: "(world, http, 'a) rt \<Rightarrow> (world, refusal, 'a) rt" where
  "bare m = map_err (\<lambda>h. (h, [])) m"

definition refused :: "http \<Rightarrow> string \<Rightarrow> (world, 'e, 'a) rt \<Rightarrow> (world, refusal, 'a) rt" where
  "refused h message m = map_err (\<lambda>_. (h, message)) m"

definition required :: "http \<Rightarrow> string \<Rightarrow> 'a option \<Rightarrow> (world, refusal, 'a) rt" where
  "required h message x = of_result (ok_or (h, message) x)"

definition prefixed :: "string \<Rightarrow> (world, err, 'a) rt \<Rightarrow> (world, err, 'a) rt" where
  "prefixed what m = map_err (\<lambda>e. what @ e) m"

definition reach :: "env \<Rightarrow> string \<Rightarrow> (world, err, unit) rt" where
  "reach E what = prefixed what (ask (\<lambda>n. case grpc_down E n of Some e \<Rightarrow> Inl e | None \<Rightarrow> Inr ()))"

definition called :: "env \<Rightarrow> string \<Rightarrow> (world, status, 'a) rt \<Rightarrow> (world, err, 'a) rt" where
  "called E what m = map_err (\<lambda>e. what @ snd e) (grpc E m)"

definition wallet_address_of :: "env \<Rightarrow> string \<Rightarrow> world \<Rightarrow> (err + string) \<times> world" where
  "wallet_address_of E wallet_id s =
     (case uuid_parse (lib_of E) wallet_id of
        None \<Rightarrow> (Inl ''invalid input syntax for type uuid'', s)
      | Some i \<Rightarrow> (ok_or ''no rows returned'' (map_option w_address (wallet_by_id i s)), s))"

section \<open>Gas for a session\<close>

text \<open>How many sales to expect: never more than 5000.\<close>

definition min_sell_per_swap :: "u256 \<Rightarrow> u256 \<Rightarrow> f64 \<Rightarrow> u256" where
  "min_sell_per_swap total_amount remaining pov_percent =
     (let pov_bps = f_as_u64 (f_mul pov_percent (Fin 100)) in
      if 0 < pov_bps then
        (let chunk = (total_amount * ucast pov_bps) div 100000 in if chunk = 0 then remaining div 1000 else chunk)
      else remaining div 1000)"

definition funding_swaps :: "u256 \<Rightarrow> u256 \<Rightarrow> u256" where
  "funding_swaps remaining min_sell =
     min (if min_sell = 0 then 1000 else (remaining + min_sell - 1) div min_sell) 5000"

definition gas_needed :: "128 word \<Rightarrow> u256 \<Rightarrow> u32 \<Rightarrow> u256" where
  "gas_needed gas_price num_swaps padding_pct =
     (300000 * ucast gas_price * num_swaps * ucast (100 + ucast padding_pct :: u64)) div 100"

definition funding_deficit :: "env \<Rightarrow> session_info \<Rightarrow> u256 \<Rightarrow> 128 word \<Rightarrow> u256 \<Rightarrow> u256" where
  "funding_deficit E session remaining gas_price current_balance =
     (let total_amount = opt_or 0 (u256_radix (lib_of E) 10 (si_total session)) in
      sat_sub (gas_needed gas_price (funding_swaps remaining (min_sell_per_swap total_amount remaining (si_pov session)))
        (gas_padding_percent (execution (cfg E)))) current_balance)"

definition remaining_amount :: "env \<Rightarrow> session_info \<Rightarrow> u256" where
  "remaining_amount E session =
     sat_sub (opt_or 0 (u256_radix (lib_of E) 10 (si_total session))) (opt_or 0 (u256_radix (lib_of E) 10 (si_sold session)))"

definition gas_transfer :: "addr \<Rightarrow> addr \<Rightarrow> u256 \<Rightarrow> u64 \<Rightarrow> u64 \<Rightarrow> 128 word \<Rightarrow> tx_request" where
  "gas_transfer gas_wallet_addr wallet_addr deficit nonce chain_id gas_price =
     \<lparr>tx_from = gas_wallet_addr, tx_to = wallet_addr, tx_value = deficit, tx_input = [], tx_nonce = nonce,
      tx_chain_id = chain_id, tx_gas_limit = Some 21000, tx_gas_price = Some gas_price\<rparr>"

definition sign_and_send_gas :: "env \<Rightarrow> string \<Rightarrow> string \<Rightarrow> tx_request \<Rightarrow> (world, err, unit) rt" where
  "sign_and_send_gas E url gas_wallet tx =
     rbind (of_result (ok_or ''Serialize transfer tx'' (tx_to_json (lib_of E) tx))) (\<lambda>unsigned_bytes.
     rbind (reach E ''KMS connect: '') (\<lambda>_.
     rbind (map_err (\<lambda>e. ''KMS sign: '' @ snd e) (kms_sign E gas_wallet unsigned_bytes)) (\<lambda>(signed_tx, _).
     if signed_tx = [] then fail ''KMS returned empty signed transaction''
     else
       rbind (prefixed ''Submit gas transfer tx: ''
         (send_raw E url \<lparr>x_wallet = gas_wallet, x_request = tx, x_raw = signed_tx\<rparr>)) (\<lambda>_. ret ()))))"

definition send_gas ::
  "env \<Rightarrow> chain_config \<Rightarrow> string \<Rightarrow> string \<Rightarrow> addr \<Rightarrow> u256 \<Rightarrow> 128 word \<Rightarrow> string \<Rightarrow> (world, err, unit) rt" where
  "send_gas E chain_cfg url gas_wallet wallet_addr deficit gas_price session_id =
     (let L = lib_of E; N = node_of E in
      rbind (prefixed ''Resolve gas wallet address: '' (sql E (wallet_address_of E gas_wallet))) (\<lambda>gas_wallet_address.
      rbind (of_result (ok_or ''Parse gas wallet address'' (addr_parse L gas_wallet_address))) (\<lambda>gas_wallet_addr.
      rbind (prefixed ''Get gas wallet balance: '' (remote E (rpc_native_balance N url gas_wallet_addr))) (\<lambda>gas_wallet_balance.
      if gas_wallet_balance < deficit
      then fail (''Gas wallet insufficient: has '' @ u256_show L gas_wallet_balance @ '' but needs '' @ u256_show L deficit @
        '' (deficit for session '' @ session_id @ '')'')
      else
        rbind (prefixed ''Get gas wallet nonce: '' (remote E (rpc_nonce N url gas_wallet_addr))) (\<lambda>nonce.
        sign_and_send_gas E url gas_wallet
          (gas_transfer gas_wallet_addr wallet_addr deficit nonce (cc_chain_id chain_cfg) gas_price))))))"

definition fund_session_wallet_gas :: "env \<Rightarrow> string \<Rightarrow> (world, err, unit) rt" where
  "fund_session_wallet_gas E session_id =
     (let L = lib_of E; N = node_of E; gas_wallet = trim (gas_wallet_id (execution (cfg E))) in
      if gas_wallet = [] then fail ''gas_wallet_id not configured''
      else
        rbind (reach E ''Session gRPC connect: '') (\<lambda>_.
        rbind (called E ''GetSession: '' (get_session E session_id)) (\<lambda>session.
        rbind (of_result (ok_or (''No chain config for '' @ si_chain session)
                 (map_of (chain_entries (cfg E)) (si_chain session)))) (\<lambda>chain_cfg.
        let url = trim (cc_rpc_url chain_cfg) in
        if url = [] then fail (''RPC URL not configured for chain '' @ si_chain session)
        else
          rbind (prefixed ''Resolve wallet address: '' (sql E (wallet_address_of E (si_wallet session)))) (\<lambda>wallet_address.
          rbind (of_result (ok_or ''Parse wallet address'' (addr_parse L wallet_address))) (\<lambda>wallet_addr.
          if \<not> url_ok L url then fail ''Parse RPC URL''
          else
            rbind (prefixed ''Get native balance: '' (remote E (rpc_native_balance N url wallet_addr))) (\<lambda>current_balance.
            rbind (prefixed ''Get gas price: '' (remote E (rpc_gas_price N url))) (\<lambda>gas_price.
            let remaining = remaining_amount E session;
                deficit = funding_deficit E session remaining gas_price current_balance in
            if remaining = 0 then ret ()
            else if deficit = 0 then ret ()
            else send_gas E chain_cfg url gas_wallet wallet_addr deficit gas_price session_id))))))))"

text \<open>A session is not started without gas.\<close>

definition fund_if_started :: "env \<Rightarrow> string \<Rightarrow> string \<Rightarrow> (world, refusal, unit) rt" where
  "fund_if_started E session_id st =
     (if st = ''active''
      then map_err (\<lambda>e. (Unprocessable, ''Session wallet does not have sufficient BNB for the expected swaps and the gas wallet could not cover the deficit: '' @ e))
             (fund_session_wallet_gas E session_id)
      else ret ())"

definition update_session_status_route :: "env \<Rightarrow> auth_user \<Rightarrow> string \<Rightarrow> string \<Rightarrow> (world, refusal, json) rt" where
  "update_session_status_route E user session_id st =
     (if \<not> is_admin user then fail (Forbidden, [])
      else if st \<notin> {''active'', ''paused'', ''cancelled''} then fail (Bad_Request, [])
      else
        rbind (bare (ensure_session_access E user session_id)) (\<lambda>_.
        rbind (fund_if_started E session_id st) (\<lambda>_.
        bare (session_answer E (update_session_status E session_id st)))))"

section \<open>Withdrawals\<close>

definition withdraw_2fa :: "env \<Rightarrow> web \<Rightarrow> auth_user \<Rightarrow> string \<Rightarrow> (world, refusal, unit) rt" where
  "withdraw_2fa E W user totp_code =
     rbind (refused Server_Error ''DB error'' (query E (user_by_id (au_id user)))) (\<lambda>found_row.
     rbind (required Server_Error ''DB error'' found_row) (\<lambda>row.
     if \<not> u_totp_enabled row then fail (Forbidden, ''TOTP not configured for this admin'')
     else
       rbind (required Panicked [] (u_totp_secret row)) (\<lambda>secret.
       if \<not> totp_ok W secret None [] then fail (Server_Error, ''TOTP init error'')
       else
         rbind (ask (\<lambda>n. ok_or (Server_Error, ''TOTP check error'') (totp_check W secret totp_code n))) (\<lambda>valid.
         if valid then ret () else fail (Unauthorized, ''Invalid TOTP code'')))))"

definition withdraw_amount :: "env \<Rightarrow> string option \<Rightarrow> u256 \<Rightarrow> refusal + u256" where
  "withdraw_amount E amount on_chain_balance =
     (case amount of
        None \<Rightarrow> Inr on_chain_balance
      | Some amt_str \<Rightarrow>
          sbind (ok_or (Bad_Request, ''Invalid amount'') (u256_radix (lib_of E) 10 amt_str)) (\<lambda>amt.
          if amt = 0 then Inl (Bad_Request, ''Amount must be non-zero'')
          else if on_chain_balance < amt then Inl (Unprocessable, ''Amount exceeds on-chain balance'')
          else Inr amt))"

definition withdrawal :: "env \<Rightarrow> addr \<Rightarrow> addr \<Rightarrow> addr \<Rightarrow> u256 \<Rightarrow> u64 \<Rightarrow> u64 \<Rightarrow> 128 word \<Rightarrow> tx_request" where
  "withdrawal E wallet_addr token_address dest_addr amount nonce chain_id gas_price =
     \<lparr>tx_from = wallet_addr, tx_to = token_address, tx_value = 0,
      tx_input = abi_encode (lib_of E) (Transfer dest_addr amount), tx_nonce = nonce, tx_chain_id = chain_id,
      tx_gas_limit = Some 80000, tx_gas_price = Some gas_price\<rparr>"

definition sign_and_withdraw :: "env \<Rightarrow> string \<Rightarrow> string \<Rightarrow> tx_request \<Rightarrow> (world, refusal, string) rt" where
  "sign_and_withdraw E url wallet tx =
     rbind (required Server_Error ''Failed to serialize tx'' (tx_to_json (lib_of E) tx)) (\<lambda>unsigned_bytes.
     rbind (refused Service_Unavailable ''KMS unavailable'' (connect E)) (\<lambda>_.
     rbind (refused Server_Error ''KMS signing failed'' (kms_sign E wallet unsigned_bytes)) (\<lambda>(signed_tx, _).
     if signed_tx = [] then fail (Server_Error, ''KMS returned empty signed tx'')
     else
       rbind (refused Server_Error ''Failed to broadcast transaction''
         (send_raw E url \<lparr>x_wallet = wallet, x_request = tx, x_raw = signed_tx\<rparr>)) (\<lambda>h.
       ret (b256_debug (lib_of E) h)))))"

text \<open>From the wallet of the session to the answer.\<close>

definition withdraw_from ::
  "env \<Rightarrow> session_info \<Rightarrow> chain_config \<Rightarrow> addr \<Rightarrow> addr \<Rightarrow> string option \<Rightarrow> (world, refusal, string \<times> u256) rt" where
  "withdraw_from E session chain_cfg wallet_addr dest_addr raw_amount =
     (let L = lib_of E; N = node_of E; url = trim (cc_rpc_url chain_cfg) in
      if \<not> url_ok L url then fail (Server_Error, ''Invalid RPC URL'')
      else
        rbind (required Server_Error ''Invalid target token address'' (addr_parse L (si_target_token session))) (\<lambda>token_address.
        rbind (refused Server_Error ''Failed to fetch token balance''
                 (remote E (rpc_balance_of N url token_address wallet_addr))) (\<lambda>on_chain_balance.
        if on_chain_balance = 0 then fail (Unprocessable, ''No token balance in session wallet'')
        else
          rbind (of_result (withdraw_amount E raw_amount on_chain_balance)) (\<lambda>amount.
          rbind (refused Server_Error ''Failed to fetch nonce'' (remote E (rpc_nonce N url wallet_addr))) (\<lambda>nonce.
          rbind (refused Server_Error ''Failed to fetch gas price'' (remote E (rpc_gas_price N url))) (\<lambda>gas_price.
          rbind (sign_and_withdraw E url (si_wallet session)
                   (withdrawal E wallet_addr token_address dest_addr amount nonce (cc_chain_id chain_cfg) gas_price)) (\<lambda>tx_hash.
          ret (tx_hash, amount))))))))"

definition admin_withdraw_session ::
  "env \<Rightarrow> web \<Rightarrow> auth_user \<Rightarrow> string \<Rightarrow> string \<Rightarrow> string option \<Rightarrow> string \<Rightarrow> (world, refusal, json) rt" where
  "admin_withdraw_session E W user session_id destination_wallet raw_amount totp_code =
     (let L = lib_of E in
      if \<not> is_admin user then fail (Forbidden, ''Admin access required'')
      else
        rbind (withdraw_2fa E W user totp_code) (\<lambda>_.
        rbind (required Bad_Request ''Invalid destination wallet address'' (addr_parse L destination_wallet)) (\<lambda>dest_addr.
        rbind (refused Service_Unavailable ''Session service unavailable'' (connect E)) (\<lambda>_.
        rbind (refused Not_Found ''Session not found'' (grpc E (get_session E session_id))) (\<lambda>session.
        rbind (required Bad_Request ''Unknown chain'' (map_of (chain_entries (cfg E)) (si_chain session))) (\<lambda>chain_cfg.
        rbind (refused Server_Error ''Wallet not found'' (sql E (wallet_address_of E (si_wallet session)))) (\<lambda>wallet_address.
        rbind (required Server_Error ''Invalid wallet address in DB'' (addr_parse L wallet_address)) (\<lambda>wallet_addr.
        rbind (withdraw_from E session chain_cfg wallet_addr dest_addr raw_amount) (\<lambda>(tx_hash, amount).
        ret (JObj [(''tx_hash'', JStr tx_hash), (''amount'', JStr (u256_show L amount)),
          (''destination_wallet'', JStr destination_wallet), (''token_address'', JStr (si_target_token session))]))))))))))"

section \<open>Selling without settings\<close>

definition compute_min_buy_trigger :: "web \<Rightarrow> string \<Rightarrow> u32 \<Rightarrow> f64 \<Rightarrow> f64 \<Rightarrow> f64" where
  "compute_min_buy_trigger W balance_raw decimals token_price_usd pct =
     (let balance_tokens = f_div (opt_or (Fin 0) (f_parse balance_raw)) (f_powi (Fin 10) (sint decimals));
          balance_usd = f_mul balance_tokens (f_max token_price_usd (Fin 0));
          trigger = f_mul balance_usd (f_div pct (Fin 100)) in
      if f_lt trigger (Fin 1) then Fin 0
      else
        let magnitude = power_of_10 W (f_floor (log10_of W trigger));
            result = f_mul (f_floor (f_div trigger magnitude)) magnitude
        in f_min result (Fin 10000))"

text \<open>A price that cannot be read counts as zero.\<close>

definition sell_price_or_zero :: "env \<Rightarrow> web \<Rightarrow> string \<Rightarrow> (world, http, f64) rt" where
  "sell_price_or_zero E W chain =
     (let L = lib_of E; X = execution (cfg E) in
      rbind (need Bad_Request (map_of (chain_entries (cfg E)) chain)) (\<lambda>chain_cfg.
      rbind (need Server_Error (addr_parse L (buy_trigger_oracle_address X))) (\<lambda>orc.
      let normalized = lower (normalize_token_for_chain (cfg E) chain (trim (ex_sell_token X))) in
      rbind (attempt (resolve_cached_oracle_pool E W chain normalized False)) (\<lambda>found.
      case found of
        Inl e \<Rightarrow> ret (Fin 0)
      | Inr (pool, _) \<Rightarrow>
          rbind (attempt (fetch_pool_price_36 E (trim (cc_rpc_url chain_cfg)) orc normalized pool)) (\<lambda>price.
          ret (case price of Inl e \<Rightarrow> Fin 0 | Inr price_36 \<Rightarrow> usd_of_36 L price_36))))))"

text \<open>The last pool of those whose reserve of the token is the greatest.\<close>

definition pool_reserve :: "web \<Rightarrow> string \<Rightarrow> pool_info \<Rightarrow> u256" where
  "pool_reserve W token p = opt_or 0 (pool_token_liquidity_metric W p token)"

fun best_pool :: "web \<Rightarrow> string \<Rightarrow> pool_info list \<Rightarrow> pool_info option" where
  "best_pool W token [] = None"
| "best_pool W token (p # ps) =
     Some (fold (\<lambda>q b. if pool_reserve W token b \<le> pool_reserve W token q then q else b) ps p)"

definition started_route :: "swap_path \<Rightarrow> json" where
  "started_route p =
     JObj [(''hops'', JArr (map JStr (sw_hops p))), (''hop_tokens'', JArr (map JStr (sw_hop_tokens p))),
       (''fee_tiers'', JArr []), (''estimated_output'', JStr (sw_output p)),
       (''estimated_price_impact'', f_json (sw_impact p)), (''fee_percent'', f_json (sw_fee p))]"

definition started_request ::
  "env \<Rightarrow> auth_user \<Rightarrow> string \<Rightarrow> string \<Rightarrow> string \<Rightarrow> f64 \<Rightarrow> string \<Rightarrow> pool_info \<Rightarrow> create_session_request" where
  "started_request E user wallet chain balance trigger path p =
     (let X = execution (cfg E) in
      \<lparr>cs_user = uuid_show (lib_of E) (au_id user), cs_wallet = wallet, cs_chain = chain,
       cs_sell_token = ex_sell_token X, cs_sell_symbol = ex_sell_token_symbol X,
       cs_sell_decimals = ex_sell_token_decimals X, cs_target_token = ex_target_token X,
       cs_target_symbol = ex_target_token_symbol X, cs_target_decimals = ex_target_token_decimals X,
       cs_strategy = ''pov'', cs_total = balance, cs_pov = ex_pov_percent X, cs_impact = session_max_price_impact X,
       cs_trigger = trigger, cs_path_json = path, cs_pools = [p\<lparr>pi_path_json := path\<rparr>], cs_mcap = Fin 50000000\<rparr>)"

definition choose_route :: "env \<Rightarrow> web \<Rightarrow> path_cache \<Rightarrow> string \<Rightarrow> (world, http, pool_info \<times> string \<times> path_cache) rt" where
  "choose_route E W cache chain =
     (let L = lib_of E; X = execution (cfg E) in
      rbind (or_http Server_Error (grpc E (discover_pools_rpc E chain (ex_sell_token X)))) (\<lambda>pools.
      rbind (need Not_Found (best_pool W (ex_sell_token X) pools)) (\<lambda>p.
      rbind (or_http Server_Error (grpc E (compute_pool_path E cache
        \<lparr>pq_chain = chain, pq_pool = pi_address p, pq_token0 = pi_token0 p, pq_token1 = pi_token1 p, pq_fee = pi_fee p,
         pq_sell = ex_sell_token X, pq_target = ex_target_token X\<rparr>))) (\<lambda>(path, cache').
      case path of
        Some q \<Rightarrow> ret (p, json_show L (started_route q), cache')
      | None \<Rightarrow> if pi_path_json p \<noteq> [] then ret (p, pi_path_json p, cache') else fail Server_Error))))"

definition start_selling :: "env \<Rightarrow> web \<Rightarrow> path_cache \<Rightarrow> auth_user \<Rightarrow> (world, http, json \<times> path_cache) rt" where
  "start_selling E W cache user =
     (let L = lib_of E; X = execution (cfg E) in
      if au_role user \<noteq> ''common'' then fail Forbidden
      else
        rbind (or_http Server_Error (query E (\<lambda>s. find (\<lambda>w. w_user w = au_id user) (wallets s)))) (\<lambda>wallet_row.
        rbind (need Not_Found wallet_row) (\<lambda>w.
        let wallet = uuid_show L (w_id w); chain = w_chain w in
        rbind (connect E) (\<lambda>_.
        rbind (or_http Server_Error (grpc E (get_balance E wallet (ex_sell_token X) []))) (\<lambda>(balance, _).
        if balance = ''0'' then fail Bad_Request
        else
          rbind (sell_price_or_zero E W chain) (\<lambda>price.
          let trigger = compute_min_buy_trigger W balance (ex_sell_token_decimals X) price (min_buy_trigger_percent X) in
          rbind (connect E) (\<lambda>_.
          rbind (choose_route E W cache chain) (\<lambda>(p, path, cache').
          rbind (or_http Server_Error (grpc E (create_session E (started_request E user wallet chain balance trigger path p)))) (\<lambda>resp.
          ret (session_info_to_json E resp, cache'))))))))))"

section \<open>Frame\<close>

context world_rel begin

lemma keeps_refusals:
  "keeps R (required h message x :: (world, refusal, 'a) rt)"
  "keeps R m \<Longrightarrow> keeps R (refused h message m)"
  "keeps R k \<Longrightarrow> keeps R (bare k)"
  "keeps R l \<Longrightarrow> keeps R (prefixed what l)"
  "keeps R (reach E what)"
  "keeps R c \<Longrightarrow> keeps R (called E what c)"
  unfolding required_def refused_def bare_def prefixed_def reach_def called_def
  by (intro keeps_map_err keeps_grpc keeps_world; assumption)+

lemma keeps_wallet_address: "keeps R (sql E (wallet_address_of E w))"
  by (rule keeps_sql) (simp add: wallet_address_of_def rel_refl split: option.split)

lemma keeps_withdraw_2fa: "keeps R (withdraw_2fa E W user totp_code)"
  unfolding withdraw_2fa_def by (intro keeps_refusals keeps_world)

lemmas keeps_money = keeps_refusals keeps_wallet_address keeps_withdraw_2fa keeps_get_session keeps_kms_sign keeps_grpc
  keeps_connect

end

section \<open>At most one transaction\<close>

text \<open>A computation that, on the tables of a world, changes no table and hands at most one transaction to a node.\<close>

definition pays_one :: "world \<Rightarrow> (sent_tx \<Rightarrow> bool) \<Rightarrow> (world, 'e, 'a) rt \<Rightarrow> bool" where
  "pays_one T P m \<longleftrightarrow>
     (\<forall>s r t. same_tables T s \<longrightarrow> m s = (r, t) \<longrightarrow>
        same_tables T t \<and> (sent t = sent s \<or> (\<exists>x. sent t = sent s @ [x] \<and> P x)))"

lemma paysD:
  "pays_one T P m \<Longrightarrow> same_tables T s \<Longrightarrow> m s = (r, t) \<Longrightarrow>
    same_tables T t \<and> (sent t = sent s \<or> (\<exists>x. sent t = sent s @ [x] \<and> P x))"
  by (auto simp: pays_one_def)

lemma pays_quiet: "keeps asks m \<Longrightarrow> pays_one T P m"
  unfolding pays_one_def by (metis asks_def keepsD tab.rel_trans)

lemma pays_rbind:
  assumes "keeps asks m" "\<And>s x s'. same_tables T s \<Longrightarrow> m s = (Inr x, s') \<Longrightarrow> pays_one T P (f x)"
  shows "pays_one T P (rbind m f)"
  unfolding pays_one_def
proof (intro allI impI)
  fix s r t assume s: "same_tables T s" and run: "rbind m f s = (r, t)"
  obtain q s1 where m: "m s = (q, s1)" by (cases "m s")
  have s1: "asks s s1" using keepsD [OF assms(1) m] .
  then have T1: "same_tables T s1" "sent s1 = sent s" using s tab.rel_trans by (auto simp: asks_def)
  show "same_tables T t \<and> (sent t = sent s \<or> (\<exists>x. sent t = sent s @ [x] \<and> P x))"
  proof (cases q)
    case (Inl e)
    then show ?thesis using run m T1 by (simp add: rbind_def)
  next
    case (Inr x)
    then have "f x s1 = (r, t)" using run m by (simp add: rbind_def)
    moreover have "pays_one T P (f x)" using assms(2) [OF s] m Inr by blast
    ultimately show ?thesis using paysD T1 by metis
  qed
qed

lemma pays_then:
  assumes "pays_one T P m" "\<And>x. keeps asks (f x)"
  shows "pays_one T P (rbind m f)"
  unfolding pays_one_def
proof (intro allI impI)
  fix s r t assume s: "same_tables T s" and run: "rbind m f s = (r, t)"
  obtain q s1 where m: "m s = (q, s1)" by (cases "m s")
  note one = paysD [OF assms(1) s m]
  show "same_tables T t \<and> (sent t = sent s \<or> (\<exists>x. sent t = sent s @ [x] \<and> P x))"
  proof (cases q)
    case (Inl e)
    then show ?thesis using run m one by (simp add: rbind_def)
  next
    case (Inr x)
    then have "f x s1 = (r, t)" using run m by (simp add: rbind_def)
    then have "asks s1 t" using keepsD [OF assms(2)] by blast
    then show ?thesis using one tab.rel_trans by (auto simp: asks_def)
  qed
qed

lemma pays_map_err: "pays_one T P m \<Longrightarrow> pays_one T P (map_err g m)"
  unfolding pays_one_def map_err_def by (fastforce split: prod.splits sum.splits)

lemma pays_send: "P x \<Longrightarrow> pays_one T P (send_raw E url x)"
  by (auto simp: pays_one_def send_raw_def rbind_def modify_def remote_def same_tables_def)

lemma pays_sign_gas:
  "pays_one T (\<lambda>x. x_wallet x = w \<and> x_request x = tx \<and> x_raw x \<noteq> []) (sign_and_send_gas E url w tx)"
proof -
  have "pays_one T (\<lambda>x. x_wallet x = w \<and> x_request x = tx \<and> x_raw x \<noteq> [])
     (if raw = [] then fail ''KMS returned empty signed transaction''
      else rbind (prefixed ''Submit gas transfer tx: '' (send_raw E url \<lparr>x_wallet = w, x_request = tx, x_raw = raw\<rparr>)) (\<lambda>_. ret ()))" for raw
    unfolding prefixed_def
    by (cases "raw = []") (simp_all add: pays_quiet qry.keeps_fail qry.keeps_ret pays_then pays_map_err pays_send)
  then show ?thesis
    unfolding sign_and_send_gas_def
    by (intro pays_rbind qry.keeps_money qry.keeps_world) (auto split: prod.split)
qed

lemma pays_sign_withdraw:
  "pays_one T (\<lambda>x. x_wallet x = w \<and> x_request x = tx \<and> x_raw x \<noteq> []) (sign_and_withdraw E url w tx)"
proof -
  have "pays_one T (\<lambda>x. x_wallet x = w \<and> x_request x = tx \<and> x_raw x \<noteq> [])
     (if raw = [] then fail (Server_Error, ''KMS returned empty signed tx'')
      else rbind (refused Server_Error ''Failed to broadcast transaction'' (send_raw E url \<lparr>x_wallet = w, x_request = tx, x_raw = raw\<rparr>))
             (\<lambda>h. ret (b256_debug (lib_of E) h)))" for raw
    unfolding refused_def
    by (cases "raw = []") (simp_all add: pays_quiet qry.keeps_fail qry.keeps_ret pays_then pays_map_err pays_send)
  then show ?thesis
    unfolding sign_and_withdraw_def
    by (intro pays_rbind qry.keeps_money qry.keeps_world) (auto split: prod.split)
qed

end
