(* ===== verification/AuthSafe.thy ===== *)
theory AuthSafe
  imports Auth
begin

text \<open>
  What the accounts guarantee: the table of users stays well formed and no handler panics on it, a
  login issues tokens only for credentials it has checked, a new account reaches its first session,
  and an administrator without a second factor can be taken over by a sign-up.
\<close>

section \<open>Frame\<close>

context world_rel begin

lemma keeps_new_wallet:
  assumes "\<And>w s. R s (snd (insert_wallet w s))"
  shows "keeps R (create_wallet E master u c)"
  unfolding create_wallet_def store_wallet_def encrypt_key_def Let_def by (intro assms keeps_sql keeps_kms)

end

lemma users_insert_wallet [simp]: "users (snd (insert_wallet w s)) = users s"
  by (simp add: insert_wallet_def)

definition same_users :: "world \<Rightarrow> world \<Rightarrow> bool" where
  "same_users s t \<longleftrightarrow> users t = users s"

interpretation usame: world_rel same_users
  by unfold_locales (auto simp: same_users_def)

text \<open>The answer of a query and the rows it has read.\<close>

lemma handler_query_Inr:
  assumes "or_http h (query E f) s = (Inr x, t)"
  shows "t = s\<lparr>calls := Suc (calls s)\<rparr>" "x = f (s\<lparr>calls := Suc (calls s)\<rparr>)"
  using assms by (auto simp: or_http_def map_err_def query_def sql_def gets_def Let_def split: db_reply.splits)

lemma need_iff: "need h x s = (r, t) \<longleftrightarrow> r = ok_or h x \<and> t = s"
  by (auto simp: need_def)

section \<open>Well-formed accounts\<close>

inductive account_step :: "env \<Rightarrow> web \<Rightarrow> world \<Rightarrow> world \<Rightarrow> bool" for E :: env and W :: web where
  signs_up: "signup E W body s = (r, t) \<Longrightarrow> account_step E W s t"
| logs_in: "login E W credentials s = (r, t) \<Longrightarrow> account_step E W s t"
| refreshes: "refresh_token E W token s = (r, t) \<Longrightarrow> account_step E W s t"
| sets_up: "setup_2fa E W user s = (r, t) \<Longrightarrow> account_step E W s t"
| enables: "verify_2fa E W user totp_code s = (r, t) \<Longrightarrow> account_step E W s t"
| confirms: "confirm_2fa E W user opt_code s = (r, t) \<Longrightarrow> account_step E W s t"
| resends: "resend_verification E W user s = (r, t) \<Longrightarrow> account_step E W s t"
| verifies: "verify_email E param s = (r, t) \<Longrightarrow> account_step E W s t"
| changes_role: "admin_update_user_role E user target role s = (r, t) \<Longrightarrow> account_step E W s t"
| seeds: "seed_admin_user E W s = (q, t) \<Longrightarrow> account_step E W s t"

lemma users_ok_same: "same_users s t \<Longrightarrow> users_ok s \<Longrightarrow> users_ok t"
  by (simp add: same_users_def users_ok_def)

text \<open>Enabling the second factor relies on the secret it has just read.\<close>

definition holds_secret :: "uuid \<Rightarrow> world \<Rightarrow> bool" where
  "holds_secret i s \<longleftrightarrow> users_ok s \<and> (\<forall>u \<in> set (users s). u_id u = i \<longrightarrow> u_totp_secret u \<noteq> None)"

interpretation sec: world_inv "holds_secret i" for i
  by unfold_locales (simp_all add: holds_secret_def users_ok_def)

lemma holds_secret_enable:
  assumes "holds_secret i s"
  shows "holds_secret i (set_user i (\<lambda>u. u\<lparr>u_totp_enabled := True\<rparr>) s)"
proof -
  have "users_ok (set_user i (\<lambda>u. u\<lparr>u_totp_enabled := True\<rparr>) s)"
    using assms by (intro users_ok_set) (simp_all add: holds_secret_def)
  then show ?thesis using assms by (auto simp: holds_secret_def set_user_def dest!: set_update_where)
qed

lemma holds_secret_found:
  assumes ok: "users_ok s" and row: "user_by_id i s = Some u" and secret: "u_totp_secret u \<noteq> None"
  shows "holds_secret i s"
proof -
  have u: "u \<in> set (users s)" "u_id u = i" using find_Some_in [OF row [unfolded user_by_id_def]] by simp_all
  have "distinct (map u_id (users s))" using ok users_goodD(1) by (auto simp: users_ok_def)
  then have "v = u" if "v \<in> set (users s)" "u_id v = i" for v
    using that u by (metis distinct_map inj_onD)
  then show ?thesis using ok secret by (auto simp: holds_secret_def)
qed

lemma users_ok_calls [simp]: "users_ok (s\<lparr>calls := n\<rparr>) = users_ok s"
  by (simp add: users_ok_def)

lemma verify_2fa_ok:
  assumes run: "verify_2fa E W user c s = (r, t)" and ok: "users_ok s"
  shows "users_ok t"
proof -
  let ?i = "au_id user"
  define enable where "enable = (\<lambda>secret. rbind (check_code E W secret c) (\<lambda>_.
     rbind (or_http Server_Error (exec E (set_user ?i (\<lambda>u. u\<lparr>u_totp_enabled := True\<rparr>)))) (\<lambda>_.
     (ret (JObj [(''status'', JStr ''2fa_enabled'')]) :: (world, http, json) rt))))"
  have keeps: "keeps (inv_step (holds_secret ?i)) (enable secret)" for secret
    unfolding enable_def
    by (intro sec.keeps_check_code sec.keeps_exec sec.keeps_http) (simp add: inv_step_def holds_secret_enable)
  obtain x s1 where ask: "or_http Server_Error (query E (\<lambda>s. map_option u_totp_secret (user_by_id ?i s))) s = (x, s1)"
    by (metis surj_pair)
  have "keeps same_users (or_http Server_Error (query E (\<lambda>s. map_option u_totp_secret (user_by_id ?i s))))"
    by (intro usame.keeps_http)
  then have s1: "users_ok s1" using ok users_ok_same ask by (metis keepsD)
  show ?thesis
  proof (cases "\<exists>secret. x = Inr (Some (Some secret))")
    case True
    then obtain secret where x: "x = Inr (Some (Some secret))" by blast
    have "map_option u_totp_secret (user_by_id ?i s1) = Some (Some secret)"
      using handler_query_Inr [OF ask [unfolded x]] by simp
    then have "holds_secret ?i s1" using holds_secret_found [OF s1] by fastforce
    moreover have "enable secret s1 = (r, t)"
      using run ask x by (simp add: verify_2fa_def enable_def rbind_def need_def of_result_def ok_or_def)
    ultimately have "holds_secret ?i t" using sec.inv_run [OF keeps] by blast
    then show ?thesis by (simp add: holds_secret_def)
  next
    case False
    then have "t = s1"
      using run ask by (cases x) (auto simp: verify_2fa_def rbind_def need_def of_result_def ok_or_def split: option.splits)
    then show ?thesis using s1 by simp
  qed
qed

lemma account_step_ok: "account_step E W s t \<Longrightarrow> users_ok s \<Longrightarrow> users_ok t"
proof (induction rule: account_step.induct)
  case (verifies param s r t)
  have "keeps (inv_step users_ok) (create_wallet E master u ''bsc'')" for master u
    by (rule usr.keeps_new_wallet) (simp add: inv_step_def users_ok_def)
  from usr.inv_run [OF acc.keeps_verify_email [OF this] verifies] show ?case .
next
  case (changes_role user target role s r t)
  have "keeps (inv_step users_ok) (admin_update_user_role E user target role)"
    unfolding admin_update_user_role_def
    by (intro usr.keeps_exec usr.keeps_http) (auto simp: inv_step_def intro!: users_ok_set)
  from usr.inv_run [OF this changes_role] show ?case .
qed (erule (1) verify_2fa_ok usr.inv_run [OF acc.keeps_signup] usr.inv_run [OF acc.keeps_login]
      usr.inv_run [OF usr.keeps_refresh] usr.inv_run [OF acc.keeps_setup_2fa] usr.inv_run [OF usr.keeps_confirm_2fa]
      usr.inv_run [OF acc.keeps_resend] usr.inv_run [OF acc.keeps_seed])+

lemma accounts_reachable_ok: "(account_step E W)\<^sup>*\<^sup>* s t \<Longrightarrow> users_ok s \<Longrightarrow> users_ok t"
  by (induction rule: rtranclp_induct) (auto intro: account_step_ok)

subsection \<open>No panic\<close>

definition raises :: "('e \<Rightarrow> bool) \<Rightarrow> ('s, 'e, 'a) rt \<Rightarrow> bool" where
  "raises P m \<longleftrightarrow> (\<forall>s e t. m s = (Inl e, t) \<longrightarrow> P e)"

lemma raisesD: "raises P m \<Longrightarrow> m s = (Inl e, t) \<Longrightarrow> P e"
  unfolding raises_def by blast

lemma raises_basic:
  "raises P (ret v)" "P e \<Longrightarrow> raises P (fail e)" "P h \<Longrightarrow> raises P (or_http h m)" "raises P (modify g)"
  "(\<And>n e. f n = Inl e \<Longrightarrow> P e) \<Longrightarrow> raises P (ask f)" "P h \<or> x \<noteq> None \<Longrightarrow> raises P (need h x)"
  by (auto simp: raises_def or_http_def map_err_def ask_iff need_iff split: prod.splits sum.splits)

lemma raises_rbind: "raises P m \<Longrightarrow> (\<And>x. raises P (f x)) \<Longrightarrow> raises P (rbind m f)"
  unfolding raises_def rbind_Inl_iff by blast

lemma raises_if: "(b \<Longrightarrow> raises P m) \<Longrightarrow> (\<not> b \<Longrightarrow> raises P m') \<Longrightarrow> raises P (if b then m else m')"
  by simp

lemma raises_case_prod: "(\<And>a b. raises P (f a b)) \<Longrightarrow> raises P (case x of (a, b) \<Rightarrow> f a b)"
  by (simp split: prod.splits)

lemma raises_Let: "raises P (f x) \<Longrightarrow> raises P (let y = x in f y)"
  by simp

lemmas raises_rules = raises_basic raises_rbind raises_if raises_case_prod raises_Let

abbreviation calm :: "(world, http, 'a) rt \<Rightarrow> bool" where
  "calm \<equiv> raises (\<lambda>e. e \<noteq> Panicked)"

lemma calm_tokens: "calm (create_token E W ty ttl i role)" "calm (both_tokens E W i role)" "calm (create_access_token E W i)"
  unfolding both_tokens_def create_access_token_def create_access_token_with_role_def create_refresh_token_with_role_def
    create_token_def unix_now_def
  by (intro raises_rules; simp)+

lemma calm_check: "calm (check_code E W secret c)"
  unfolding check_code_def by (intro raises_rules) auto

lemma calm_renew: "calm (renew_token E W i email)"
  unfolding renew_token_def fresh_def unix_now_def send_verification_email_def hand_mail_def
  by (intro raises_rules) auto

lemma calm_login_admin: "u_totp_enabled row \<longrightarrow> u_totp_secret row \<noteq> None \<Longrightarrow> calm (login_admin E W body row)"
  unfolding login_admin_def by (intro raises_rules calm_tokens calm_check) auto

lemma user_row_ok: "users_ok s \<Longrightarrow> find P (users s) = Some row \<Longrightarrow> u_totp_enabled row \<longrightarrow> u_totp_secret row \<noteq> None"
  using users_goodD(4) by (auto simp: users_ok_def dest!: find_Some_in)

lemma login_no_panic:
  assumes ok: "users_ok s"
  shows "fst (login E W body s) \<noteq> Inl Panicked"
proof
  assume panic: "fst (login E W body s) = Inl Panicked"
  define checked where "checked = (\<lambda>row. rbind (need Server_Error (pw_check W (lo_password body) (u_password_hash row))) (\<lambda>valid.
     if \<not> valid then fail Unauthorized
     else if \<not> u_email_verified row then
       rbind (renew_token E W (u_id row) (lo_email body)) (\<lambda>_.
       ret (verification_required E (u_id row) (show_role (u_role row))
              ''Please verify your email before signing in. A new verification link has been sent.''))
     else if u_role row = Common then
       rbind (both_tokens E W (u_id row) ''common'') (\<lambda>(access, refresh).
       ret (authenticated E (u_id row) access refresh ''common''))
     else login_admin E W body row))"
  obtain t where run: "login E W body s = (Inl Panicked, t)" using panic by (metis prod.collapse)
  have calm_query: "calm (or_http Server_Error (query E (user_by_email (lo_email body))))"
    by (intro raises_rules) simp
  then have served: "or_http Server_Error (query E (user_by_email (lo_email body))) s \<noteq> (Inl Panicked, t)"
    unfolding raises_def by blast
  have "login E W body = rbind (or_http Server_Error (query E (user_by_email (lo_email body)))) (\<lambda>found_row.
      rbind (need Unauthorized found_row) checked)"
    by (simp add: login_def checked_def)
  then obtain x s1 where q: "or_http Server_Error (query E (user_by_email (lo_email body))) s = (Inr x, s1)"
    and rest: "rbind (need Unauthorized x) checked s1 = (Inl Panicked, t)"
    using run served by (auto simp: rbind_Inl_iff)
  obtain row where x: "x = Some row" and row: "checked row s1 = (Inl Panicked, t)"
    using rest by (auto simp: rbind_Inl_iff need_iff)
  have "find (\<lambda>u. u_email u = lo_email body) (users s) = Some row"
    using handler_query_Inr [OF q] x by (simp add: user_by_email_def)
  then have "calm (checked row)"
    unfolding checked_def
    by (intro raises_rules calm_renew calm_tokens calm_login_admin user_row_ok [OF ok]) auto
  from raisesD [OF this row] show False by simp
qed

lemma confirm_no_panic:
  assumes ok: "users_ok s"
  shows "fst (confirm_2fa E W user c s) \<noteq> Inl Panicked"
proof
  assume panic: "fst (confirm_2fa E W user c s) = Inl Panicked"
  then obtain t where run: "confirm_2fa E W user c s = (Inl Panicked, t)" by (metis prod.collapse)
  have calm_query: "calm (or_http Server_Error (query E (user_by_id (au_id user))))" by (intro raises_rules) simp
  then have served: "or_http Server_Error (query E (user_by_id (au_id user))) s \<noteq> (Inl Panicked, t)"
    unfolding raises_def by blast
  obtain row s1 where q: "or_http Server_Error (query E (user_by_id (au_id user))) s = (Inr (Some row), s1)"
    and rest: "(if \<not> u_totp_enabled row then fail Forbidden
       else rbind (need Bad_Request c) (\<lambda>given. rbind (need Panicked (u_totp_secret row)) (\<lambda>secret.
         check_code E W secret given))) s1 = (Inl Panicked, t)"
    using run served unfolding confirm_2fa_def by (auto simp: rbind_Inl_iff need_iff)
  have "find (\<lambda>u. u_id u = au_id user) (users s) = Some row"
    using handler_query_Inr [OF q] by (simp add: user_by_id_def)
  then have "calm (if \<not> u_totp_enabled row then fail Forbidden
       else rbind (need Bad_Request c) (\<lambda>given. rbind (need Panicked (u_totp_secret row)) (\<lambda>secret.
         check_code E W secret given)))"
    using user_row_ok [OF ok] by (intro raises_rules calm_check) auto
  from raisesD [OF this rest] show False by simp
qed

text \<open>C5: from an empty table of users, after any sequence of calls of the account handlers, identifiers, e-mails
  and pending verification tokens are unique and every user with an enabled second factor has a secret; so neither a
  login nor the confirmation of a second factor panics on a missing secret.\<close>

theorem accounts_well_formed:
  assumes "users s = []" "(account_step E W)\<^sup>*\<^sup>* s t"
  shows "users_good (users t) \<and> fst (login E W credentials t) \<noteq> Inl Panicked \<and>
    fst (confirm_2fa E W user totp_code t) \<noteq> Inl Panicked"
proof -
  have "users_ok s" using assms(1) by (simp add: users_ok_def users_good_def)
  then have "users_ok t" using accounts_reachable_ok assms(2) by blast
  then show ?thesis using login_no_panic confirm_no_panic by (simp add: users_ok_def)
qed

section \<open>A login checks what it promises\<close>

text \<open>A token was sealed for a user and a role by this service.\<close>

definition token_claims :: "env \<Rightarrow> string \<Rightarrow> u64 \<Rightarrow> uuid \<Rightarrow> string \<Rightarrow> u64 \<Rightarrow> claims" where
  "token_claims E ty ttl i role tm =
     \<lparr>c_sub = uuid_show (lib_of E) i, c_exp = tm + ttl, c_iat = tm, c_type = ty, c_role = role\<rparr>"

definition issued :: "env \<Rightarrow> web \<Rightarrow> string \<Rightarrow> u64 \<Rightarrow> uuid \<Rightarrow> string \<Rightarrow> string \<Rightarrow> bool" where
  "issued E W ty ttl i role token \<longleftrightarrow>
     (\<exists>n. jwt_seal W (claims_json (token_claims E ty ttl i role (unix_secs E n))) (jwt_key E) = Some token)"

text \<open>The code a user gave was accepted for the stored secret.\<close>

definition code_accepted :: "web \<Rightarrow> user_row \<Rightarrow> string \<Rightarrow> bool" where
  "code_accepted W row c \<longleftrightarrow>
     (\<exists>secret n. u_totp_secret row = Some secret \<and> totp_check W secret c n = Some True)"

lemma yields_create_token: "yields (issued E W ty ttl i role) (create_token E W ty ttl i role)"
  unfolding yields_def create_token_def unix_now_def issued_def token_claims_def
  by (auto simp: rbind_Inr_iff ask_iff need_iff)

lemma yields_both_tokens:
  "yields (\<lambda>(a, b). issued E W ''access'' 3600 i role a \<and> issued E W ''refresh'' 604800 i role b) (both_tokens E W i role)"
  unfolding both_tokens_def create_access_token_with_role_def create_refresh_token_with_role_def
  by (rule yields_rbind_dep [OF yields_create_token], rule yields_rbind_dep [OF yields_create_token])
    (simp add: yields_ret)

definition sound_answer :: "env \<Rightarrow> web \<Rightarrow> login_request \<Rightarrow> user_row \<Rightarrow> json \<Rightarrow> bool" where
  "sound_answer E W credentials row answer \<longleftrightarrow>
     (\<forall>token. j_field ''access_token'' answer = Some token \<longrightarrow>
        u_email_verified row \<and>
        issued E W ''access'' 3600 (u_id row) (show_role (u_role row)) token \<and>
        (u_role row = Admin \<and> u_totp_enabled row \<longrightarrow> code_accepted W row (opt_or [] (lo_totp credentials)))) \<and>
     (\<forall>token. j_field ''refresh_token'' answer = Some token \<longrightarrow>
        issued E W ''refresh'' 604800 (u_id row) (show_role (u_role row)) token \<and>
        (u_role row = Admin \<longrightarrow> u_totp_enabled row))"

lemma check_code_accepts:
  "check_code E W secret c s = (Inr v, t) \<Longrightarrow> \<exists>n. totp_check W secret c n = Some True"
  by (auto simp: check_code_def rbind_Inr_iff ask_iff split: if_splits)

lemma yields_login_admin:
  assumes "u_email_verified row" "u_role row = Admin"
  shows "yields (sound_answer E W body row) (login_admin E W body row)"
proof -
  have enrol: "yields (sound_answer E W body row) (rbind (create_access_token E W (u_id row)) (\<lambda>token.
      ret (totp_setup_required E (u_id row) token ''Please set up 2FA to continue.'')))" if "\<not> u_totp_enabled row"
    unfolding create_access_token_def create_access_token_with_role_def
    using assms that
    by (intro yields_rbind_dep [OF yields_create_token] yields_ret)
      (simp add: sound_answer_def totp_setup_required_def j_field_def opt_bind_def)
  have second: "yields (sound_answer E W body row) (rbind (need Panicked (u_totp_secret row)) (\<lambda>secret.
        rbind (check_code E W secret (opt_or [] (lo_totp body))) (\<lambda>_.
        rbind (both_tokens E W (u_id row) ''admin'') (\<lambda>(access, refresh).
        ret (authenticated E (u_id row) access refresh ''admin'')))))" (is "yields _ (rbind _ ?rest)")
    if "u_totp_enabled row"
  proof (rule yields_rbind_dep [where Q = "\<lambda>secret. u_totp_secret row = Some secret"])
    fix secret assume secret: "u_totp_secret row = Some secret"
    show "yields (sound_answer E W body row) (?rest secret)"
    proof (rule yields_rbind_dep [where Q = "\<lambda>_. code_accepted W row (opt_or [] (lo_totp body))"])
      show "yields (\<lambda>_. code_accepted W row (opt_or [] (lo_totp body))) (check_code E W secret (opt_or [] (lo_totp body)))"
        using secret by (auto simp: yields_def code_accepted_def dest: check_code_accepts)
      show "yields (sound_answer E W body row) (rbind (both_tokens E W (u_id row) ''admin'') (\<lambda>(access, refresh).
          ret (authenticated E (u_id row) access refresh ''admin'')))"
        if "code_accepted W row (opt_or [] (lo_totp body))"
        using assms that \<open>u_totp_enabled row\<close>
        by (intro yields_rbind_dep [OF yields_both_tokens])
          (auto intro!: yields_ret simp: sound_answer_def authenticated_def j_field_def opt_bind_def)
    qed
  qed (auto simp: yields_def need_iff)
  have asked: "yields (sound_answer E W body row) (ret (JObj [(''status'', JStr ''totp_required''),
      (''user_id'', JStr (uuid_show (lib_of E) (u_id row))), (''role'', JStr ''admin''),
      (''message'', JStr ''Please enter your 2FA code.'')]))"
    by (rule yields_ret) (simp add: sound_answer_def j_field_def opt_bind_def)
  show ?thesis
    unfolding login_admin_def using enrol second asked by (intro yields_if) simp_all
qed

text \<open>C4: the answer of a login carries tokens only when a user with the given e-mail exists, the password matches
  the stored hash and the address is verified; the tokens are sealed for that user and role, an administrator with
  a second factor has given an accepted code, and one without gets no refresh token.\<close>

theorem login_sound:
  assumes "login E W credentials s = (Inr answer, t)"
  shows "\<exists>row \<in> set (users s). u_email row = lo_email credentials \<and>
    pw_check W (lo_password credentials) (u_password_hash row) = Some True \<and>
    sound_answer E W credentials row answer"
proof -
  obtain row s1 where q: "or_http Server_Error (query E (user_by_email (lo_email credentials))) s = (Inr (Some row), s1)"
    and pw: "pw_check W (lo_password credentials) (u_password_hash row) = Some True"
    and rest: "(if \<not> u_email_verified row then
       rbind (renew_token E W (u_id row) (lo_email credentials)) (\<lambda>_.
       ret (verification_required E (u_id row) (show_role (u_role row))
              ''Please verify your email before signing in. A new verification link has been sent.''))
     else if u_role row = Common then
       rbind (both_tokens E W (u_id row) ''common'') (\<lambda>(access, refresh).
       ret (authenticated E (u_id row) access refresh ''common''))
     else login_admin E W credentials row) s1 = (Inr answer, t)" (is "?rest s1 = _")
    using assms unfolding login_def by (auto simp: rbind_Inr_iff need_iff split: if_split_asm)
  have row: "row \<in> set (users s)" "u_email row = lo_email credentials"
    using handler_query_Inr(2) [OF q] by (auto simp: user_by_email_def dest!: find_Some_in [OF sym])
  have common: "yields (sound_answer E W credentials row) (rbind (both_tokens E W (u_id row) ''common'') (\<lambda>(access, refresh).
       ret (authenticated E (u_id row) access refresh ''common'')))" if "u_email_verified row" "u_role row = Common"
    using that by (intro yields_rbind_dep [OF yields_both_tokens])
      (auto intro!: yields_ret simp: sound_answer_def authenticated_def j_field_def opt_bind_def)
  have pending: "yields (sound_answer E W credentials row) (rbind (renew_token E W (u_id row) (lo_email credentials)) (\<lambda>_.
       ret (verification_required E (u_id row) (show_role (u_role row))
              ''Please verify your email before signing in. A new verification link has been sent.'')))"
    by (intro yields_rbind yields_ret) (simp add: sound_answer_def verification_required_def j_field_def opt_bind_def)
  have "u_role row \<noteq> Common \<Longrightarrow> u_role row = Admin" by (cases "u_role row") simp_all
  then have "yields (sound_answer E W credentials row) ?rest"
    using pending common yields_login_admin by (intro yields_if) simp_all
  from yieldsD [OF this rest] have "sound_answer E W credentials row answer" .
  then show ?thesis using row pw by blast
qed

section \<open>From a sign-up to a session\<close>

text \<open>Documented behaviour of the libraries: a sealed token opens until it expires, and a hash checks.\<close>

definition token_law :: "env \<Rightarrow> web \<Rightarrow> bool" where
  "token_law E W \<longleftrightarrow>
     (\<forall>ty \<in> {''access'', ''refresh''}. \<forall>i r ttl tm. \<exists>token.
        jwt_seal W (claims_json (token_claims E ty ttl i (show_role r) tm)) (jwt_key E) = Some token \<and>
        (\<forall>n \<le> tm + ttl. jwt_open W token (jwt_key E) n = Some (claims_json (token_claims E ty ttl i (show_role r) tm))))"

definition hash_law :: "web \<Rightarrow> bool" where
  "hash_law W \<longleftrightarrow> (\<forall>p n. \<exists>h. pw_hash W p n = Some h \<and> pw_check W p h = Some True)"

definition uuid_law :: "env \<Rightarrow> bool" where
  "uuid_law E \<longleftrightarrow> (\<forall>i. uuid_parse (lib_of E) (uuid_show (lib_of E) i) = Some i)"

text \<open>Everything happens within the life of an access token and of a verification link.\<close>

definition within_the_hour :: "env \<Rightarrow> bool" where
  "within_the_hour E \<longleftrightarrow>
     (\<forall>n m. unix_secs E n \<le> unix_secs E m + 3600 \<and> db_now E n < uint (unix_secs E m) + 86400)"

definition admits :: "env \<Rightarrow> web \<Rightarrow> string \<Rightarrow> uuid \<Rightarrow> user_role \<Rightarrow> world \<Rightarrow> bool" where
  "admits E W token i r t \<longleftrightarrow>
     fst (require_auth E W (Some (''Bearer '' @ token)) t) = Inr \<lparr>au_id = i, au_role = show_role r\<rparr>"

lemma claims_round_trip: "claims_of_json (claims_json c) = Some c"
  by (cases c) (simp add: claims_json_def claims_of_json_def j_field_def j_num_def opt_bind_def)

lemma sql_served: "db_reply E (calls s) = Served \<Longrightarrow> sql E f s = f (s\<lparr>calls := Suc (calls s)\<rparr>)"
  by (simp add: sql_def Let_def)

lemma access_token_admits:
  assumes law: "token_law E W" "uuid_law E" "within_the_hour E"
    and token: "jwt_seal W (claims_json (token_claims E ''access'' 3600 i (show_role r) (unix_secs E n))) (jwt_key E) = Some token"
  shows "admits E W token i r t"
proof -
  let ?c = "token_claims E ''access'' 3600 i (show_role r) (unix_secs E n)"
  have "jwt_open W token (jwt_key E) (unix_secs E (calls t)) = Some (claims_json ?c)"
    using law(1,3) token unfolding token_law_def within_the_hour_def by (metis insertI1 option.inject)
  then show ?thesis
    using law(2)
    by (simp add: admits_def require_auth_def validate_token_def unix_now_def rbind_def ask_def need_def of_result_def
        claims_round_trip opt_bind_def ok_or_def uuid_law_def fail_def ret_def strip_prefix_append [of "''Bearer ''", simplified])
      (simp add: token_claims_def)
qed

lemma create_token_served:
  assumes "token_law E W" "ty \<in> {''access'', ''refresh''}"
  shows "\<exists>token. create_token E W ty ttl i (show_role r) s = (Inr token, s\<lparr>calls := Suc (calls s)\<rparr>) \<and>
    jwt_seal W (claims_json (token_claims E ty ttl i (show_role r) (unix_secs E (calls s)))) (jwt_key E) = Some token"
proof -
  obtain token where "jwt_seal W (claims_json (token_claims E ty ttl i (show_role r) (unix_secs E (calls s)))) (jwt_key E) = Some token"
    using assms unfolding token_law_def by blast
  then show ?thesis
    by (simp add: create_token_def unix_now_def rbind_def ask_def need_def of_result_def ok_or_def token_claims_def)
qed

lemma both_tokens_served:
  assumes law: "token_law E W" "uuid_law E" "within_the_hour E"
  shows "\<exists>access refresh t. both_tokens E W i (show_role r) s = (Inr (access, refresh), t) \<and> (\<forall>u. admits E W access i r u)"
proof -
  obtain access where a: "create_token E W ''access'' 3600 i (show_role r) s = (Inr access, s\<lparr>calls := Suc (calls s)\<rparr>)"
    and seal: "jwt_seal W (claims_json (token_claims E ''access'' 3600 i (show_role r) (unix_secs E (calls s)))) (jwt_key E) = Some access"
    using create_token_served [OF law(1)] by blast
  obtain refresh t where "create_token E W ''refresh'' 604800 i (show_role r) (s\<lparr>calls := Suc (calls s)\<rparr>) = (Inr refresh, t)"
    using create_token_served [OF law(1)] by blast
  then have "both_tokens E W i (show_role r) s = (Inr (access, refresh), t)"
    using a by (simp add: both_tokens_def create_access_token_with_role_def create_refresh_token_with_role_def rbind_def ret_def)
  then show ?thesis using access_token_admits [OF law seal] by blast
qed

text \<open>C7: whoever signs up with the address of a verified administrator that has no second factor yet is given, whatever
  the password, an access token that passes the check of the protected routes as that administrator.\<close>

theorem signup_takeover:
  assumes "signup_valid body" "user_by_email (su_email body) s = Some row"
    and "u_role row = Admin" "u_email_verified row" "\<not> u_totp_enabled row"
    and "\<forall>n. db_reply E n = Served" "hash_law W" "token_law E W" "uuid_law E" "within_the_hour E"
  shows "\<exists>answer token t. signup E W body s = (Inr answer, t) \<and> j_field ''access_token'' answer = Some token \<and>
    admits E W token (u_id row) Admin t"
proof -
  obtain h where h: "pw_hash W (su_password body) (calls s) = Some h" using assms(7) by (auto simp: hash_law_def)
  let ?s = "s\<lparr>calls := Suc (Suc (calls s))\<rparr>"
  obtain token where token: "create_token E W ''access'' 3600 (u_id row) (show_role Admin) ?s = (Inr token, ?s\<lparr>calls := Suc (calls ?s)\<rparr>)"
    and seal: "jwt_seal W (claims_json (token_claims E ''access'' 3600 (u_id row) (show_role Admin) (unix_secs E (calls ?s)))) (jwt_key E) = Some token"
    using create_token_served [OF assms(8)] by blast
  have "user_by_email (su_email body) ?s = Some row" using assms(2) by (simp add: user_by_email_def)
  then have "signup E W body s = (Inr (totp_setup_required E (u_id row) token ''Email verified. Please set up 2FA to continue.''),
      ?s\<lparr>calls := Suc (calls ?s)\<rparr>)"
    using assms(1,3-6) h token
    by (simp add: signup_def signup_existing_def rbind_def ask_def or_http_def map_err_def query_def sql_served gets_def
        ok_or_def create_access_token_def create_access_token_with_role_def ret_def)
  moreover have "j_field ''access_token'' (totp_setup_required E (u_id row) token m) = Some token" for m
    by (simp add: totp_setup_required_def j_field_def opt_bind_def)
  ultimately show ?thesis using access_token_admits [OF assms(8-10) seal] by blast
qed

text \<open>The three steps of a new account.\<close>

definition new_user :: "env \<Rightarrow> signup_request \<Rightarrow> string \<Rightarrow> nat \<Rightarrow> user_row" where
  "new_user E body h n = \<lparr>u_id = fresh_uuid E (n + 2), u_email = su_email body, u_password_hash = h,
     u_totp_secret = None, u_totp_enabled = False, u_created = db_now E (n + 6), u_email_verified = False,
     u_vtoken = Some (uuid_show (lib_of E) (fresh_uuid E (n + 3))), u_vexpires = Some (expiry_of (unix_secs E (n + 4)) 86400),
     u_role = Common, u_username = su_username body\<rparr>"

text \<open>Nobody has the address or the name, and the generated identifiers are new.\<close>

definition newcomer :: "env \<Rightarrow> signup_request \<Rightarrow> world \<Rightarrow> bool" where
  "newcomer E body s \<longleftrightarrow>
     (\<forall>u \<in> set (users s). u_email u \<noteq> su_email body \<and> u_username u \<noteq> su_username body \<and>
        (\<forall>n. u_id u \<noteq> fresh_uuid E n \<and> u_vtoken u \<noteq> Some (uuid_show (lib_of E) (fresh_uuid E n))))"

lemma signup_newcomer:
  assumes "signup_valid body" "newcomer E body s" "\<forall>n. db_reply E n = Served" "has_sender E" "mailbox_ok W (su_email body)"
    and h: "pw_hash W (su_password body) (calls s) = Some h"
  shows "\<exists>answer t. signup E W body s = (Inr answer, t) \<and> users t = users s @ [new_user E body h (calls s)] \<and>
    mails t = mails s @ [\<lparr>mail_to = su_email body, mail_subject = ''Verify your Liquifier account'',
      mail_text = verification_text E (uuid_show (lib_of E) (fresh_uuid E (calls s + 3)))\<rparr>]"
proof -
  let ?u = "new_user E body h (calls s)"
  have "find (\<lambda>u. u_email u = su_email body) (users s) = None"
    using assms(2) by (auto simp: newcomer_def find_None_iff)
  moreover have "\<not> list_ex (user_conflict ?u) (users s)"
    using assms(2) by (auto simp: newcomer_def list_ex_iff user_conflict_def new_user_def)
  ultimately show ?thesis
    using assms(1,3-5) h
    by (simp add: signup_def signup_new_def rbind_def ask_def ok_or_def or_http_def map_err_def query_def sql_served gets_def
        user_by_email_def fresh_def unix_now_def Let_def insert_user_def new_user_def send_verification_email_def hand_mail_def
        modify_def ret_def numeral_eq_Suc)
qed

lemma verify_newcomer:
  assumes us: "users s = us @ [new_user E body h n]"
    and others: "\<forall>u \<in> set us. \<forall>n. u_vtoken u \<noteq> Some (uuid_show (lib_of E) (fresh_uuid E n))"
    and served: "\<forall>n. db_reply E n = Served" "within_the_hour E"
  shows "\<exists>answer t. verify_email E (Some (uuid_show (lib_of E) (fresh_uuid E (n + 3)))) s = (Inr answer, t) \<and>
    users t = us @ [verified_user (new_user E body h n)]"
proof -
  let ?token = "uuid_show (lib_of E) (fresh_uuid E (n + 3))" and ?u = "new_user E body h n"
  have hit: "awaits ?token (db_now E m) ?u" for m
    using served(2) by (simp add: awaits_def new_user_def expiry_of_def within_the_hour_def)
  have miss: "\<not> awaits ?token tm u" if "u \<in> set us" for u tm
    using others that by (simp add: awaits_def)
  have find: "find (awaits ?token (db_now E m)) (us @ [?u]) = Some ?u" for m
    using hit miss by (intro find_unique) auto
  have update: "update_where (awaits ?token (db_now E m)) verified_user (us @ [?u]) = us @ [verified_user ?u]" for m
    using hit miss by (simp add: update_where_def map_idI)
  have changed: "length (filter (awaits ?token (db_now E m)) (us @ [?u])) = 1" for m
    using hit miss by (simp add: filter_False)
  define wallet :: "(world, http, unit) rt" where "wallet = rbind (attempt (connect E)) (\<lambda>c. case c of Inl e \<Rightarrow> ret ()
     | Inr u \<Rightarrow> rbind (attempt (with_kms E (\<lambda>master. create_wallet E master (uuid_show (lib_of E) (u_id ?u)) ''bsc''))) (\<lambda>_. ret ()))"
  let ?w = "s\<lparr>calls := Suc (Suc (calls s)), users := us @ [verified_user ?u]\<rparr>"
  have "keeps same_users wallet"
    unfolding wallet_def
    by (intro usame.keeps_rbind usame.keeps_attempt usame.keeps_connect usame.keeps_case_sum usame.keeps_ret
        usame.keeps_with_kms usame.keeps_new_wallet) (simp add: same_users_def)
  then have kept: "users (snd (wallet ?w)) = users ?w" using keeps_snd [of same_users wallet ?w] by (simp add: same_users_def)
  have "fst (wallet ?w) = Inr ()"
    unfolding wallet_def by (auto simp: rbind_def attempt_def ret_def split: prod.splits sum.splits)
  then obtain t where t: "wallet ?w = (Inr (), t)" "users t = users ?w" using kept by (metis prod.collapse)
  have "u_role ?u = Common" by (simp add: new_user_def)
  then have "verify_email E (Some ?token) s =
      rbind wallet (\<lambda>_. ret (JObj [(''verified'', JBool True), (''role'', JStr (show_role (u_role ?u)))])) ?w"
    using hit find update changed us served(1) unfolding wallet_def
    by (simp add: verify_email_def need_def ok_or_def rbind_def of_result_def or_http_def map_err_def query_def
        sql_served gets_def mark_verified_def)
  then show ?thesis using t by (simp add: rbind_def ret_def)
qed

text \<open>C6: with a database that answers, whoever signs up under a new address is mailed a token, the token verifies the
  one new row, which has the address, the password and an identifier no other user has, and the password then logs in
  with an access token that passes the check of the protected routes as the user of that row, a common one.\<close>

theorem signup_to_login:
  assumes "signup_valid body" "newcomer E body s" "\<forall>n. db_reply E n = Served" "has_sender E" "mailbox_ok W (su_email body)"
    and "hash_law W" "token_law E W" "uuid_law E" "within_the_hour E"
  shows "\<exists>token row. u_email row = su_email body \<and> u_username row = su_username body \<and> u_role row = Common \<and>
    u_email_verified row \<and> pw_check W (su_password body) (u_password_hash row) = Some True \<and>
    u_id row \<notin> u_id ` set (users s) \<and>
    (\<exists>a1 s1. signup E W body s = (Inr a1, s1) \<and>
      mails s1 = mails s @ [\<lparr>mail_to = su_email body, mail_subject = ''Verify your Liquifier account'',
        mail_text = verification_text E token\<rparr>] \<and>
      (\<exists>a2 s2. verify_email E (Some token) s1 = (Inr a2, s2) \<and> users s2 = users s @ [row] \<and>
        (\<exists>a3 s3 access. login E W \<lparr>lo_email = su_email body, lo_password = su_password body, lo_totp = None\<rparr> s2 = (Inr a3, s3) \<and>
          users s3 = users s @ [row] \<and> j_field ''access_token'' a3 = Some access \<and>
          admits E W access (u_id row) Common s3)))"
proof -
  obtain h where h: "pw_hash W (su_password body) (calls s) = Some h" "pw_check W (su_password body) h = Some True"
    using assms(6) unfolding hash_law_def by blast
  let ?u = "new_user E body h (calls s)"
  obtain a1 s1 where one: "signup E W body s = (Inr a1, s1)" "users s1 = users s @ [?u]"
    "mails s1 = mails s @ [\<lparr>mail_to = su_email body, mail_subject = ''Verify your Liquifier account'',
      mail_text = verification_text E (uuid_show (lib_of E) (fresh_uuid E (calls s + 3)))\<rparr>]"
    using signup_newcomer [OF assms(1-5) h(1)] by blast
  have "\<forall>u \<in> set (users s). \<forall>n. u_vtoken u \<noteq> Some (uuid_show (lib_of E) (fresh_uuid E n))"
    using assms(2) by (simp add: newcomer_def)
  then obtain a2 s2 where two: "verify_email E (Some (uuid_show (lib_of E) (fresh_uuid E (calls s + 3)))) s1 = (Inr a2, s2)"
      "users s2 = users s @ [verified_user ?u]"
    using verify_newcomer [OF one(2) _ assms(3,9)] by blast
  have "find (\<lambda>u. u_email u = su_email body) (users s @ [verified_user ?u]) = Some (verified_user ?u)"
    using assms(2) by (intro find_unique) (auto simp: newcomer_def verified_user_def new_user_def)
  then have found: "user_by_email (su_email body) (s2\<lparr>calls := Suc (calls s2)\<rparr>) = Some (verified_user ?u)"
    by (simp add: user_by_email_def two(2))
  obtain access refresh s3 where three: "both_tokens E W (u_id ?u) (show_role Common) (s2\<lparr>calls := Suc (calls s2)\<rparr>) = (Inr (access, refresh), s3)"
      "\<forall>u. admits E W access (u_id ?u) Common u"
    using both_tokens_served [OF assms(7-9)] by blast
  have same: "users s3 = users s @ [verified_user ?u]"
    using keepsD [OF tab.keeps_both_tokens three(1)] two(2) by (simp add: same_tables_def)
  have row: "u_email (verified_user ?u) = su_email body" "u_username (verified_user ?u) = su_username body"
      "u_id (verified_user ?u) \<notin> u_id ` set (users s)"
    using assms(2) by (simp_all add: verified_user_def new_user_def newcomer_def image_iff) metis
  have "u_email_verified (verified_user ?u)" "u_role (verified_user ?u) = Common" "u_id (verified_user ?u) = u_id ?u"
    "u_password_hash (verified_user ?u) = h"
    by (simp_all add: verified_user_def new_user_def)
  note fields = this
  then have "login E W \<lparr>lo_email = su_email body, lo_password = su_password body, lo_totp = None\<rparr> s2 =
      (Inr (authenticated E (u_id ?u) access refresh ''common''), s3)"
    using found three(1) h(2) assms(3)
    by (simp add: login_def rbind_def or_http_def map_err_def query_def sql_served gets_def need_def of_result_def ok_or_def ret_def)
  moreover have "j_field ''access_token'' (authenticated E (u_id ?u) access refresh ''common'') = Some access"
    by (simp add: authenticated_def j_field_def opt_bind_def)
  moreover have "pw_check W (su_password body) (u_password_hash (verified_user ?u)) = Some True"
    using h(2) fields(4) by simp
  ultimately show ?thesis using one(1,3) two same three(2) row fields(1,2,3) by metis
qed

section \<open>An instance\<close>

text \<open>
  A token is its claims in clear, a hash the password after a mark, the only code \<open>123456\<close>; the clocks
  stand still.
\<close>

definition claims_text :: "claims \<Rightarrow> string" where
  "claims_text c = show_nat (unat (c_exp c)) @ CHR ''.'' # show_nat (unat (c_iat c)) @ CHR ''.'' # c_type c @ CHR ''.'' #
     c_role c @ CHR ''.'' # c_sub c"

definition claims_of_text :: "string \<Rightarrow> u64 \<Rightarrow> json option" where
  "claims_of_text token tm =
     (case split_on CHR ''.'' token of
        [ex, iat, ty, role, sub] \<Rightarrow>
          if unat tm \<le> digits_val ex
          then Some (claims_json \<lparr>c_sub = sub, c_exp = of_nat (digits_val ex), c_iat = of_nat (digits_val iat), c_type = ty, c_role = role\<rparr>)
          else None
      | _ \<Rightarrow> None)"

definition sample_web :: web where
  "sample_web =
     \<lparr>pw_hash = (\<lambda>p n. Some (CHR ''#'' # p)), pw_check = (\<lambda>p h. Some (h = CHR ''#'' # p)),
      jwt_seal = (\<lambda>j key. map_option claims_text (claims_of_json j)), jwt_open = (\<lambda>token key tm. claims_of_text token tm),
      totp_ok = (\<lambda>secret issuer account. True), totp_check = (\<lambda>secret c n. Some (c = ''123456'')),
      totp_url = (\<lambda>secret account. account), totp_qr = (\<lambda>secret account. Some []), secret_text = (\<lambda>secret. []),
      mailbox_ok = (\<lambda>to. to \<noteq> []), u256_from_str = sample_u256_radix 10,
      eth_call_reply = (\<lambda>url to data n. Inr (JObj [])), log10_of = (\<lambda>x. Fin 0), power_of_10 = (\<lambda>x. Fin 1),
      header_value_ok = (\<lambda>s. True)\<rparr>"

definition gate_env :: env where
  "gate_env = sample_env\<lparr>cfg := sample_settings\<lparr>smtp := default_smtp\<lparr>smtp_host := ''mail'', smtp_base_url := ''https://app''\<rparr>\<rparr>,
     db_now := (\<lambda>n. 1700000000)\<rparr>"

lemma gate_env_parts:
  "lib_of gate_env = sample_lib" "db_reply gate_env n = Served" "unix_secs gate_env n = 1700000000"
  "db_now gate_env n = 1700000000" "fresh_uuid gate_env n = of_nat n" "grpc_down gate_env n = None"
  by (simp_all add: gate_env_def sample_env_parts)

lemma show_nat_no_point: "CHR ''.'' \<notin> set (show_nat n)"
  using all_digits_show_nat [of n] by (auto simp: all_digits_def list_all_iff is_digit_def code_def)

lemma show_hex_no_point: "CHR ''.'' \<notin> set (show_hex k n)"
  using set_show_hex [of "CHR ''.''" k n] by (auto simp: is_hex_char_def is_digit_def code_def)

lemma claims_text_opens:
  assumes "CHR ''.'' \<notin> set (c_type c)" "CHR ''.'' \<notin> set (c_role c)" "CHR ''.'' \<notin> set (c_sub c)" "tm \<le> c_exp c"
  shows "claims_of_text (claims_text c) tm = Some (claims_json c)"
proof -
  have "split_on CHR ''.'' (claims_text c) =
      [show_nat (unat (c_exp c)), show_nat (unat (c_iat c)), c_type c, c_role c, c_sub c]"
    by (simp add: claims_text_def split_on_append split_on_no show_nat_no_point assms(1-3))
  then show ?thesis using assms(4) by (cases c) (simp add: claims_of_text_def word_le_nat_alt)
qed

lemma gate_token_law: "token_law gate_env sample_web"
  unfolding token_law_def
proof (intro ballI allI exI conjI impI)
  fix ty i r and ttl tm n :: u64 assume ty: "ty \<in> {''access'', ''refresh''}"
  let ?c = "token_claims gate_env ty ttl i (show_role r) tm"
  show "jwt_seal sample_web (claims_json ?c) (jwt_key gate_env) = Some (claims_text ?c)"
    by (simp add: sample_web_def claims_round_trip)
  show "jwt_open sample_web (claims_text ?c) (jwt_key gate_env) n = Some (claims_json ?c)" if "n \<le> tm + ttl"
  proof -
    have "CHR ''.'' \<notin> set (show_role r)" by (cases r) simp_all
    then have "claims_of_text (claims_text ?c) n = Some (claims_json ?c)"
      using ty that by (intro claims_text_opens)
        (auto simp: token_claims_def gate_env_parts sample_lib_parts sample_uuid_show_def show_hex_no_point)
    then show ?thesis by (simp add: sample_web_def)
  qed
qed

lemma gate_hash_law: "hash_law sample_web"
  by (simp add: hash_law_def sample_web_def)

lemma gate_uuid_law: "uuid_law gate_env"
  unfolding uuid_law_def
proof
  fix i :: uuid
  have "\<not> starts_with ''0x'' (show_hex 32 (unat i))"
  proof
    assume "starts_with ''0x'' (show_hex 32 (unat i))"
    then obtain u where "show_hex 32 (unat i) = ''0x'' @ u"
      by (metis starts_with_def append_take_drop_id)
    then have "CHR ''x'' \<in> set (show_hex 32 (unat i))" by simp
    then show False using set_show_hex not_hex_x(1) by blast
  qed
  then have "strip_prefix ''0x'' (show_hex 32 (unat i)) = None"
    by (simp add: strip_prefix_def)
  moreover have "unat i < 16 ^ 32" using unsigned_less [of i, where ?'a = nat] by simp
  ultimately have "hex_parse 32 (show_hex 32 (unat i)) = Some (unat i)"
    by (simp add: hex_parse_def hex_digits_show_hex)
  then show "uuid_parse (lib_of gate_env) (uuid_show (lib_of gate_env) i) = Some i"
    by (simp add: gate_env_parts sample_lib_parts sample_uuid_parse_def sample_uuid_show_def)
qed

lemma gate_hour: "within_the_hour gate_env"
  by (simp add: within_the_hour_def gate_env_parts)

lemma gate_sender: "has_sender gate_env" "\<forall>n. db_reply gate_env n = Served"
  by (simp_all add: has_sender_def gate_env_def sample_env_parts)

definition sample_signup :: signup_request where
  "sample_signup = \<lparr>su_email = ''ann@mail'', su_password = ''correct horse'', su_username = Some ''ann'', su_role = ''common''\<rparr>"

lemma sample_signup_ok: "signup_valid sample_signup" "mailbox_ok sample_web (su_email sample_signup)"
  "newcomer gate_env sample_signup empty_world"
  by (simp_all add: signup_valid_def sample_signup_def sample_web_def newcomer_def empty_world_def)

theorem signup_to_login_witness:
  "\<exists>token row. u_email row = su_email sample_signup \<and> u_username row = su_username sample_signup \<and> u_role row = Common \<and>
    u_email_verified row \<and> pw_check sample_web (su_password sample_signup) (u_password_hash row) = Some True \<and>
    u_id row \<notin> u_id ` set (users empty_world) \<and>
    (\<exists>a1 s1. signup gate_env sample_web sample_signup empty_world = (Inr a1, s1) \<and>
      mails s1 = mails empty_world @ [\<lparr>mail_to = su_email sample_signup, mail_subject = ''Verify your Liquifier account'',
        mail_text = verification_text gate_env token\<rparr>] \<and>
      (\<exists>a2 s2. verify_email gate_env (Some token) s1 = (Inr a2, s2) \<and> users s2 = users empty_world @ [row] \<and>
        (\<exists>a3 s3 access. login gate_env sample_web \<lparr>lo_email = su_email sample_signup, lo_password = su_password sample_signup,
            lo_totp = None\<rparr> s2 = (Inr a3, s3) \<and>
          users s3 = users empty_world @ [row] \<and> j_field ''access_token'' a3 = Some access \<and>
          admits gate_env sample_web access (u_id row) Common s3)))"
  by (rule signup_to_login [OF sample_signup_ok(1,3) gate_sender(2,1) sample_signup_ok(2) gate_hash_law gate_token_law
        gate_uuid_law gate_hour])

text \<open>An administrator, without and with a second factor.\<close>

definition admin_row :: user_row where
  "admin_row = \<lparr>u_id = 1, u_email = ''ann@mail'', u_password_hash = ''#battery staple'', u_totp_secret = None, u_totp_enabled = False,
     u_created = 0, u_email_verified = True, u_vtoken = None, u_vexpires = None, u_role = Admin, u_username = None\<rparr>"

definition admin_world :: world where
  "admin_world = empty_world\<lparr>users := [admin_row]\<rparr>"

definition guarded_world :: world where
  "guarded_world = empty_world\<lparr>users := [admin_row\<lparr>u_totp_secret := Some [7], u_totp_enabled := True\<rparr>]\<rparr>"

theorem signup_takeover_witness:
  "\<exists>answer token t. signup gate_env sample_web sample_signup admin_world = (Inr answer, t) \<and>
    j_field ''access_token'' answer = Some token \<and> admits gate_env sample_web token (u_id admin_row) Admin t"
proof (rule signup_takeover [OF sample_signup_ok(1) _ _ _ _ gate_sender(2) gate_hash_law gate_token_law gate_uuid_law gate_hour])
  show "user_by_email (su_email sample_signup) admin_world = Some admin_row"
    by (simp add: user_by_email_def sample_signup_def admin_world_def empty_world_def admin_row_def)
qed (simp_all add: admin_row_def)

theorem accounts_well_formed_witness:
  "let t = snd (signup gate_env sample_web sample_signup empty_world); creds = \<lparr>lo_email = ''ann@mail'', lo_password = [], lo_totp = None\<rparr>
   in users t \<noteq> [] \<and> users_good (users t) \<and> fst (login gate_env sample_web creds t) \<noteq> Inl Panicked \<and>
     fst (confirm_2fa gate_env sample_web \<lparr>au_id = 2, au_role = ''common''\<rparr> None t) \<noteq> Inl Panicked"
proof -
  have start: "users empty_world = []" by (simp add: empty_world_def)
  have steps: "(account_step gate_env sample_web)\<^sup>*\<^sup>* empty_world (snd (signup gate_env sample_web sample_signup empty_world))"
    by (rule r_into_rtranclp) (rule signs_up [OF prod.collapse [symmetric]])
  have "users (snd (signup gate_env sample_web sample_signup empty_world)) \<noteq> []"
    using signup_newcomer [OF sample_signup_ok(1,3) gate_sender(2,1) sample_signup_ok(2)] gate_hash_law
    unfolding hash_law_def by (metis snd_conv snoc_eq_iff_butlast)
  then show ?thesis
    using accounts_well_formed [OF start steps, of "\<lparr>lo_email = ''ann@mail'', lo_password = [], lo_totp = None\<rparr>" "\<lparr>au_id = 2, au_role = ''common''\<rparr>" None]
    by (simp add: Let_def)
qed

definition admin_login :: login_request where
  "admin_login = \<lparr>lo_email = ''ann@mail'', lo_password = ''battery staple'', lo_totp = Some ''123456''\<rparr>"

lemma admin_login_answer:
  "case fst (login gate_env sample_web admin_login guarded_world) of Inl e \<Rightarrow> False
   | Inr answer \<Rightarrow> j_field ''access_token'' answer \<noteq> None \<and> j_field ''refresh_token'' answer \<noteq> None"
  by code_simp

theorem login_sound_witness:
  "\<exists>answer. j_field ''access_token'' answer \<noteq> None \<and> (\<exists>row \<in> set (users guarded_world). u_email row = lo_email admin_login \<and>
    pw_check sample_web (lo_password admin_login) (u_password_hash row) = Some True \<and>
    sound_answer gate_env sample_web admin_login row answer)"
proof -
  obtain answer t where run: "login gate_env sample_web admin_login guarded_world = (Inr answer, t)"
      "j_field ''access_token'' answer \<noteq> None"
    using admin_login_answer by (auto split: sum.splits) (metis prod.collapse)
  from login_sound [OF run(1)] run(2) show ?thesis by blast
qed

end
