(* ===== verification/Refunds.thy ===== *)
theory Refunds
  imports PriceCache Sessions Submit AuthSafe
begin

text \<open>
  Refund requests (\<open>crates/api-gateway/src/routes.rs\<close>): a common user asks for an amount in USD, confirms
  it by e-mail, and an administrator decides.  The engine adds requests of its own for what is left in a
  wallet (\<open>check_and_create_excess_refund\<close> of theory Submit).
\<close>

section \<open>Asking for a refund\<close>

definition wallet_of_user :: "uuid \<Rightarrow> world \<Rightarrow> wallet_row option" where
  "wallet_of_user i s = find (\<lambda>w. w_user w = i) (wallets s)"

text \<open>The price of the token that the platform sells.\<close>

definition sell_token_price :: "env \<Rightarrow> web \<Rightarrow> (world, http, f64) rt" where
  "sell_token_price E W =
     (let X = execution (cfg E) in
      rbind (need Server_Error (addr_parse (lib_of E) (buy_trigger_oracle_address X))) (\<lambda>orc.
      rbind (need Server_Error (map_of (chain_entries (cfg E)) (session_chain X))) (\<lambda>chain_cfg.
      let rpc_url = trim (cc_rpc_url chain_cfg) in
      if rpc_url = [] then fail Server_Error
      else
        rbind (resolve_cached_oracle_pool E W (session_chain X) (ex_sell_token X) False) (\<lambda>(pool, _).
        rbind (or_http Server_Error (fetch_pool_price_36 E rpc_url orc (ex_sell_token X) pool)) (\<lambda>usd_price_36.
        ret (usd_of_36 (lib_of E) usd_price_36))))))"

definition token_scale :: "u32 \<Rightarrow> f64" where
  "token_scale decimals = f_powi (Fin 10) (sint decimals)"

text \<open>The amount of tokens for an amount in USD, in the smallest unit, as text.\<close>

definition refund_amount_raw :: "f64 \<Rightarrow> f64 \<Rightarrow> f64 \<Rightarrow> u32 \<Rightarrow> string" where
  "refund_amount_raw amount_usd balance_raw token_balance_usd decimals =
     (let usd_price_per_token = (if f_lt (Fin 0) balance_raw then f_div token_balance_usd balance_raw else Fin 0);
          token_amount = (if f_lt (Fin 0) usd_price_per_token then f_div amount_usd usd_price_per_token else Fin 0)
      in f_show_fixed 0 (f_mul token_amount (token_scale decimals)))"

definition insert_refund_request :: "f64 \<Rightarrow> (rat \<Rightarrow> refund_row) \<Rightarrow> world \<Rightarrow> (err + unit) \<times> world" where
  "insert_refund_request amount_usd row s =
     (case float_column 15 2 amount_usd of
        Inl e \<Rightarrow> (Inl e, s)
      | Inr a \<Rightarrow>
          if list_ex (\<lambda>q. r_id q = r_id (row a)) (refunds s) then (Inl ''duplicate key value violates unique constraint'', s)
          else if \<not> list_ex (\<lambda>u. u_id u = r_user (row a)) (users s) \<or> \<not> list_ex (\<lambda>w. w_id w = r_wallet (row a)) (wallets s)
          then (Inl ''violates foreign key constraint'', s)
          else (Inr (), s\<lparr>refunds := refunds s @ [row a]\<rparr>))"

definition new_refund ::
  "env \<Rightarrow> auth_user \<Rightarrow> uuid \<Rightarrow> wallet_row \<Rightarrow> string \<Rightarrow> string \<Rightarrow> string \<Rightarrow> int \<Rightarrow> int \<Rightarrow> rat \<Rightarrow> refund_row" where
  "new_refund E user i w amount_raw dest token expires tm a =
     \<lparr>r_id = i, r_user = au_id user, r_wallet = w_id w, r_amount = amount_raw,
      r_token = ex_sell_token (execution (cfg E)), r_symbol = ex_sell_token_symbol (execution (cfg E)),
      r_status = ''pending'', r_note = None, r_amount_usd = Some a, r_destination = Some dest,
      r_vtoken = Some token, r_vexpires = Some expires, r_verified = False, r_created = tm, r_updated = tm\<rparr>"

text \<open>From the stored request to the e-mail.\<close>

definition store_refund_request ::
  "env \<Rightarrow> web \<Rightarrow> auth_user \<Rightarrow> f64 \<Rightarrow> string \<Rightarrow> wallet_row \<Rightarrow> string \<Rightarrow> (world, http, json) rt" where
  "store_refund_request E W user amount_usd dest w amount_raw =
     rbind (fresh E) (\<lambda>token_id.
     let token = uuid_show (lib_of E) token_id in
     rbind (unix_now E) (\<lambda>t.
     rbind (fresh E) (\<lambda>i.
     rbind (or_http Server_Error (sql E (\<lambda>s. insert_refund_request amount_usd
       (new_refund E user i w amount_raw dest token (expiry_of t 3600) (db_now E (calls s))) s))) (\<lambda>_.
     rbind (or_http Server_Error (query E (\<lambda>s. map_option u_email (user_by_id (au_id user) s)))) (\<lambda>row.
     rbind (need Server_Error row) (\<lambda>user_email.
     rbind (if has_sender E then send_refund_verification_email E W user_email token amount_usd dest else ret ()) (\<lambda>_.
     ret (JObj [(''refund_id'', JStr (uuid_show (lib_of E) i)), (''status'', JStr ''unverified''),
       (''message'', JStr ''Please check your email to confirm this refund request.'')]))))))))"

definition create_refund_request :: "env \<Rightarrow> web \<Rightarrow> auth_user \<Rightarrow> f64 \<Rightarrow> string \<Rightarrow> (world, http, json) rt" where
  "create_refund_request E W user amount_usd destination_wallet =
     (let L = lib_of E; X = execution (cfg E); dest = trim destination_wallet in
      if au_role user \<noteq> ''common'' then fail Forbidden
      else if f_le amount_usd (Fin 0) then fail Bad_Request
      else if \<not> validate_hex_address L dest then fail Bad_Request
      else
        rbind (or_http Server_Error (query E (wallet_of_user (au_id user)))) (\<lambda>wallet_row.
        rbind (need Not_Found wallet_row) (\<lambda>w.
        rbind (connect E) (\<lambda>_.
        rbind (or_http Server_Error (grpc E (get_balance E (uuid_show L (w_id w)) (ex_sell_token X) []))) (\<lambda>(balance, _).
        let balance_raw = f_div (opt_or (Fin 0) (f_parse balance)) (token_scale (ex_sell_token_decimals X)) in
        rbind (sell_token_price E W) (\<lambda>usd_price.
        let token_balance_usd = f_mul balance_raw usd_price in
        if f_lt token_balance_usd amount_usd then fail Bad_Request
        else store_refund_request E W user amount_usd dest w
               (refund_amount_raw amount_usd balance_raw token_balance_usd (ex_sell_token_decimals X))))))))"

section \<open>Confirming and deciding\<close>

definition refund_awaits :: "string \<Rightarrow> int \<Rightarrow> refund_row \<Rightarrow> bool" where
  "refund_awaits token tm r \<longleftrightarrow>
     r_vtoken r = Some token \<and> (case r_vexpires r of None \<Rightarrow> False | Some ex \<Rightarrow> tm < ex) \<and> \<not> r_verified r"

definition confirmed_refund :: "int \<Rightarrow> refund_row \<Rightarrow> refund_row" where
  "confirmed_refund tm r =
     r\<lparr>r_verified := True, r_status := ''pending'', r_vtoken := None, r_vexpires := None, r_updated := tm\<rparr>"

definition confirm_refund :: "env \<Rightarrow> string \<Rightarrow> world \<Rightarrow> (err + uuid option) \<times> world" where
  "confirm_refund E token s =
     (let tm = db_now E (calls s) in
      (Inr (map_option r_id (find (refund_awaits token tm) (refunds s))),
       s\<lparr>refunds := update_where (refund_awaits token tm) (confirmed_refund tm) (refunds s)\<rparr>))"

definition verify_refund :: "env \<Rightarrow> string option \<Rightarrow> (world, http, json) rt" where
  "verify_refund E param =
     rbind (need Bad_Request param) (\<lambda>token.
     rbind (or_http Server_Error (sql E (confirm_refund E token))) (\<lambda>result.
     rbind (need Bad_Request result) (\<lambda>i.
     ret (JObj [(''verified'', JBool True), (''refund_id'', JStr (uuid_show (lib_of E) i)),
       (''message'', JStr ''Refund request verified and submitted for admin review.'')]))))"

definition refund_fields :: "lib \<Rightarrow> refund_row \<Rightarrow> (string \<times> json) list" where
  "refund_fields L r =
     [(''amount'', JStr (r_amount r)), (''token_address'', JStr (r_token r)), (''token_symbol'', JStr (r_symbol r)),
      (''status'', JStr (r_status r)), (''admin_note'', opt_str (r_note r)), (''created_at'', JStr (time_show L (r_created r))),
      (''updated_at'', JStr (time_show L (r_updated r))), (''amount_usd'', opt_str (map_option (decimal_show L) (r_amount_usd r))),
      (''destination_wallet'', opt_str (r_destination r)), (''verified'', JBool (r_verified r))]"

definition list_my_refund_requests :: "env \<Rightarrow> auth_user \<Rightarrow> (world, http, json) rt" where
  "list_my_refund_requests E user =
     (let L = lib_of E in
      rbind (or_http Server_Error (query E (\<lambda>s. sort_key (\<lambda>r. - r_created r) (filter (\<lambda>r. r_user r = au_id user) (refunds s))))) (\<lambda>rows.
      ret (JObj [(''refunds'', JArr (map (\<lambda>r. JObj ([(''refund_id'', JStr (uuid_show L (r_id r))),
        (''wallet_id'', JStr (uuid_show L (r_wallet r)))] @ refund_fields L r)) rows))])))"

text \<open>What an administrator sees: verified requests with their user and, if it exists, their wallet.\<close>

definition listed_refunds :: "world \<Rightarrow> (refund_row \<times> user_row \<times> wallet_row option) list" where
  "listed_refunds s =
     List.map_filter (\<lambda>r. map_option (\<lambda>u. (r, u, wallet_by_id (r_wallet r) s)) (user_by_id (r_user r) s))
       (sort_key (\<lambda>r. - r_created r) (filter r_verified (refunds s)))"

definition admin_list_refund_requests :: "env \<Rightarrow> auth_user \<Rightarrow> (world, http, json) rt" where
  "admin_list_refund_requests E user =
     (let L = lib_of E in
      if \<not> is_admin user then fail Forbidden
      else
        rbind (or_http Server_Error (query E listed_refunds)) (\<lambda>rows.
        ret (JObj [(''refunds'', JArr (map (\<lambda>(r, u, w). JObj ([(''refund_id'', JStr (uuid_show L (r_id r))),
          (''user_id'', JStr (uuid_show L (r_user r))), (''wallet_id'', JStr (uuid_show L (r_wallet r))),
          (''wallet_address'', opt_str (map_option w_address w)), (''email'', JStr (u_email u)),
          (''username'', opt_str (u_username u))] @ refund_fields L r)) rows))])))"

definition decide_refund :: "env \<Rightarrow> uuid \<Rightarrow> string \<Rightarrow> string option \<Rightarrow> world \<Rightarrow> (err + nat) \<times> world" where
  "decide_refund E i st note s =
     (Inr (length (filter (\<lambda>r. r_id r = i) (refunds s))),
      s\<lparr>refunds := update_where (\<lambda>r. r_id r = i)
          (\<lambda>r. r\<lparr>r_status := st, r_note := note, r_updated := db_now E (calls s)\<rparr>) (refunds s)\<rparr>)"

definition admin_update_refund_status ::
  "env \<Rightarrow> auth_user \<Rightarrow> string \<Rightarrow> string \<Rightarrow> string option \<Rightarrow> (world, http, json) rt" where
  "admin_update_refund_status E user refund_id st admin_note =
     (if \<not> is_admin user then fail Forbidden
      else if st \<notin> {''approved'', ''rejected'', ''completed''} then fail Bad_Request
      else
        rbind (need Bad_Request (uuid_parse (lib_of E) refund_id)) (\<lambda>i.
        rbind (or_http Server_Error (sql E (decide_refund E i st admin_note))) (\<lambda>affected.
        if affected = 0 then fail Not_Found
        else ret (JObj [(''refund_id'', JStr refund_id), (''status'', JStr st)]))))"

section \<open>Frame\<close>

text \<open>
  A relation of worlds that ignores Redis and e-mails, and is kept by a new request of its owner with a
  generated token, a confirmation and a decision, is kept by the handlers on refunds.
\<close>

locale refund_rel = cache_rel R + mail_rel R for R :: "world \<Rightarrow> world \<Rightarrow> bool" +
  fixes E :: env
  assumes rel_request: "validate_hex_address (lib_of E) dest \<Longrightarrow> token = uuid_show (lib_of E) (fresh_uuid E n) \<Longrightarrow>
      R s (snd (insert_refund_request amount_usd (new_refund E user i w amount_raw dest token expires tm) s))"
    and rel_confirm: "R s (snd (confirm_refund E token s))"
    and rel_decide: "st \<in> {''approved'', ''rejected'', ''completed''} \<Longrightarrow> R s (snd (decide_refund E i st note s))"
begin

lemma keeps_sell_price: "keeps R (sell_token_price E W)"
  unfolding sell_token_price_def Let_def by (intro keeps_resolve keeps_pool_price keeps_http)

lemma keeps_fresh_then: "(\<And>n. keeps R (f (fresh_uuid E n))) \<Longrightarrow> keeps R (rbind (fresh E) f)"
  unfolding keeps_def fresh_def ask_def rbind_def using rel_calls rel_trans by (metis old.sum.simps(6) prod.case)

lemma keeps_store_request:
  assumes "validate_hex_address (lib_of E) dest"
  shows "keeps R (store_refund_request E W user amount_usd dest w amount_raw)"
proof -
  have "R s (snd (insert_refund_request amount_usd
      (new_refund E user i w amount_raw dest (uuid_show (lib_of E) (fresh_uuid E n)) ex (db_now E (calls s))) s))" for i n ex s
    by (rule rel_request [OF assms refl])
  then show ?thesis
    unfolding store_refund_request_def Let_def by (intro keeps_fresh_then keeps_sql keeps_mails keeps_http)
qed

lemma keeps_create_request: "keeps R (create_refund_request E W user amount_usd dest)"
  unfolding create_refund_request_def Let_def
  by (intro keeps_store_request keeps_sell_price keeps_get_balance keeps_grpc keeps_http) simp

lemma keeps_verify_request: "keeps R (verify_refund E param)"
  unfolding verify_refund_def by (intro keeps_sql rel_confirm keeps_http)

lemma keeps_decision: "keeps R (admin_update_refund_status E user refund_id st note)"
  unfolding admin_update_refund_status_def by (intro keeps_sql rel_decide keeps_http) simp

end

section \<open>The life of a request\<close>

text \<open>Any step of the handlers and of the engine, and whatever leaves the requests alone.\<close>

inductive refund_step :: "env \<Rightarrow> web \<Rightarrow> world \<Rightarrow> world \<Rightarrow> bool" for E :: env and W :: web where
  asks: "create_refund_request E W user amount_usd dest s = (r, t) \<Longrightarrow> refund_step E W s t"
| confirms: "verify_refund E param s = (r, t) \<Longrightarrow> refund_step E W s t"
| decides: "admin_update_refund_status E user refund_id st note s = (r, t) \<Longrightarrow> refund_step E W s t"
| leaves_excess: "(check_and_create_excess_refund E session :: (world, unit, unit) rt) s = (q, t) \<Longrightarrow> refund_step E W s t"
| elsewhere: "refunds t = refunds s \<Longrightarrow> refund_step E W s t"

definition refund_good :: "lib \<Rightarrow> refund_row \<Rightarrow> bool" where
  "refund_good L r \<longleftrightarrow>
     r_status r \<in> {''pending'', ''approved'', ''rejected'', ''completed''} \<and>
     (r_verified r \<longrightarrow> r_vtoken r = None) \<and>
     (r_verified r \<or> r_vtoken r \<noteq> None \<longrightarrow>
        r_amount_usd r \<noteq> None \<and> (case r_destination r of None \<Rightarrow> False | Some d \<Rightarrow> validate_hex_address L d))"

definition refunds_good :: "lib \<Rightarrow> world \<Rightarrow> bool" where
  "refunds_good L s \<longleftrightarrow> list_all (refund_good L) (refunds s)"

text \<open>A request without a token that nobody has verified.\<close>

definition hidden_refund :: "uuid \<Rightarrow> world \<Rightarrow> bool" where
  "hidden_refund i s \<longleftrightarrow>
     list_ex (\<lambda>r. r_id r = i) (refunds s) \<and>
     list_all (\<lambda>r. r_id r = i \<longrightarrow> \<not> r_verified r \<and> r_vtoken r = None) (refunds s)"

text \<open>No request waits for the token any more: each that carries it is verified or has expired.\<close>

definition spent :: "string \<Rightarrow> int \<Rightarrow> world \<Rightarrow> bool" where
  "spent token tm s \<longleftrightarrow> list_all (\<lambda>r. \<not> refund_awaits token tm r) (refunds s)"

definition never_generated :: "string \<Rightarrow> env \<Rightarrow> bool" where
  "never_generated token E \<longleftrightarrow> (\<forall>n. uuid_show (lib_of E) (fresh_uuid E n) \<noteq> token)"

lemma list_all_update_where:
  "list_all P rows \<Longrightarrow> (\<And>r. P r \<Longrightarrow> Q r \<Longrightarrow> P (f r)) \<Longrightarrow> list_all P (update_where Q f rows)"
  by (auto simp: list_all_iff update_where_def)

lemma update_where_ids:
  "(\<And>r. r_id (f r) = r_id r) \<Longrightarrow> list_ex (\<lambda>r. r_id r = i) (update_where Q f rows) = list_ex (\<lambda>r. r_id r = i) rows"
  by (auto simp: list_ex_iff update_where_def)

interpretation rgd: world_inv "refunds_good L" for L
  by unfold_locales (simp_all add: refunds_good_def)

interpretation rfd: refund_rel "inv_step (refunds_good (lib_of E))" E for E
proof
  fix s :: world and dest token :: string and i :: uuid and st :: string and remark :: "string option"
  show "inv_step (refunds_good (lib_of E)) s (s\<lparr>redis_keys := ks\<rparr>)" for ks by (simp add: inv_step_def refunds_good_def)
  show "inv_step (refunds_good (lib_of E)) s (s\<lparr>mails := mails s @ ms\<rparr>)" for ms by (simp add: inv_step_def refunds_good_def)
  show "inv_step (refunds_good (lib_of E)) s
      (snd (insert_refund_request a (new_refund E user i w raw dest token ex tm) s))"
    if "validate_hex_address (lib_of E) dest" for a user w raw ex tm
    using that
    by (auto simp: inv_step_def refunds_good_def insert_refund_request_def new_refund_def refund_good_def split: sum.splits)
  show "inv_step (refunds_good (lib_of E)) s (snd (confirm_refund E token s))"
    by (auto simp: inv_step_def refunds_good_def confirm_refund_def Let_def confirmed_refund_def refund_awaits_def refund_good_def
        intro!: list_all_update_where)
  show "inv_step (refunds_good (lib_of E)) s (snd (decide_refund E i st remark s))"
    if "st \<in> {''approved'', ''rejected'', ''completed''}"
    using that by (auto simp: inv_step_def refunds_good_def decide_refund_def refund_good_def intro!: list_all_update_where)
qed

interpretation rhi: world_inv "hidden_refund j" for j
  by unfold_locales (simp_all add: hidden_refund_def)

interpretation rhd: refund_rel "inv_step (hidden_refund j)" E for j E
proof
  fix s :: world and dest token :: string and i :: uuid and st :: string and remark :: "string option"
  show "inv_step (hidden_refund j) s (s\<lparr>redis_keys := ks\<rparr>)" for ks by (simp add: inv_step_def hidden_refund_def)
  show "inv_step (hidden_refund j) s (s\<lparr>mails := mails s @ ms\<rparr>)" for ms by (simp add: inv_step_def hidden_refund_def)
  show "inv_step (hidden_refund j) s (snd (insert_refund_request a (new_refund E user i w raw dest token ex tm) s))"
    for a user w raw ex tm
    by (auto simp: inv_step_def hidden_refund_def insert_refund_request_def new_refund_def split: sum.splits)
  show "inv_step (hidden_refund j) s (snd (confirm_refund E token s))"
    by (auto simp: inv_step_def hidden_refund_def confirm_refund_def Let_def confirmed_refund_def refund_awaits_def update_where_ids
        intro!: list_all_update_where)
  show "inv_step (hidden_refund j) s (snd (decide_refund E i st remark s))"
    by (auto simp: inv_step_def hidden_refund_def decide_refund_def update_where_ids intro!: list_all_update_where)
qed

interpretation rsi: world_inv "spent tok tm" for tok tm
  by unfold_locales (simp_all add: spent_def)

text \<open>Where other tokens are generated, a spent token stays spent.\<close>

lemma awaits_update:
  "\<not> refund_awaits tok tm r \<Longrightarrow> \<not> refund_awaits tok tm (confirmed_refund tm' r)"
  "refund_awaits tok tm (r\<lparr>r_status := st, r_note := remark, r_updated := tm'\<rparr>) = refund_awaits tok tm r"
  by (simp_all add: refund_awaits_def confirmed_refund_def)

definition keeps_spent :: "string \<Rightarrow> int \<Rightarrow> env \<Rightarrow> world \<Rightarrow> world \<Rightarrow> bool" where
  "keeps_spent tok tm E s t \<longleftrightarrow> (never_generated tok E \<longrightarrow> inv_step (spent tok tm) s t)"

interpretation rsw: world_rel "keeps_spent tok tm E" for tok tm E
  by unfold_locales (auto simp: keeps_spent_def inv_step_def spent_def)

interpretation rsd: refund_rel "keeps_spent tok tm E" E for tok tm E
proof
  fix s :: world and dest token :: string and i :: uuid and st :: string and remark :: "string option"
  show "keeps_spent tok tm E s (s\<lparr>redis_keys := ks\<rparr>)" for ks by (simp add: keeps_spent_def inv_step_def spent_def)
  show "keeps_spent tok tm E s (s\<lparr>mails := mails s @ ms\<rparr>)" for ms by (simp add: keeps_spent_def inv_step_def spent_def)
  show "keeps_spent tok tm E s (snd (insert_refund_request a (new_refund E user i w raw dest token ex tm') s))"
    if "token = uuid_show (lib_of E) (fresh_uuid E n)" for a user w raw ex tm' n
    using that
    by (auto simp: keeps_spent_def never_generated_def inv_step_def spent_def insert_refund_request_def new_refund_def
        refund_awaits_def split: sum.splits)
  show "keeps_spent tok tm E s (snd (confirm_refund E token s))"
    by (auto simp: keeps_spent_def inv_step_def spent_def confirm_refund_def Let_def awaits_update intro!: list_all_update_where)
  show "keeps_spent tok tm E s (snd (decide_refund E i st remark s))"
    by (auto simp: keeps_spent_def inv_step_def spent_def decide_refund_def awaits_update intro!: list_all_update_where)
qed

section \<open>Every reachable table\<close>

lemma refunds_good_step:
  assumes "refund_step E W s t" and "refunds_good (lib_of E) s"
  shows "refunds_good (lib_of E) t"
  using assms
proof (induction rule: refund_step.induct)
  case (asks user amount_usd dest s r t)
  then show ?case using rgd.inv_run [OF rfd.keeps_create_request] by blast
next
  case (confirms param s r t)
  then show ?case using rgd.inv_run [OF rfd.keeps_verify_request] by blast
next
  case (decides user refund_id st remark s r t)
  then show ?case using rgd.inv_run [OF rfd.keeps_decision] by blast
next
  case (leaves_excess session s q t)
  have "keeps (inv_step (refunds_good (lib_of E))) (check_and_create_excess_refund E session :: (world, unit, unit) rt)"
    by (rule rgd.keeps_excess_refund) (auto simp: inv_step_def refunds_good_def refund_good_def leftover_def)
  then show ?case using leaves_excess rgd.inv_run by blast
next
  case (elsewhere t s)
  then show ?case by (simp add: refunds_good_def)
qed

lemma hidden_refund_step:
  assumes "refund_step E W s t" and "hidden_refund j s"
  shows "hidden_refund j t"
  using assms
proof (induction rule: refund_step.induct)
  case (asks user amount_usd dest s r t)
  then show ?case using rhi.inv_run [OF rhd.keeps_create_request] by blast
next
  case (confirms param s r t)
  then show ?case using rhi.inv_run [OF rhd.keeps_verify_request] by blast
next
  case (decides user refund_id st remark s r t)
  then show ?case using rhi.inv_run [OF rhd.keeps_decision] by blast
next
  case (leaves_excess session s q t)
  have "keeps (inv_step (hidden_refund j)) (check_and_create_excess_refund E session :: (world, unit, unit) rt)"
    by (rule rhi.keeps_excess_refund) (auto simp: inv_step_def hidden_refund_def leftover_def)
  then show ?case using leaves_excess rhi.inv_run by blast
next
  case (elsewhere t s)
  then show ?case by (simp add: hidden_refund_def)
qed

lemma spent_step:
  assumes "refund_step E W s t" and "spent tok tm s" and other: "never_generated tok E"
  shows "spent tok tm t"
  using assms(1,2)
proof (induction rule: refund_step.induct)
  case (asks user amount_usd dest s r t)
  then show ?case using keepsD [OF rsd.keeps_create_request asks(1)] other by (auto simp: keeps_spent_def inv_step_def)
next
  case (confirms param s r t)
  then show ?case using keepsD [OF rsd.keeps_verify_request confirms(1)] other by (auto simp: keeps_spent_def inv_step_def)
next
  case (decides user refund_id st remark s r t)
  then show ?case using keepsD [OF rsd.keeps_decision decides(1)] other by (auto simp: keeps_spent_def inv_step_def)
next
  case (leaves_excess session s q t)
  have "keeps (inv_step (spent tok tm)) (check_and_create_excess_refund E session :: (world, unit, unit) rt)"
    by (rule rsi.keeps_excess_refund) (auto simp: inv_step_def spent_def leftover_def refund_awaits_def)
  then show ?case using leaves_excess rsi.inv_run by blast
next
  case (elsewhere t s)
  then show ?case by (simp add: spent_def)
qed

lemma spent_steps:
  assumes "(refund_step E W)\<^sup>*\<^sup>* s t" and "never_generated tok E"
  shows "spent tok tm s \<Longrightarrow> spent tok tm t"
  using assms(1) by (induction rule: rtranclp_induct) (auto intro: spent_step assms(2))

text \<open>A refund of what was left, if one is added, is such a request.\<close>

definition adds_hidden :: "world \<Rightarrow> world \<Rightarrow> bool" where
  "adds_hidden s t \<longleftrightarrow>
     set (refunds s) \<subseteq> set (refunds t) \<and>
     (\<forall>r \<in> set (refunds t). r \<in> set (refunds s) \<or> hidden_refund (r_id r) t)"

lemma hidden_refund_iff:
  "hidden_refund i s \<longleftrightarrow>
     (\<exists>r \<in> set (refunds s). r_id r = i) \<and> (\<forall>r \<in> set (refunds s). r_id r = i \<longrightarrow> \<not> r_verified r \<and> r_vtoken r = None)"
  by (simp add: hidden_refund_def list_all_iff list_ex_iff)

lemma adds_hidden_trans:
  assumes st: "adds_hidden s t" and tu: "adds_hidden t u"
  shows "adds_hidden s u"
proof -
  have "hidden_refund (r_id r) u" if r: "r \<in> set (refunds u)" "r \<notin> set (refunds s)" for r
  proof (cases "r \<in> set (refunds t)")
    case True
    then have "hidden_refund (r_id r) t" using st r by (auto simp: adds_hidden_def)
    then show ?thesis using tu r unfolding adds_hidden_def by (metis hidden_refund_iff)
  next
    case False
    then show ?thesis using tu r by (auto simp: adds_hidden_def)
  qed
  then show ?thesis using st tu by (auto simp: adds_hidden_def)
qed

interpretation adh: world_rel adds_hidden
  by unfold_locales (erule adds_hidden_trans, assumption | simp add: adds_hidden_def)+

lemma excess_adds_hidden:
  "keeps adds_hidden (check_and_create_excess_refund E session :: (world, 'e, unit) rt)"
  by (rule adh.keeps_excess_refund) (auto simp: adds_hidden_def hidden_refund_def leftover_def list_all_iff)

lemma refund_steps_keep:
  assumes "(refund_step E W)\<^sup>*\<^sup>* s t"
  shows "refunds_good (lib_of E) s \<Longrightarrow> refunds_good (lib_of E) t" and "hidden_refund j s \<Longrightarrow> hidden_refund j t"
  using assms by (induction rule: rtranclp_induct) (auto intro: refunds_good_step hidden_refund_step)

lemma listed_are_verified: "(r, u, w) \<in> set (listed_refunds s) \<Longrightarrow> r \<in> set (refunds s) \<and> r_verified r"
  by (auto simp: listed_refunds_def List.map_filter_def)

lemma listed_refundI:
  "r \<in> set (refunds s) \<Longrightarrow> r_verified r \<Longrightarrow> user_by_id (r_user r) s = Some u \<Longrightarrow> w = wallet_by_id (r_wallet r) s \<Longrightarrow>
   (r, u, w) \<in> set (listed_refunds s)"
  by (force simp: listed_refunds_def List.map_filter_def)

lemma confirmed_run:
  assumes "verify_refund E (Some token) s = (Inr answer, t)"
  shows "\<exists>r. find (refund_awaits token (db_now E (Suc (calls s)))) (refunds s) = Some r \<and>
    j_field ''refund_id'' answer = Some (uuid_show (lib_of E) (r_id r)) \<and>
    refunds t = map (\<lambda>q. if refund_awaits token (db_now E (Suc (calls s))) q
                         then confirmed_refund (db_now E (Suc (calls s))) q else q) (refunds s) \<and>
    users t = users s \<and> wallets t = wallets s"
  using assms
  by (auto simp: verify_refund_def rbind_def need_def ok_or_def of_result_def ret_def or_http_def map_err_def sql_def
      confirm_refund_def update_where_def Let_def j_field_def split: sum.splits prod.splits db_reply.splits option.splits)

lemma refused_link:
  "find (refund_awaits token (db_now E (Suc (calls s)))) (refunds s) = None \<Longrightarrow> \<exists>e. fst (verify_refund E (Some token) s) = Inl e"
  by (auto simp: verify_refund_def rbind_def need_def ok_or_def of_result_def ret_def or_http_def map_err_def sql_def
      confirm_refund_def Let_def split: db_reply.splits)

lemma spent_refused:
  assumes "spent token tm s" and "tm \<le> db_now E (Suc (calls s))"
  shows "\<exists>e. fst (verify_refund E (Some token) s) = Inl e"
  using assms
  by (intro refused_link) (fastforce simp: spent_def list_all_iff find_None_iff refund_awaits_def split: option.splits)

lemma confirmed_spent:
  assumes "refunds t = map (\<lambda>q. if refund_awaits token tm q then confirmed_refund tm q else q) rs"
  shows "spent token tm t"
  using assms by (auto simp: spent_def list_all_iff refund_awaits_def confirmed_refund_def)

text \<open>C9: The table of refund requests stays well formed: from an empty table, after any steps of the handlers
  and of the engine, a request has one of four states, and what an administrator is shown is verified, can not
  be confirmed again, and names an amount in USD and a valid destination.\<close>

theorem refunds_well_formed:
  assumes "refunds s = []" and "(refund_step E W)\<^sup>*\<^sup>* s t"
  shows "(\<forall>r \<in> set (refunds t). r_status r \<in> {''pending'', ''approved'', ''rejected'', ''completed''}) \<and>
    (\<forall>(r, u, w) \<in> set (listed_refunds t). r_verified r \<and> r_vtoken r = None \<and> r_amount_usd r \<noteq> None \<and>
      (\<exists>d. r_destination r = Some d \<and> validate_hex_address (lib_of E) d))"
proof (intro conjI)
  have "refunds_good (lib_of E) t"
    using refund_steps_keep(1) [OF assms(2)] assms(1) by (simp add: refunds_good_def)
  then have good: "refund_good (lib_of E) r" if "r \<in> set (refunds t)" for r
    using that by (simp add: refunds_good_def list_all_iff)
  show "\<forall>r \<in> set (refunds t). r_status r \<in> {''pending'', ''approved'', ''rejected'', ''completed''}"
    using good by (auto simp: refund_good_def)
  show "\<forall>(r, u, w) \<in> set (listed_refunds t). r_verified r \<and> r_vtoken r = None \<and> r_amount_usd r \<noteq> None \<and>
      (\<exists>d. r_destination r = Some d \<and> validate_hex_address (lib_of E) d)"
    using good listed_are_verified by (fastforce simp: refund_good_def split: option.splits)
qed

text \<open>C10: A confirmation works once and reaches the administrator: a link is accepted only for a request that
  carries its token, has not expired by the clock of the database and is not verified yet; every such request is then
  verified, pending and, if its user exists, listed for the administrator; all other requests are left as they are; and
  after any later steps of the handlers and of the engine, as long as they generate other tokens and the clock of the
  database is not set back behind the confirmation, the link is refused.\<close>

theorem refund_confirmed_once:
  assumes run: "verify_refund E (Some token) s = (Inr answer, t)"
  defines "tm \<equiv> db_now E (Suc (calls s))"
  shows "(\<exists>r ex. r \<in> set (refunds s) \<and> r_vtoken r = Some token \<and> r_vexpires r = Some ex \<and> tm < ex \<and> \<not> r_verified r \<and>
        j_field ''refund_id'' answer = Some (uuid_show (lib_of E) (r_id r))) \<and>
      refunds t = map (\<lambda>q. if r_vtoken q = Some token \<and> (\<exists>ex. r_vexpires q = Some ex \<and> tm < ex) \<and> \<not> r_verified q
        then confirmed_refund tm q else q) (refunds s) \<and>
      (\<forall>q \<in> set (refunds s). \<forall>u. refund_awaits token tm q \<and> user_by_id (r_user q) s = Some u \<longrightarrow>
         r_verified (confirmed_refund tm q) \<and> r_status (confirmed_refund tm q) = ''pending'' \<and>
         (confirmed_refund tm q, u, wallet_by_id (r_wallet q) s) \<in> set (listed_refunds t)) \<and>
      (\<forall>E' W' u. (refund_step E' W')\<^sup>*\<^sup>* t u \<and> never_generated token E' \<and> tm \<le> db_now E' (Suc (calls u)) \<longrightarrow>
         (\<exists>e. fst (verify_refund E' (Some token) u) = Inl e))"
proof -
  obtain r where r: "find (refund_awaits token tm) (refunds s) = Some r"
      "j_field ''refund_id'' answer = Some (uuid_show (lib_of E) (r_id r))"
    and t: "refunds t = map (\<lambda>q. if refund_awaits token tm q then confirmed_refund tm q else q) (refunds s)"
      "users t = users s" "wallets t = wallets s"
    using confirmed_run [OF run] unfolding tm_def by blast
  have awaits: "refund_awaits token tm q \<longleftrightarrow>
      r_vtoken q = Some token \<and> (\<exists>ex. r_vexpires q = Some ex \<and> tm < ex) \<and> \<not> r_verified q" for q
    by (auto simp: refund_awaits_def split: option.splits)
  have listed: "(confirmed_refund tm q, u, wallet_by_id (r_wallet q) s) \<in> set (listed_refunds t)"
    if "q \<in> set (refunds s)" "refund_awaits token tm q" "user_by_id (r_user q) s = Some u" for q u
  proof (rule listed_refundI)
    show "confirmed_refund tm q \<in> set (refunds t)" using that t(1) by force
  qed (use that t in \<open>simp_all add: confirmed_refund_def user_by_id_def wallet_by_id_def\<close>)
  have later: "\<exists>e. fst (verify_refund E' (Some token) u) = Inl e"
    if "(refund_step E' W')\<^sup>*\<^sup>* t u" "never_generated token E'" "tm \<le> db_now E' (Suc (calls u))" for E' W' u
    by (rule spent_refused [OF spent_steps [OF that(1,2) confirmed_spent [OF t(1)]] that(3)])
  have "r \<in> set (refunds s)" "refund_awaits token tm r" using r(1) by (auto simp: find_Some_iff)
  then show ?thesis using r(2) t(1) listed later by (auto simp: awaits confirmed_refund_def)
qed

text \<open>C11: What the engine adds for the rest in a wallet never reaches the administrator: such a request has no
  token, so no link confirms it, and whatever steps follow it is never listed for a decision.\<close>

theorem excess_refund_hidden:
  assumes run: "(check_and_create_excess_refund E session :: (world, unit, unit) rt) s = (q, t)"
    and new: "r \<in> set (refunds t)" "r \<notin> set (refunds s)"
    and steps: "(refund_step E W)\<^sup>*\<^sup>* t u"
  shows "(\<exists>r' \<in> set (refunds u). r_id r' = r_id r) \<and>
    (\<forall>r' \<in> set (refunds u). r_id r' = r_id r \<longrightarrow> \<not> r_verified r' \<and> \<not> refund_awaits token tm r') \<and>
    (\<forall>(r', v, w) \<in> set (listed_refunds u). r_id r' \<noteq> r_id r)"
proof (intro conjI)
  have "adds_hidden s t" by (rule keepsD [OF excess_adds_hidden run])
  then have "hidden_refund (r_id r) t" using new by (auto simp: adds_hidden_def)
  then have u: "hidden_refund (r_id r) u" by (rule refund_steps_keep(2) [OF steps])
  then show "\<exists>r' \<in> set (refunds u). r_id r' = r_id r"
    and hid: "\<forall>r' \<in> set (refunds u). r_id r' = r_id r \<longrightarrow> \<not> r_verified r' \<and> \<not> refund_awaits token tm r'"
    by (auto simp: hidden_refund_iff refund_awaits_def)
  then show "\<forall>(r', v, w) \<in> set (listed_refunds u). r_id r' \<noteq> r_id r"
    using listed_are_verified by fast
qed

section \<open>An instance\<close>

text \<open>A user with five tokens, each worth a dollar, asks for two dollars.\<close>

lemma resolve_hit:
  assumes "\<not> redis_fails E (calls s)" and "cached_entry (lib_of E) (map_of (redis_keys s) (token_pool_cache_key chain token)) = Some entry"
  shows "resolve_cached_oracle_pool E W chain token False s = (Inr (entry, True), s\<lparr>calls := Suc (calls s)\<rparr>)"
  using assms by (simp add: resolve_cached_oracle_pool_def rbind_def redis_get_def ret_def Let_def)


definition refund_node :: node where
  "refund_node = sample_node\<lparr>rpc_usd_price := (\<lambda>url orc token pair v n. Inr (10 ^ 36)),
     rpc_balance_of := (\<lambda>url token owner n. Inr (5 * 10 ^ 18))\<rparr>"

definition refund_env :: env where
  "refund_env = gate_env\<lparr>lib_of := price_lib, node_of := refund_node\<rparr>"

definition refund_wallet :: wallet_row where
  "refund_wallet = \<lparr>w_id = 9, w_user = 1, w_chain = ''bsc'', w_address = ''0x0000000000000000000000000000000000000005'',
     w_key = [], w_nonce = [], w_created = 0\<rparr>"

definition ann :: user_row where
  "ann = admin_row\<lparr>u_role := Common\<rparr>"

definition ann_user :: auth_user where
  "ann_user = \<lparr>au_id = 1, au_role = ''common''\<rparr>"

definition refund_world :: world where
  "refund_world = empty_world\<lparr>users := [ann], wallets := [refund_wallet],
     redis_keys := [(token_pool_cache_key ''bsc'' ''0x6Ec90334d89dBdc89E08A133271be3d104128Edb'',
       json_show price_lib (oracle_pool_json price_pool))]\<rparr>"

lemma price_lib_parts:
  "addr_parse price_lib = sample_addr_parse" "url_ok price_lib = sample_url_ok" "uuid_parse price_lib = sample_uuid_parse"
  "uuid_show price_lib = sample_uuid_show" "u256_show price_lib = sample_u256_show"
  by (simp_all add: price_lib_def sample_lib_parts)

lemma no_change: "trim ([] :: string) = []" "trim ''http://node'' = ''http://node''"
  "trim ''0x6Ec90334d89dBdc89E08A133271be3d104128Edb'' = ''0x6Ec90334d89dBdc89E08A133271be3d104128Edb''"
  "trim ''0x0000000000000000000000000000000000000007'' = ''0x0000000000000000000000000000000000000007''"
  "is_native_token_placeholder ''0x6Ec90334d89dBdc89E08A133271be3d104128Edb'' = False"
  by code_simp+

lemma sell_token_config:
  "ex_sell_token (execution (cfg refund_env)) = ''0x6Ec90334d89dBdc89E08A133271be3d104128Edb''"
  "ex_sell_token_decimals (execution (cfg refund_env)) = 18" "session_chain (execution (cfg refund_env)) = ''bsc''"
  "map_of (chain_entries (cfg refund_env)) ''bsc'' = Some sample_chain" "cc_rpc_url sample_chain = ''http://node''"
  "buy_trigger_oracle_address (execution (cfg refund_env)) = ''0x06fd4EBfd011574F6915DE69991e3CfdD3dfC30f''"
  "normalize_token_for_chain (cfg refund_env) ''bsc'' ''0x6Ec90334d89dBdc89E08A133271be3d104128Edb'' =
     ''0x6Ec90334d89dBdc89E08A133271be3d104128Edb''" "has_sender refund_env"
  by (simp_all add: refund_env_def gate_env_def sample_settings_def default_execution_def sample_chain_def has_sender_def
      normalize_token_for_chain_def no_change)

lemma refund_env_parts:
  "lib_of refund_env = price_lib" "node_of refund_env = refund_node" "db_reply refund_env n = Served"
  "unix_secs refund_env n = 1700000000" "db_now refund_env n = 1700000000" "fresh_uuid refund_env n = of_nat n"
  "grpc_down refund_env n = None" "redis_fails refund_env n = False" "elapsed_ms refund_env n = 0"
  "rpc_usd_price refund_node url orc token pair v n = Inr (10 ^ 36)"
  "rpc_balance_of refund_node url token owner n = Inr (5 * 10 ^ 18)" "rpc_decimals refund_node url token n = Inr 18"
  by (simp_all add: refund_env_def gate_env_def sample_env_parts refund_node_def sample_node_def)

lemma refund_texts:
  "sample_addr_parse ''0x6Ec90334d89dBdc89E08A133271be3d104128Edb'' = Some 0x6Ec90334d89dBdc89E08A133271be3d104128Edb"
  "sample_addr_parse ''0x06fd4EBfd011574F6915DE69991e3CfdD3dfC30f'' = Some 0x06fd4EBfd011574F6915DE69991e3CfdD3dfC30f"
  "sample_addr_parse ''0x00000000000000000000000000000000000000aa'' = Some 0xaa"
  "sample_addr_parse ''0x0000000000000000000000000000000000000005'' = Some 5"
  "sample_url_ok ''http://node''" "sample_uuid_parse (sample_uuid_show 9) = Some 9"
  by code_simp+

lemma refund_cached:
  "cached_entry price_lib (map_of (redis_keys refund_world)
     (token_pool_cache_key ''bsc'' ''0x6Ec90334d89dBdc89E08A133271be3d104128Edb'')) = Some price_pool"
  using price_lib_law price_usable
  by (simp add: cached_entry_def refund_world_def opt_bind_def oracle_pool_round_trip price_env_def)

lemma shown_numbers:
  "sample_u256_show 1000000000000000000000000000000000000 = ''1000000000000000000000000000000000000''"
  "sample_u256_show 5000000000000000000 = ''5000000000000000000''"
proof -
  have "digit_char (Suc 0) = CHR ''1''" "digit_char 0 = CHR ''0''" "digit_char 5 = CHR ''5''" by code_simp+
  then show "sample_u256_show 1000000000000000000000000000000000000 = ''1000000000000000000000000000000000000''"
    "sample_u256_show 5000000000000000000 = ''5000000000000000000''"
    by (simp_all add: sample_u256_show_def show_nat.simps)
qed

lemma one_dollar: "usd_of_36 price_lib (10 ^ 36) = Fin 1"
proof -
  have "f_parse ''1000000000000000000000000000000000000'' = Some (Fin 1000000000000000042420637374017961984)"
    "rnd 1000000000000000000000000000000000000 = Fin 1000000000000000042420637374017961984"
    "f_div (Fin 1000000000000000042420637374017961984) (Fin 1000000000000000042420637374017961984) = Fin 1"
    by code_simp+
  then show ?thesis by (simp add: usd_of_36_def price_lib_parts shown_numbers del: f_div.simps)
qed

lemma sample_price: "redis_keys s = redis_keys refund_world \<Longrightarrow>
  sell_token_price refund_env sample_web s = (Inr (Fin 1), s\<lparr>calls := calls s + 2\<rparr>)"
  by (simp add: sell_token_price_def sell_token_config refund_env_parts rbind_def need_def of_result_def ok_or_def ret_def
      resolve_hit refund_cached price_lib_parts price_pool_def no_change refund_texts or_http_def map_err_def fetch_pool_price_36_def remote_def one_dollar [simplified] Let_def)

lemma sell_wallet: "w_id refund_wallet = 9" "w_chain refund_wallet = ''bsc''" "w_user refund_wallet = 1"
  "w_address refund_wallet = ''0x0000000000000000000000000000000000000005''"
  by (simp_all add: refund_wallet_def)

lemma sample_balance:
  "wallets s = [refund_wallet] \<Longrightarrow>
   get_balance refund_env (sample_uuid_show 9) ''0x6Ec90334d89dBdc89E08A133271be3d104128Edb'' [] s =
     (Inr (''5000000000000000000'', 18), s\<lparr>calls := calls s + 3\<rparr>)"
  by (simp add: get_balance_def parse_id_def status_err_def query_def sql_def gets_def rbind_def of_result_def ok_or_def ret_def
      map_err_def sell_token_config refund_env_parts price_lib_parts no_change refund_texts wallet_by_id_def balance_url_def remote_def Let_def shown_numbers sell_wallet)

lemma sample_amounts:
  "f_le (Fin 2) (Fin 0) = False" "f_parse ''5000000000000000000'' = Some (Fin 5000000000000000000)"
  "f_div (Fin 5000000000000000000) (token_scale 18) = Fin 5" "rnd 5 = Fin 5" "f_lt (Fin 5) (Fin 2) = False"
  "float_column 15 2 (Fin 2) = Inr 2"
  by code_simp+

lemma sample_destination: "validate_hex_address price_lib ''0x0000000000000000000000000000000000000007''"
proof -
  have "sample_hex_decode ''0000000000000000000000000000000000000007'' \<noteq> None" by code_simp
  then show ?thesis
    by (simp add: validate_hex_address_def no_change price_lib_def sample_lib_def starts_with_def)
qed

lemma sample_mailbox: "mailbox_ok sample_web ''ann@mail''"
  by (simp add: sample_web_def)

lemma refund_world_parts:
  "users refund_world = [ann]" "wallets refund_world = [refund_wallet]" "refunds refund_world = []" "calls refund_world = 0"
  by (simp_all add: refund_world_def empty_world_def)

lemma sample_request:
  "\<exists>r a t. create_refund_request refund_env sample_web ann_user (Fin 2) ''0x0000000000000000000000000000000000000007'' refund_world =
     (Inr a, t) \<and> refunds t = [r] \<and> users t = [ann] \<and> r_user r = 1 \<and> \<not> r_verified r \<and>
     r_vtoken r = Some (sample_uuid_show 8) \<and> r_vexpires r = Some 1700003600"
  by (simp add: create_refund_request_def Let_def no_change sample_destination price_lib_parts sample_amounts refund_env_parts rbind_def or_http_def map_err_def query_def sql_def
      gets_def refund_world_parts sample_mailbox wallet_of_user_def need_def ok_or_def of_result_def ret_def connect_def ask_def grpc_def
      sample_balance sample_price sell_token_config sell_wallet store_refund_request_def fresh_def unix_now_def
      insert_refund_request_def new_refund_def ann_user_def ann_def admin_row_def user_by_id_def
      send_refund_verification_email_def hand_mail_def modify_def expiry_of_def)

lemma sample_confirmation:
  assumes "refunds t = [r]" "\<not> r_verified r" "r_vtoken r = Some token" "r_vexpires r = Some 1700003600"
  shows "\<exists>a u. verify_refund refund_env (Some token) t = (Inr a, u) \<and> refunds u = [confirmed_refund 1700000000 r] \<and> users u = users t"
proof -
  have "refund_awaits token 1700000000 r" using assms by (simp add: refund_awaits_def)
  then show ?thesis
    by (simp add: verify_refund_def rbind_def need_def ok_or_def of_result_def ret_def or_http_def map_err_def sql_def
        confirm_refund_def refund_env_parts update_where_def assms(1))
qed

theorem refunds_well_formed_witness:
  "\<exists>t. (refund_step refund_env sample_web)\<^sup>*\<^sup>* refund_world t \<and> listed_refunds t \<noteq> [] \<and>
    (\<forall>(r, u, w) \<in> set (listed_refunds t). r_verified r \<and> r_vtoken r = None \<and> r_amount_usd r \<noteq> None \<and>
      (\<exists>d. r_destination r = Some d \<and> validate_hex_address (lib_of refund_env) d))"
proof -
  obtain r a t where ask: "create_refund_request refund_env sample_web ann_user (Fin 2) ''0x0000000000000000000000000000000000000007''
      refund_world = (Inr a, t)" "refunds t = [r]" "users t = [ann]" "r_user r = 1" "\<not> r_verified r"
      "r_vtoken r = Some (sample_uuid_show 8)" "r_vexpires r = Some 1700003600"
    using sample_request by blast
  obtain b u where conf: "verify_refund refund_env (Some (sample_uuid_show 8)) t = (Inr b, u)"
      "refunds u = [confirmed_refund 1700000000 r]" "users u = [ann]"
    using sample_confirmation [OF ask(2,5-7)] ask(3) by auto
  have steps: "(refund_step refund_env sample_web)\<^sup>*\<^sup>* refund_world u"
    using refund_step.asks [OF ask(1)] refund_step.confirms [OF conf(1)] by (meson rtranclp.simps r_into_rtranclp)
  have "user_by_id (r_user (confirmed_refund 1700000000 r)) u = Some ann"
    using ask(4) by (simp add: user_by_id_def conf(3) ann_def admin_row_def confirmed_refund_def)
  then have "listed_refunds u \<noteq> []"
    using listed_refundI [of "confirmed_refund 1700000000 r" u ann] conf(2) by (force simp: confirmed_refund_def)
  then show ?thesis using steps refunds_well_formed [OF refund_world_parts(3) steps] by blast
qed

text \<open>Later the generator gives other identifiers.\<close>

definition later_env :: env where
  "later_env = refund_env\<lparr>fresh_uuid := (\<lambda>n. 9)\<rparr>"

lemma later_other: "never_generated (sample_uuid_show 8) later_env"
proof -
  have "sample_uuid_show 9 \<noteq> sample_uuid_show 8" by code_simp
  then show ?thesis by (simp add: never_generated_def later_env_def refund_env_parts price_lib_parts)
qed

theorem refund_confirmed_once_witness:
  "\<exists>t answer u r v. verify_refund refund_env (Some (sample_uuid_show 8)) t = (Inr answer, u) \<and> refunds t = [r] \<and> \<not> r_verified r \<and>
    j_field ''refund_id'' answer = Some (uuid_show (lib_of refund_env) (r_id r)) \<and>
    (refund_step later_env sample_web)\<^sup>*\<^sup>* u v \<and> (\<exists>q \<in> set (refunds v). r_status q = ''approved'') \<and>
    (\<exists>e. fst (verify_refund later_env (Some (sample_uuid_show 8)) v) = Inl e)"
proof -
  obtain r and t :: world where ask: "refunds t = [r]" "\<not> r_verified r" "r_vtoken r = Some (sample_uuid_show 8)" "r_vexpires r = Some 1700003600"
    using sample_request by blast
  obtain b u where conf: "verify_refund refund_env (Some (sample_uuid_show 8)) t = (Inr b, u)"
      "refunds u = [confirmed_refund 1700000000 r]"
    using sample_confirmation [OF ask] by blast
  define v where "v = snd (admin_update_refund_status later_env \<lparr>au_id = 2, au_role = ''admin''\<rparr>
    (sample_uuid_show (r_id r)) ''approved'' None u)"
  have steps: "(refund_step later_env sample_web)\<^sup>*\<^sup>* u v"
    unfolding v_def by (rule r_into_rtranclp) (rule refund_step.decides [OF prod.collapse [symmetric]])
  have approved: "\<exists>q \<in> set (refunds v). r_status q = ''approved''"
  proof -
    have ids: "sample_uuid_parse (sample_uuid_show i) = Some i" for i
      using gate_uuid_law by (simp add: uuid_law_def gate_env_parts price_lib_parts sample_lib_parts)
    show ?thesis
      by (simp add: v_def admin_update_refund_status_def is_admin_def rbind_def need_def ok_or_def of_result_def ret_def or_http_def
          map_err_def sql_def decide_refund_def later_env_def refund_env_parts price_lib_parts ids update_where_def conf(2)
          confirmed_refund_def)
  qed
  have now: "db_now refund_env (Suc (calls t)) \<le> db_now later_env (Suc (calls v))"
    by (simp add: later_env_def refund_env_parts)
  from refund_confirmed_once [OF conf(1)] have once:
      "\<exists>q \<in> set (refunds t). j_field ''refund_id'' b = Some (uuid_show (lib_of refund_env) (r_id q))"
      "\<exists>e. fst (verify_refund later_env (Some (sample_uuid_show 8)) v) = Inl e"
    using steps later_other now by blast+
  have "j_field ''refund_id'' b = Some (uuid_show (lib_of refund_env) (r_id r))" using once(1) ask(1) by simp
  then show ?thesis using conf(1) ask(1,2) steps approved once(2) by blast
qed

text \<open>A wallet with a rest.\<close>

definition excess_world :: world where
  "excess_world = wallet_world\<lparr>sessions := [sample_session_row]\<rparr>"

lemma excess_added:
  "\<exists>r t. (check_and_create_excess_refund sample_env sample_session :: (world, unit, unit) rt) excess_world = (Inr (), t) \<and> refunds t = [r]"
proof -
  have texts: "sample_uuid_parse (show_hex 32 0) = Some 0" "sample_uuid_parse (show_hex 32 9) = Some 9"
    "sample_addr_parse (sample_addr_show 5) = Some 5" "sample_addr_parse ''0x0000000000000000000000000000000000000001'' = Some 1"
    "eq_ic ''bsc'' ''bsc''" "provider_url sample_env ''bsc'' = Inr ''http://node''"
    by code_simp+
  show ?thesis
    by (simp add: check_and_create_excess_refund_def excess_refund_def attempt_def resolve_session_wallet_address_def Let_def
        rbind_def of_result_def ok_or_def query_def sql_def gets_def ret_def remote_def session_wallet_def opt_bind_def
        insert_refund_def fresh_def now_def ask_def texts sample_session_def sample_parts sample_lib_parts wallet_by_id_def excess_world_def
        wallet_world_def user_world_def empty_world_def sample_wallet_def sample_session_row_def sample_user_def)
qed

theorem excess_refund_hidden_witness:
  "\<exists>r t. refunds t = [r] \<and> r \<notin> set (refunds excess_world) \<and> (\<forall>(r', v, w) \<in> set (listed_refunds t). r_id r' \<noteq> r_id r)"
proof -
  obtain r t where run: "(check_and_create_excess_refund sample_env sample_session :: (world, unit, unit) rt) excess_world = (Inr (), t)"
    and r: "refunds t = [r]"
    using excess_added by blast
  have none: "r \<notin> set (refunds excess_world)"
    by (simp add: excess_world_def wallet_world_def user_world_def empty_world_def)
  have "r \<in> set (refunds t)" by (simp add: r)
  from excess_refund_hidden [OF run this none rtranclp.rtrancl_refl] r none show ?thesis by blast
qed

end
