(* ===== verification/GatewaySafe.thy ===== *)
theory GatewaySafe
  imports Funding Refunds
begin

text \<open>
  What the gateway guarantees in front of the services: who may export a key or withdraw, what a user
  without the role of an administrator can change, what leaves the gas wallet, and what the public sees.
\<close>

section \<open>The check of a route\<close>

lemma pool_check_agrees:
  "validate_pool_swap_path_json L path pool_address \<longleftrightarrow> (\<exists>v. parse_pool_swap_path_json L path pool_address = Inr v)"
proof (cases "trim path = [] \<or> json_parse L (trim path) = None")
  case False
  then obtain v where v: "trim path \<noteq> []" "json_parse L (trim path) = Some v" by blast
  show ?thesis
  proof (cases "opt_bind (j_get ''hops'' v) j_array")
    case (Some hops)
    then show ?thesis
      using v by (cases hops) (simp_all add: validate_pool_swap_path_json_def parse_pool_swap_path_json_def Let_def sbind_def
          ensure_def ok_or_def del: opt_bind_Some split: option.split)
  qed (use v in \<open>simp add: validate_pool_swap_path_json_def parse_pool_swap_path_json_def Let_def sbind_def ensure_def ok_or_def
      del: opt_bind_Some\<close>)
qed (auto simp: validate_pool_swap_path_json_def parse_pool_swap_path_json_def Let_def sbind_def ensure_def ok_or_def)

lemma pools_check_agrees:
  "\<not> list_ex (\<lambda>p. \<not> validate_pool_swap_path_json L (pi_path_json p) (pi_address p)) ps \<longleftrightarrow>
     (\<exists>vs. parse_pool_paths L ps = Inr vs)"
proof (induction ps)
  case (Cons p ps)
  then show ?case
    by (cases "parse_pool_swap_path_json L (pi_path_json p) (pi_address p)"; cases "parse_pool_paths L ps")
      (auto simp: pool_check_agrees parse_pool_paths_def sbind_def)
qed (simp add: parse_pool_paths_def)

lemma grpc_pool_path: "pi_path_json (grpc_pool E chain p) = pi_path_json p" "pi_address (grpc_pool E chain p) = pi_address p"
  by (simp_all add: grpc_pool_def)


section \<open>Second factor\<close>

text \<open>The code is the current one of the user's second factor.\<close>

definition passed_2fa :: "env \<Rightarrow> web \<Rightarrow> auth_user \<Rightarrow> string \<Rightarrow> world \<Rightarrow> bool" where
  "passed_2fa E W user given s \<longleftrightarrow>
     (\<exists>row \<in> set (users s). \<exists>secret n. u_id row = au_id user \<and> u_totp_enabled row \<and> u_totp_secret row = Some secret \<and>
        totp_check W secret given n = Some True)"

lemma user_by_id_in: "user_by_id i s = Some u \<Longrightarrow> u \<in> set (users s) \<and> u_id u = i"
  by (auto simp: user_by_id_def find_Some_iff)

lemma wallet_by_id_in: "wallet_by_id i s = Some w \<Longrightarrow> w \<in> set (wallets s) \<and> w_id w = i"
  by (auto simp: wallet_by_id_def find_Some_iff)

lemma confirm_2fa_passed:
  assumes "confirm_2fa E W user given s = (Inr u, t)"
  shows "\<exists>c. given = Some c \<and> passed_2fa E W user c s"
  using assms
  by (auto simp: confirm_2fa_def check_code_def or_http_def need_def run_iffs ok_or_def passed_2fa_def ask_def
      split: if_splits option.splits dest!: user_by_id_in) metis+

lemma withdraw_2fa_passed:
  assumes "withdraw_2fa E W user given s = (Inr u, t)"
  shows "passed_2fa E W user given s"
  using assms
  by (auto simp: withdraw_2fa_def refused_def required_def run_iffs ok_or_def passed_2fa_def ask_def
      split: if_splits option.splits dest!: user_by_id_in) blast

section \<open>The session and its wallet\<close>

lemma got_session:
  assumes "get_session E session_id s = (Inr info, t)"
  shows "\<exists>r \<in> set (sessions s). uuid_parse (lib_of E) session_id = Some (s_id r) \<and>
     (\<exists>ps. info = (row_to_session_info (lib_of E) r)\<lparr>si_pools := ps\<rparr>)"
proof -
  obtain i where i: "uuid_parse (lib_of E) session_id = Some i" "load_session E i s = (Inr info, t)"
    using assms by (auto simp: get_session_def run_iffs ok_or_def split: option.splits)
  obtain r where "session_map s i = Some r"
    "info = (row_to_session_info (lib_of E) r)\<lparr>si_pools := map (pool_row_info (lib_of E)) (pools_of i s)\<rparr>"
    using load_session_Inr [OF i(2)] by blast
  moreover from this have "r \<in> set (sessions s)" "s_id r = i"
    by (auto simp: session_map_def session_by_id_def find_Some_iff)
  ultimately show ?thesis using i(1) by blast
qed

lemma got_address:
  assumes "uuid_law E" "sql E (wallet_address_of E (uuid_show (lib_of E) i)) s = (Inr a, t)"
  shows "\<exists>w \<in> set (wallets s). w_id w = i \<and> w_address w = a"
  using assms
  by (auto simp: sql_Inr wallet_address_of_def uuid_law_def ok_or_def split: option.splits dest!: wallet_by_id_in)

section \<open>Withdrawals\<close>

definition withdraws :: "env \<Rightarrow> string \<Rightarrow> string \<Rightarrow> world \<Rightarrow> sent_tx \<Rightarrow> bool" where
  "withdraws E session_id destination T x \<longleftrightarrow>
     (\<exists>r \<in> set (sessions T). \<exists>w \<in> set (wallets T). \<exists>dest amount url balance n.
        uuid_parse (lib_of E) session_id = Some (s_id r) \<and> w_id w = s_wallet r \<and>
        x_wallet x = uuid_show (lib_of E) (w_id w) \<and> addr_parse (lib_of E) (w_address w) = Some (tx_from (x_request x)) \<and>
        addr_parse (lib_of E) (s_target_token r) = Some (tx_to (x_request x)) \<and> addr_parse (lib_of E) destination = Some dest \<and>
        tx_value (x_request x) = 0 \<and> tx_input (x_request x) = abi_encode (lib_of E) (Transfer dest amount) \<and>
        rpc_balance_of (node_of E) url (tx_to (x_request x)) (tx_from (x_request x)) n = Inr balance \<and>
        0 < amount \<and> amount \<le> balance)"

lemma remote_Inr: "remote E f s = (Inr x, t) \<Longrightarrow> f (calls s) = Inr x"
  by (simp add: remote_def)

lemma withdraw_amount_range:
  "withdraw_amount E a balance = Inr amount \<Longrightarrow> balance \<noteq> 0 \<Longrightarrow> 0 < amount \<and> amount \<le> balance"
  by (auto simp: withdraw_amount_def sbind_Inr word_gt_0 split: option.splits if_splits)

lemma pays_withdraw_from:
  assumes r: "r \<in> set (sessions T)" "uuid_parse (lib_of E) session_id = Some (s_id r)" "session = (row_to_session_info (lib_of E) r)\<lparr>si_pools := ps\<rparr>"
    and w: "w \<in> set (wallets T)" "w_id w = s_wallet r" "addr_parse (lib_of E) (w_address w) = Some wallet_addr"
    and dest: "addr_parse (lib_of E) destination = Some dest"
  shows "pays_one T (withdraws E session_id destination T) (withdraw_from E session c wallet_addr dest raw_amount)"
proof -
  have si: "si_wallet session = uuid_show (lib_of E) (w_id w)" "si_target_token session = s_target_token r"
    using r(3) w(2) by (simp_all add: row_to_session_info_def)
  have sign: "pays_one T (withdraws E session_id destination T) (sign_and_withdraw E url (si_wallet session)
      (withdrawal E wallet_addr token dest amount nonce chain_id gas_price))"
    if "addr_parse (lib_of E) (s_target_token r) = Some token" "rpc_balance_of (node_of E) url' token wallet_addr n = Inr balance"
      "0 < amount" "amount \<le> balance" for url url' token balance n amount nonce chain_id gas_price
  proof -
    have "withdraws E session_id destination T x"
      if "x_wallet x = si_wallet session \<and> x_request x = withdrawal E wallet_addr token dest amount nonce chain_id gas_price \<and> x_raw x \<noteq> []" for x
      using that \<open>addr_parse (lib_of E) (s_target_token r) = Some token\<close> \<open>0 < amount\<close> \<open>amount \<le> balance\<close>
        \<open>rpc_balance_of (node_of E) url' token wallet_addr n = Inr balance\<close> r w dest si
      unfolding withdraws_def by (intro bexI [of _ r] bexI [of _ w] exI conjI) (simp_all add: withdrawal_def)
    then show ?thesis using pays_sign_withdraw unfolding pays_one_def by blast
  qed
  have paid: "pays_one T (withdraws E session_id destination T)
      (if balance = 0 then fail (Unprocessable, ''No token balance in session wallet'')
       else
         rbind (of_result (withdraw_amount E raw_amount balance)) (\<lambda>amount.
         rbind (refused Server_Error ''Failed to fetch nonce'' (remote E (rpc_nonce (node_of E) url wallet_addr))) (\<lambda>nonce.
         rbind (refused Server_Error ''Failed to fetch gas price'' (remote E (rpc_gas_price (node_of E) url))) (\<lambda>gas_price.
         rbind (sign_and_withdraw E url (si_wallet session)
                  (withdrawal E wallet_addr token dest amount nonce (cc_chain_id c) gas_price)) (\<lambda>tx_hash.
         ret (tx_hash, amount))))))"
    if "addr_parse (lib_of E) (s_target_token r) = Some token" "rpc_balance_of (node_of E) url token wallet_addr n = Inr balance"
    for token url balance n
  proof (cases "balance = 0")
    case False
    have step: "pays_one T (withdraws E session_id destination T) (sign_and_withdraw E url (si_wallet session)
        (withdrawal E wallet_addr token dest amount nonce (cc_chain_id c) gas_price))"
      if "of_result (withdraw_amount E raw_amount balance) s = (Inr amount, s')" for amount nonce gas_price and s s' :: world
      using sign [OF \<open>addr_parse (lib_of E) (s_target_token r) = Some token\<close> \<open>rpc_balance_of (node_of E) url token wallet_addr n = Inr balance\<close>]
        withdraw_amount_range [OF _ False] that by (auto simp: of_result_def)
    show ?thesis
      using False
      by (simp, intro pays_rbind pays_then step qry.keeps_refusals qry.keeps_world)
  qed (simp add: pays_quiet qry.keeps_fail)
  show ?thesis
  proof (cases "url_ok (lib_of E) (trim (cc_rpc_url c))")
    case True
    then show ?thesis
      unfolding withdraw_from_def Let_def si(2)
      by (simp, intro pays_rbind paid qry.keeps_refusals qry.keeps_world)
        (auto simp: required_def refused_def run_iffs ok_or_def split: option.splits dest: remote_Inr)
  qed (simp add: withdraw_from_def Let_def pays_quiet qry.keeps_fail)
qed

lemma passed_same: "same_tables T s \<Longrightarrow> passed_2fa E W user given s = passed_2fa E W user given T"
  by (simp add: passed_2fa_def same_tables_def)

lemma grpc_Inr: "grpc E m s = (Inr x, t) \<Longrightarrow> m (s\<lparr>calls := Suc (calls s)\<rparr>) = (Inr x, t)"
  by (auto simp: grpc_def split: option.splits)

lemma session_wallet_found:
  assumes "uuid_law E" "same_tables T s1" "grpc E (get_session E session_id) s1 = (Inr session, s1')"
    and "same_tables T s2" "sql E (wallet_address_of E (si_wallet session)) s2 = (Inr a, s2')"
  obtains r ps w where "r \<in> set (sessions T)" "uuid_parse (lib_of E) session_id = Some (s_id r)"
    "session = (row_to_session_info (lib_of E) r)\<lparr>si_pools := ps\<rparr>" "w \<in> set (wallets T)" "w_id w = s_wallet r" "w_address w = a"
proof -
  obtain r ps where r: "r \<in> set (sessions s1)" "uuid_parse (lib_of E) session_id = Some (s_id r)"
    "session = (row_to_session_info (lib_of E) r)\<lparr>si_pools := ps\<rparr>"
    using got_session [OF grpc_Inr [OF assms(3)]] by auto
  then have "si_wallet session = uuid_show (lib_of E) (s_wallet r)" by (simp add: row_to_session_info_def)
  then obtain w where "w \<in> set (wallets s2)" "w_id w = s_wallet r" "w_address w = a"
    using got_address [OF assms(1)] assms(5) by metis
  with r assms(2,4) show ?thesis by (intro that) (simp_all add: same_tables_def)
qed

text \<open>C1: Money leaves a session's wallet by a withdrawal only if an administrator asks with the current code of the
  second factor, and then in one transaction: a transfer, by the contract of the token the session buys, of an
  amount that is not zero and not above the balance reported for the wallet, to the address asked for.  No table
  changes, whatever the outcome.\<close>

theorem withdrawal_sound:
  assumes "uuid_law E" and run: "admin_withdraw_session E W user session_id destination raw_amount given s = (r, t)"
  shows "same_tables s t \<and>
    (sent t = sent s \<or>
     is_admin user \<and> passed_2fa E W user given s \<and> (\<exists>x. sent t = sent s @ [x] \<and> withdraws E session_id destination s x))"
proof -
  let ?P = "\<lambda>x. is_admin user \<and> passed_2fa E W user given s \<and> withdraws E session_id destination s x"
  have paid: "pays_one s ?P (rbind (withdraw_from E session c wallet_addr dest raw_amount) g)"
    if "is_admin user" "same_tables s s0" "withdraw_2fa E W user given s0 = (Inr u, s0')"
      "addr_parse (lib_of E) destination = Some dest" "same_tables s s1" "grpc E (get_session E session_id) s1 = (Inr session, s1')"
      "same_tables s s2" "sql E (wallet_address_of E (si_wallet session)) s2 = (Inr a, s2')" "addr_parse (lib_of E) a = Some wallet_addr"
      "\<And>x. keeps asks (g x)"
    for s0 s0' s1 s1' s2 s2' u session c a wallet_addr dest and g :: "string \<times> u256 \<Rightarrow> (world, refusal, json) rt"
  proof -
    note run_facts = that
    obtain row ps w where "row \<in> set (sessions s)" "uuid_parse (lib_of E) session_id = Some (s_id row)"
      "session = (row_to_session_info (lib_of E) row)\<lparr>si_pools := ps\<rparr>" "w \<in> set (wallets s)" "w_id w = s_wallet row"
      and a: "w_address w = a"
      using session_wallet_found [OF assms(1) run_facts(5-8)] by metis
    moreover have "addr_parse (lib_of E) (w_address w) = Some wallet_addr" using run_facts(9) a by simp
    ultimately have "pays_one s (withdraws E session_id destination s) (withdraw_from E session c wallet_addr dest raw_amount)"
      using run_facts(4) by (intro pays_withdraw_from)
    moreover have "passed_2fa E W user given s" using withdraw_2fa_passed [OF that(3)] passed_same [OF that(2)] by simp
    ultimately have "pays_one s ?P (withdraw_from E session c wallet_addr dest raw_amount)" using that(1) by simp
    then show ?thesis using that(10) by (intro pays_then)
  qed
  have "pays_one s ?P (admin_withdraw_session E W user session_id destination raw_amount given)"
  proof (cases "is_admin user")
    case True
    then have admin: "\<not> \<not> is_admin user" by simp
    show ?thesis
      unfolding admin_withdraw_session_def Let_def if_not_P [OF admin]
      by (rule paid pays_rbind qry.keeps_money qry.keeps_world True | assumption)+
        (auto simp: required_def refused_def map_err_Inr of_result_def ok_or_def qry.keeps_ret split: option.splits)
  qed (simp add: admin_withdraw_session_def pays_quiet qry.keeps_fail)
  from paysD [OF this _ run] show ?thesis by (auto simp: same_tables_def)
qed

section \<open>Gas for a session\<close>

lemma pays_if: "pays_one T P a \<Longrightarrow> pays_one T P b \<Longrightarrow> pays_one T P (if c then a else b)"
  by simp

lemma pays_fail: "pays_one T P (fail e)"
  by (intro pays_quiet qry.keeps_fail)

lemma funding_swaps_bound: "unat (funding_swaps remaining min_sell) \<le> 5000"
proof -
  have "funding_swaps remaining min_sell \<le> 5000" by (simp add: funding_swaps_def)
  then show ?thesis by (simp add: word_le_nat_alt)
qed

lemma unat_times_le: "unat (a * b :: 'l::len word) \<le> unat a * unat b"
  by (simp add: unat_word_ariths)

lemma unat_plus_le: "unat (a + b :: 'l::len word) \<le> unat a + unat b"
  by (simp add: unat_word_ariths)

lemma unat_ucast_le: "unat (ucast a :: 'l::len word) \<le> unat (a :: 'm::len word)"
  by (simp add: unsigned_ucast_eq)

lemma gas_needed_bound:
  "unat (gas_needed price (funding_swaps remaining min_sell) padding) \<le>
     300000 * unat price * 5000 * (100 + unat padding) div 100"
proof -
  let ?n = "funding_swaps remaining min_sell" and ?p = "ucast price :: u256" and ?c = "ucast padding :: u64"
  let ?k = "ucast (100 + ?c) :: u256"
  have k: "unat ?k \<le> 100 + unat padding"
    using unat_ucast_le [of "100 + ?c", where ?'l = 256] unat_plus_le [of 100 ?c] unat_ucast_le [of padding, where ?'l = 64]
    by simp
  have "unat (300000 * ?p * ?n * ?k) \<le> unat (300000 * ?p * ?n) * unat ?k" by (rule unat_times_le)
  also have "\<dots> \<le> unat (300000 * ?p) * unat ?n * unat ?k" by (intro mult_right_mono unat_times_le) simp
  also have "\<dots> \<le> unat (300000 :: u256) * unat ?p * unat ?n * unat ?k" by (intro mult_right_mono unat_times_le) simp_all
  also have "\<dots> \<le> 300000 * unat price * 5000 * (100 + unat padding)"
    using k funding_swaps_bound unat_ucast_le by (intro mult_mono) auto
  finally show ?thesis unfolding gas_needed_def by (simp add: unat_div div_le_mono)
qed

definition funds :: "env \<Rightarrow> string \<Rightarrow> world \<Rightarrow> sent_tx \<Rightarrow> bool" where
  "funds E session_id T x \<longleftrightarrow>
     (\<exists>r \<in> set (sessions T). \<exists>w \<in> set (wallets T). \<exists>g \<in> set (wallets T). \<exists>price url n m balance.
        uuid_parse (lib_of E) session_id = Some (s_id r) \<and> w_id w = s_wallet r \<and>
        addr_parse (lib_of E) (w_address w) = Some (tx_to (x_request x)) \<and>
        x_wallet x = trim (gas_wallet_id (execution (cfg E))) \<and> uuid_parse (lib_of E) (x_wallet x) = Some (w_id g) \<and>
        addr_parse (lib_of E) (w_address g) = Some (tx_from (x_request x)) \<and> tx_input (x_request x) = [] \<and>
        rpc_gas_price (node_of E) url n = Inr price \<and> tx_gas_price (x_request x) = Some price \<and> tx_value (x_request x) \<noteq> 0 \<and>
        unat (tx_value (x_request x)) \<le>
          300000 * unat price * 5000 * (100 + unat (gas_padding_percent (execution (cfg E)))) div 100 \<and>
        rpc_native_balance (node_of E) url (tx_from (x_request x)) m = Inr balance \<and> tx_value (x_request x) \<le> balance)"

lemma deficit_bound:
  "unat (funding_deficit E session remaining price balance) \<le>
     300000 * unat price * 5000 * (100 + unat (gas_padding_percent (execution (cfg E)))) div 100"
  unfolding funding_deficit_def Let_def unat_sat_sub
  by (rule order_trans [OF diff_le_self gas_needed_bound])

lemma got_gas_address:
  "sql E (wallet_address_of E gas_wallet) s = (Inr a, t) \<Longrightarrow>
    \<exists>g \<in> set (wallets s). uuid_parse (lib_of E) gas_wallet = Some (w_id g) \<and> w_address g = a"
  by (auto simp: sql_Inr wallet_address_of_def ok_or_def split: option.splits dest!: wallet_by_id_in)

lemma pays_send_gas:
  assumes r: "r \<in> set (sessions T)" "uuid_parse (lib_of E) session_id = Some (s_id r)"
    and w: "w \<in> set (wallets T)" "w_id w = s_wallet r" "addr_parse (lib_of E) (w_address w) = Some wallet_addr"
    and price: "rpc_gas_price (node_of E) url n = Inr price"
    and deficit: "deficit \<noteq> 0"
      "unat deficit \<le> 300000 * unat price * 5000 * (100 + unat (gas_padding_percent (execution (cfg E)))) div 100"
    and gas: "gas_wallet = trim (gas_wallet_id (execution (cfg E)))"
  shows "pays_one T (funds E session_id T) (send_gas E c url gas_wallet wallet_addr deficit price session_id)"
proof -
  have sign: "pays_one T (funds E session_id T) (sign_and_send_gas E url gas_wallet (gas_transfer from_addr wallet_addr deficit nonce chain_id price))"
    if "same_tables T s" "sql E (wallet_address_of E gas_wallet) s = (Inr a, s')" "addr_parse (lib_of E) a = Some from_addr"
      "rpc_native_balance (node_of E) url from_addr m = Inr balance" "deficit \<le> balance" for s s' a from_addr nonce chain_id m balance
  proof -
    note run_facts = that
    obtain g where g: "g \<in> set (wallets T)" "uuid_parse (lib_of E) gas_wallet = Some (w_id g)" "w_address g = a"
      using got_gas_address [OF run_facts(2)] run_facts(1) by (auto simp: same_tables_def)
    have "funds E session_id T x"
      if "x_wallet x = gas_wallet \<and> x_request x = gas_transfer from_addr wallet_addr deficit nonce chain_id price \<and> x_raw x \<noteq> []" for x
      using that r w price deficit gas g \<open>addr_parse (lib_of E) a = Some from_addr\<close>
        \<open>rpc_native_balance (node_of E) url from_addr m = Inr balance\<close> \<open>deficit \<le> balance\<close>
      unfolding funds_def by (intro bexI [of _ r] bexI [of _ w] bexI [of _ g] exI conjI) (simp_all add: gas_transfer_def)
    then show ?thesis using pays_sign_gas unfolding pays_one_def by blast
  qed
  have paid: "pays_one T (funds E session_id T)
      (if balance < deficit
       then fail (''Gas wallet insufficient: has '' @ u256_show (lib_of E) balance @ '' but needs '' @ u256_show (lib_of E) deficit @
         '' (deficit for session '' @ session_id @ '')'')
       else
         rbind (prefixed ''Get gas wallet nonce: '' (remote E (rpc_nonce (node_of E) url from_addr))) (\<lambda>nonce.
         sign_and_send_gas E url gas_wallet (gas_transfer from_addr wallet_addr deficit nonce (cc_chain_id c) price)))"
    if "same_tables T s" "sql E (wallet_address_of E gas_wallet) s = (Inr a, s')" "addr_parse (lib_of E) a = Some from_addr"
      "rpc_native_balance (node_of E) url from_addr m = Inr balance" for s s' a from_addr m balance
  proof (cases "balance < deficit")
    case True
    then show ?thesis by (simp add: pays_quiet qry.keeps_fail)
  next
    case False
    then have "deficit \<le> balance" by simp
    note step = sign [OF that this]
    show ?thesis
      unfolding if_not_P [OF False] by (rule step pays_rbind qry.keeps_money qry.keeps_world)+
  qed
  show ?thesis
    unfolding send_gas_def Let_def
    by (rule paid pays_rbind qry.keeps_money qry.keeps_world | assumption)+
      (auto simp: prefixed_def map_err_Inr of_result_def ok_or_def split: option.splits dest: remote_Inr)
qed

lemma pays_fund:
  assumes "uuid_law E"
  shows "pays_one T (funds E session_id T) (fund_session_wallet_gas E session_id)"
proof -
  let ?gas = "trim (gas_wallet_id (execution (cfg E)))"
  have paid: "pays_one T (funds E session_id T)
      (if remaining_amount E session = 0 then ret ()
       else if funding_deficit E session (remaining_amount E session) price balance = 0 then ret ()
       else send_gas E c url ?gas wallet_addr (funding_deficit E session (remaining_amount E session) price balance) price session_id)"
    if "same_tables T s1" "grpc E (get_session E session_id) s1 = (Inr session, s1')"
      "same_tables T s2" "sql E (wallet_address_of E (si_wallet session)) s2 = (Inr a, s2')" "addr_parse (lib_of E) a = Some wallet_addr"
      "rpc_gas_price (node_of E) url n = Inr price"
    for s1 s1' s2 s2' session c url a wallet_addr n price balance
  proof -
    note run_facts = that
    obtain row w where row: "row \<in> set (sessions T)" "uuid_parse (lib_of E) session_id = Some (s_id row)"
        "w \<in> set (wallets T)" "w_id w = s_wallet row"
      and a: "w_address w = a"
      using session_wallet_found [OF assms run_facts(1-4)] by metis
    have "addr_parse (lib_of E) (w_address w) = Some wallet_addr" using run_facts(5) a by simp
    then show ?thesis
      using row run_facts(6) deficit_bound
      by (auto intro!: pays_send_gas intro: pays_quiet qry.keeps_ret)
  qed
  show ?thesis
  proof (cases "?gas = []")
    case True
    then show ?thesis by (simp add: fund_session_wallet_gas_def pays_quiet qry.keeps_fail)
  next
    case False
    show ?thesis
      unfolding fund_session_wallet_gas_def Let_def if_not_P [OF False]
      by (rule paid pays_fail pays_if pays_rbind qry.keeps_money qry.keeps_world | assumption)+
        (auto simp: prefixed_def called_def map_err_Inr of_result_def ok_or_def pays_quiet qry.keeps_fail split: option.splits dest: remote_Inr)
  qed
qed

lemma status_keeps_sent: "keeps (sends (\<lambda>x. False)) (bare (session_answer E (update_session_status E session_id st)))"
proof -
  have "keeps (sends (\<lambda>x. False)) (exec E (set_session E i f))" for i f
    by (rule snt.keeps_exec) (simp add: sends_same set_session_def)
  then show ?thesis
    unfolding update_session_status_def
    by (intro snt.keeps_refusals snt.keeps_session_answer snt.keeps_load snt.keeps_kms)
qed

lemma rbind_cases:
  assumes "rbind m f s = (r, t)"
  obtains (failed) e where "m s = (Inl e, t)" "r = Inl e" | (passed) x u where "m s = (Inr x, u)" "f x u = (r, t)"
  using assms by (cases "m s"; cases "fst (m s)") (auto simp: rbind_def)

lemma bare_Inr: "bare m s = (Inr x, t) \<Longrightarrow> m s = (Inr x, t)"
  by (simp add: bare_def map_err_Inr)

lemma access_asks: "bare (ensure_session_access E user session_id) s = (q, u) \<Longrightarrow> asks s u"
  by (erule keepsD [rotated]) (intro qry.keeps_refusals qry.keeps_access)

lemma answer_sends_nothing: "bare (session_answer E (update_session_status E session_id st)) s = (q, t) \<Longrightarrow> sent t = sent s"
  by (drule keepsD [OF status_keeps_sent]) (auto simp: sends_def list_all_iff)

text \<open>C2: A change of the status of a session sends something only if an administrator activates it, and then at most
  one transaction: a plain transfer from the gas wallet to the wallet of that session, at the gas price the node
  reported, of no more than the gas of 5000 sales with the configured padding and no more than the gas wallet
  was reported to hold.  Sessions change only for an administrator, and a session is activated only after the
  funding has reported success.\<close>

theorem activation_funded:
  assumes law: "uuid_law E" and run: "update_session_status_route E user session_id st s = (r, t)"
  shows "(sent t = sent s \<or> is_admin user \<and> st = ''active'' \<and> (\<exists>x. sent t = sent s @ [x] \<and> funds E session_id s x)) \<and>
    (sessions t \<noteq> sessions s \<longrightarrow> is_admin user \<and> (st = ''active'' \<longrightarrow>
       (\<exists>s1 s2. same_tables s s1 \<and> fund_session_wallet_gas E session_id s1 = (Inr (), s2))))"
proof (cases "is_admin user \<and> st \<in> {''active'', ''paused'', ''cancelled''}")
  case False
  then have "t = s" using run by (auto simp: update_session_status_route_def fail_def split: if_splits)
  then show ?thesis by simp
next
  case True
  then have ok: "\<not> \<not> is_admin user" "\<not> st \<notin> {''active'', ''paused'', ''cancelled''}" by simp_all
  have "rbind (bare (ensure_session_access E user session_id)) (\<lambda>_. rbind (fund_if_started E session_id st) (\<lambda>_.
      bare (session_answer E (update_session_status E session_id st)))) s = (r, t)"
    using run unfolding update_session_status_route_def if_not_P [OF ok(1)] if_not_P [OF ok(2)] .
  then show ?thesis
  proof (cases rule: rbind_cases)
    case (failed e)
    from access_asks [OF this(1)] show ?thesis by (simp add: asks_def same_tables_def)
  next
    case (passed x u)
    have u: "same_tables s u" "sent u = sent s" using access_asks [OF passed(1)] by (simp_all add: asks_def)
    from passed(2) show ?thesis
    proof (cases rule: rbind_cases)
      case (failed e)
      then have "st = ''active''" and "\<exists>e'. fund_session_wallet_gas E session_id u = (Inl e', t)"
        by (auto simp: fund_if_started_def ret_def map_err_Inl split: if_splits)
      then show ?thesis using paysD [OF pays_fund [OF law] u(1)] u(2) True by (force simp: same_tables_def)
    next
      case (passed y v)
      note t = answer_sends_nothing [OF passed(2)]
      show ?thesis
      proof (cases "st = ''active''")
        case active: True
        then have fund: "fund_session_wallet_gas E session_id u = (Inr (), v)" using passed(1) by (simp add: fund_if_started_def map_err_Inr)
        then show ?thesis using paysD [OF pays_fund [OF law] u(1) fund] u t True active by auto
      next
        case False
        then show ?thesis using passed(1) t u True by (simp add: fund_if_started_def ret_def)
      qed
    qed
  qed
qed

section \<open>Exporting a key\<close>

definition exports_key :: "env \<Rightarrow> string \<Rightarrow> uuid option \<Rightarrow> world \<Rightarrow> json \<Rightarrow> bool" where
  "exports_key E wallet_id owner s answer \<longleftrightarrow>
     (\<exists>w \<in> set (wallets s). \<exists>master key. parse_master_key E = Inr master \<and>
        uuid_parse (lib_of E) wallet_id = Some (w_id w) \<and> owner = Some (w_user w) \<and>
        decrypt_key E master (w_key w) (w_nonce w) = Inr key \<and>
        answer = JObj [(''private_key'', JStr (''0x'' @ hex_encode (lib_of E) key)), (''address'', JStr (w_address w))])"

lemma with_kms_Inr:
  "with_kms E call s = (Inr x, t) \<Longrightarrow> \<exists>master. parse_master_key E = Inr master \<and> call master (s\<lparr>calls := Suc (calls s)\<rparr>) = (Inr x, t)"
  by (auto simp: with_kms_def fail_def dest!: grpc_Inr split: sum.splits)

lemma exported_key:
  assumes "export_private_key E master wallet_id owner s = (Inr (hex_key, address), t)" "parse_master_key E = Inr master"
  shows "exports_key E wallet_id (uuid_parse (lib_of E) owner) s (JObj [(''private_key'', JStr hex_key), (''address'', JStr address)])"
proof -
  obtain i o' w key where "uuid_parse (lib_of E) wallet_id = Some i" "uuid_parse (lib_of E) owner = Some o'"
    "find (\<lambda>w. w_id w = i \<and> w_user w = o') (wallets s) = Some w" "decrypt_key E master (w_key w) (w_nonce w) = Inr key"
    "hex_key = ''0x'' @ hex_encode (lib_of E) key" "address = w_address w"
    using assms(1) by (auto simp: export_private_key_def run_iffs ok_or_def wallet_owned_by_def of_result_def split: option.splits)
  then show ?thesis using assms(2) by (auto simp: exports_key_def find_Some_iff)
qed

lemma export_for_sound:
  assumes "export_for E W user owner wallet_id given s = (Inr answer, t)"
  shows "same_tables s t \<and> (\<exists>c. given = Some c \<and> passed_2fa E W user c s) \<and>
    exports_key E wallet_id (uuid_parse (lib_of E) owner) s answer"
proof -
  obtain s1 s2 hex_key address where run: "confirm_2fa E W user given s = (Inr (), s1)" "connect E s1 = (Inr (), s2)"
    "with_kms E (\<lambda>master. export_private_key E master wallet_id owner) s2 = (Inr (hex_key, address), t)"
    "answer = JObj [(''private_key'', JStr hex_key), (''address'', JStr address)]"
    using assms by (auto simp: export_for_def or_http_def run_iffs)
  have tables: "same_tables s s1" "same_tables s1 s2"
    using keepsD [OF tab.keeps_callers(1) run(1)] keepsD [OF tab.keeps_callers(2) run(2)] by auto
  obtain master where m: "parse_master_key E = Inr master"
      "export_private_key E master wallet_id owner (s2\<lparr>calls := Suc (calls s2)\<rparr>) = (Inr (hex_key, address), t)"
    using with_kms_Inr [OF run(3)] by blast
  have "same_tables s2 t" using keepsD [OF tab.keeps_export m(2)] by (simp add: same_tables_def)
  moreover have "exports_key E wallet_id (uuid_parse (lib_of E) owner) s answer"
    using exported_key [OF m(2,1)] tables run(4) by (simp add: exports_key_def same_tables_def)
  ultimately show ?thesis using tables confirm_2fa_passed [OF run(1)] tab.rel_trans by blast
qed

text \<open>C3: A key leaves the gateway only past the second factor of the caller: a user exports only the key of an
  own wallet, an administrator that of the owner named in the request; the answer is the key that the stored
  ciphertext opens to, and no table changes.\<close>

theorem key_export_guarded:
  assumes "uuid_law E"
  shows "(export_wallet E W user wallet_id given s = (Inr answer, t) \<longrightarrow>
       same_tables s t \<and> (\<exists>c. given = Some c \<and> passed_2fa E W user c s) \<and>
       exports_key E wallet_id (Some (au_id user)) s answer) \<and>
    (admin_export_user_wallet E W user target wallet_id given s = (Inr answer, t) \<longrightarrow>
       is_admin user \<and> same_tables s t \<and> (\<exists>c. given = Some c \<and> passed_2fa E W user c s) \<and> exports_key E wallet_id (uuid_parse (lib_of E) target) s answer)"
  using assms export_for_sound
  by (fastforce simp: export_wallet_def admin_export_user_wallet_def fail_def uuid_law_def split: if_splits)

section \<open>What the public sees\<close>

lemma queried: "or_http h (query E f) s = (Inr x, t) \<Longrightarrow> same_tables s t \<and> x = f t"
  by (auto simp: or_http_def query_def map_err_Inr sql_Inr gets_def same_tables_def)

lemma trades_answer_Inr:
  assumes "trades_answer E P limit s = (Inr answer, t)"
  shows "same_tables s t \<and> answer = JObj [(''trades'', JArr (map (trade_json (lib_of E)) (latest_trades P limit s))),
    (''total_received'', JStr (total_received P s))]"
proof -
  have reads: "total_received P u = total_received P s \<and> latest_trades P limit u = latest_trades P limit s"
    if "same_tables s u" for u
    using that by (simp add: same_tables_def total_received_def latest_trades_def trades_where_def)
  obtain total rows u where run: "or_http Server_Error (query E (total_received P)) s = (Inr total, u)"
      "or_http Server_Error (query E (latest_trades P limit)) u = (Inr rows, t)"
    and answer: "answer = JObj [(''trades'', JArr (map (trade_json (lib_of E)) rows)), (''total_received'', JStr total)]"
    using assms by (auto simp: trades_answer_def rbind_Inr_iff ret_def)
  have "same_tables s u" "same_tables s t" using queried [OF run(1)] queried [OF run(2)] tab.rel_trans by blast+
  then show ?thesis using queried [OF run(1)] queried [OF run(2)] answer reads [of u] reads [of t] by simp
qed

lemma latest_trades_props:
  shows "length (latest_trades P limit s) \<le> nat limit" "sorted (map (\<lambda>x. - trade_time x) (latest_trades P limit s))"
    "set (latest_trades P limit s) \<subseteq> set (trades_where P s)"
  by (simp_all add: latest_trades_def sorted_wrt_take take_map [symmetric])
    (metis set_sort set_take_subset)

text \<open>C12: The public page of a slug shows trades of a shared session with that slug and of no other, at most 200 and
  the newest first, and the sum of what its confirmed trades received; without such a session it shows nothing.\<close>

theorem public_trades_shared_only:
  assumes "get_public_session_trades E slug limit s = (Inr answer, t)"
  shows "same_tables s t \<and> (\<exists>rows. answer = JObj [(''trades'', JArr (map (trade_json (lib_of E)) rows)),
        (''total_received'', JStr (total_received (\<lambda>r. s_slug r = Some slug \<and> s_sharing r) s))] \<and>
      length rows \<le> 200 \<and> sorted (map (\<lambda>x. - trade_time x) rows) \<and>
      (\<forall>x \<in> set rows. x \<in> set (trades s) \<and>
         (\<exists>r \<in> set (sessions s). s_id r = t_session x \<and> s_slug r = Some slug \<and> s_sharing r)) \<and>
      (\<not> list_ex (\<lambda>r. s_slug r = Some slug \<and> s_sharing r) (sessions s) \<longrightarrow>
         answer = JObj [(''trades'', JArr []), (''total_received'', JStr ''0'')]))"
proof -
  let ?P = "\<lambda>r. s_slug r = Some slug \<and> s_sharing r"
  let ?rows = "latest_trades ?P (clamp_trades_limit limit) s"
  have run: "trades_answer E ?P (clamp_trades_limit limit) s = (Inr answer, t)"
    using assms by (simp add: get_public_session_trades_def)
  note answer = trades_answer_Inr [OF run]
  have "length ?rows \<le> 200" using latest_trades_props(1) [of ?P "clamp_trades_limit limit" s] by (simp add: clamp_trades_limit_def)
  moreover have "x \<in> set (trades s) \<and> (\<exists>r \<in> set (sessions s). s_id r = t_session x \<and> ?P r)" if "x \<in> set ?rows" for x
    using latest_trades_props(3) that by (fastforce simp: trades_where_def list_ex_iff)
  moreover have "?rows = [] \<and> total_received ?P s = ''0''" if "\<not> list_ex ?P (sessions s)"
  proof -
    have "trades_where ?P s = []" using that by (auto simp: trades_where_def list_ex_iff)
    moreover have "show_int 0 = ''0''" by code_simp
    ultimately show ?thesis by (simp add: latest_trades_def total_received_def)
  qed
  ultimately show ?thesis using answer latest_trades_props(2) by auto
qed

section \<open>Witnesses\<close>

text \<open>An administrator with a second factor, a session that is shared, and a wallet for the gas.\<close>

definition paid_env :: env where
  "paid_env = gate_env\<lparr>cfg := keyed_settings\<lparr>execution := default_execution\<lparr>gas_wallet_id := show_hex 32 4\<rparr>\<rparr>,
     node_of := sample_node\<lparr>rpc_native_balance := (\<lambda>url a n. Inr (if a = 6 then 1000000000 else 0))\<rparr>\<rparr>"

definition paid_world :: world where
  "paid_world = guarded_world\<lparr>wallets := [sample_wallet, sample_wallet\<lparr>w_id := 4, w_address := sample_addr_show 6\<rparr>],
     sessions := [sample_session_row\<lparr>s_slug := Some ''abc'', s_sharing := True\<rparr>]\<rparr>"

definition chief :: auth_user where
  "chief = \<lparr>au_id = 1, au_role = ''admin''\<rparr>"

lemma chief: "is_admin chief"
  by (simp add: is_admin_def chief_def)

lemma paid_parts:
  "lib_of paid_env = sample_lib" "elapsed_ms paid_env n = 0" "db_reply paid_env n = Served" "grpc_down paid_env n = None"
  "node_of paid_env = sample_node\<lparr>rpc_native_balance := (\<lambda>url a n. Inr (if a = 6 then 1000000000 else 0))\<rparr>"
  by (simp_all add: paid_env_def gate_env_def sample_env_parts)

lemma paid_law: "uuid_law paid_env"
  using gate_uuid_law by (simp add: uuid_law_def paid_parts gate_env_parts)

lemma paid_texts:
  "sample_uuid_parse (show_hex 32 9) = Some 9" "sample_uuid_parse (show_hex 32 0) = Some 0" "sample_uuid_parse (show_hex 32 4) = Some 4"
  "sample_addr_parse (sample_addr_show 5) = Some 5" "sample_addr_parse (sample_addr_show 6) = Some 6"
  "sample_addr_parse (sample_addr_show 8) = Some 8" "sample_addr_parse ''0x0000000000000000000000000000000000000002'' = Some 2"
  "map_of (chain_entries (cfg paid_env)) ''bsc'' = Some sample_chain" "trim ''http://node'' = ''http://node''"
  "cc_rpc_url sample_chain = ''http://node''" "sample_url_ok ''http://node''" "cc_chain_id sample_chain = 56"
  "parse_master_key paid_env = Inr zero_key" "key_ok sample_lib (replicate 32 7)"
  "decrypt_key paid_env zero_key (w_key sample_wallet) (w_nonce sample_wallet) = Inr (replicate 32 7)"
  "sample_uuid_show 0 = show_hex 32 0" "sample_uuid_show 9 = show_hex 32 9"
  "trim (gas_wallet_id (execution (cfg paid_env))) = show_hex 32 4" "show_hex 32 4 \<noteq> []"
  by code_simp+

lemma paid_empty: "session_pools paid_world = []" "sent paid_world = []"
  by (simp_all add: paid_world_def guarded_world_def empty_world_def)

lemmas paid_run = refused_def required_def prefixed_def called_def reach_def map_err_def connect_def ask_def rbind_def of_result_def
  ok_or_def ret_def remote_def query_def sql_def gets_def grpc_def status_err_def Let_def paid_parts paid_texts sample_lib_parts

lemma paid_2fa:
  "users s = users paid_world \<Longrightarrow> withdraw_2fa paid_env sample_web chief ''123456'' s = (Inr (), s\<lparr>calls := 2 + calls s\<rparr>)"
  by (simp add: withdraw_2fa_def paid_run user_by_id_def chief_def paid_world_def guarded_world_def admin_row_def empty_world_def
      sample_web_def)

abbreviation paid_info :: session_info where
  "paid_info \<equiv> (row_to_session_info sample_lib (hd (sessions paid_world)))\<lparr>si_pools := []\<rparr>"

lemma paid_info:
  "si_wallet paid_info = show_hex 32 0" "si_chain paid_info = ''bsc''"
  "si_target_token paid_info = ''0x0000000000000000000000000000000000000002''"
  "si_total paid_info = ''1000''" "si_sold paid_info = ''0''" "si_pov paid_info = Fin 10"
  by code_simp+

lemma paid_session:
  assumes "sessions s = sessions paid_world" "session_pools s = []"
  shows "grpc paid_env (get_session paid_env (show_hex 32 9)) s = (Inr paid_info, s\<lparr>calls := 3 + calls s\<rparr>)"
  using assms
  by (simp add: paid_run get_session_def fetch_session_def fetch_session_pools_def parse_id_def load_session_def session_by_id_def
      paid_world_def sample_session_row_def pools_of_def)

lemma paid_addresses:
  assumes "wallets s = wallets paid_world"
  shows "sql paid_env (wallet_address_of paid_env (show_hex 32 0)) s = (Inr (sample_addr_show 5), s\<lparr>calls := Suc (calls s)\<rparr>)"
    "sql paid_env (wallet_address_of paid_env (show_hex 32 4)) s = (Inr (sample_addr_show 6), s\<lparr>calls := Suc (calls s)\<rparr>)"
  using assms by (simp_all add: wallet_address_of_def paid_run wallet_by_id_def paid_world_def sample_wallet_def)

lemma paid_sign:
  assumes "wallets s = wallets paid_world"
  shows "kms_sign paid_env (show_hex 32 0) raw s = (Inr ([9, 9], sample_b256_show 77), s\<lparr>calls := 2 + calls s\<rparr>)"
    "kms_sign paid_env (show_hex 32 4) raw s = (Inr ([9, 9], sample_b256_show 77), s\<lparr>calls := 2 + calls s\<rparr>)"
proof -
  have "tx_of_json sample_lib raw = Some sample_tx" "sign_tx sample_lib k tx = Some ([9, 9], 77)" "w_id sample_wallet = 0" for k tx
    by (simp_all add: sample_lib_def sample_wallet_def)
  then show "kms_sign paid_env (show_hex 32 0) raw s = (Inr ([9, 9], sample_b256_show 77), s\<lparr>calls := 2 + calls s\<rparr>)"
      "kms_sign paid_env (show_hex 32 4) raw s = (Inr ([9, 9], sample_b256_show 77), s\<lparr>calls := 2 + calls s\<rparr>)"
    using assms by (simp_all add: kms_sign_def sign_transaction_def parse_id_def paid_run wallet_by_id_def paid_world_def)
qed

lemma paid_codec: "tx_to_json sample_lib tx = Some [7]"
  by (simp add: sample_lib_def)

lemma paid_withdraw:
  assumes "wallets s = wallets paid_world"
  shows "withdraw_from paid_env paid_info sample_chain 5 8 None s =
    (Inr (sample_b256_show 77, 1000000), s\<lparr>calls := 7 + calls s, sent := sent s @
       [\<lparr>x_wallet = show_hex 32 0, x_request = withdrawal paid_env 5 2 8 1000000 0 56 3, x_raw = [9, 9]\<rparr>]\<rparr>)"
  using assms
  by (simp add: withdraw_from_def sign_and_withdraw_def paid_run send_raw_def modify_def withdraw_amount_def sample_node_answers
      paid_sign paid_info(1,3) paid_codec del: session_info.simps)

theorem withdrawal_sound_witness:
  "\<exists>r t x. admin_withdraw_session paid_env sample_web chief (show_hex 32 9) (sample_addr_show 8) None ''123456'' paid_world = (r, t) \<and>
     sent t = [x] \<and> withdraws paid_env (show_hex 32 9) (sample_addr_show 8) paid_world x"
proof -
  obtain r t where run: "admin_withdraw_session paid_env sample_web chief (show_hex 32 9) (sample_addr_show 8) None ''123456''
      paid_world = (r, t)"
    by (cases "admin_withdraw_session paid_env sample_web chief (show_hex 32 9) (sample_addr_show 8) None ''123456'' paid_world")
  then have "sent t \<noteq> []"
    by (auto simp: admin_withdraw_session_def chief paid_2fa paid_session paid_addresses paid_withdraw paid_info(1,2) paid_empty
        paid_run simp del: grpc_def sql_def)
  then obtain x where "sent t = [x]" "withdraws paid_env (show_hex 32 9) (sample_addr_show 8) paid_world x"
    using withdrawal_sound [OF paid_law run] paid_empty by auto
  with run show ?thesis by blast
qed

lemma paid_deficit:
  "remaining_amount paid_env paid_info = 1000" "funding_deficit paid_env paid_info 1000 3 0 = 108000000"
proof -
  have "gas_padding_percent (execution (cfg paid_env)) = 20" "f_as_u64 (rnd 1000) = 1000"
    "u256_radix sample_lib 10 ''1000'' = Some 1000" "u256_radix sample_lib 10 ''0'' = Some 0"
    by code_simp+
  then show "remaining_amount paid_env paid_info = 1000" "funding_deficit paid_env paid_info 1000 3 0 = 108000000"
    by (simp_all add: remaining_amount_def funding_deficit_def paid_info(4-6) paid_parts sat_sub_def min_sell_per_swap_def
        funding_swaps_def gas_needed_def Let_def del: session_info.simps)
qed

lemma paid_gas:
  assumes "wallets s = wallets paid_world"
  shows "send_gas paid_env sample_chain ''http://node'' (show_hex 32 4) 5 108000000 3 session_id s =
    (Inr (), s\<lparr>calls := 7 + calls s, sent := sent s @
       [\<lparr>x_wallet = show_hex 32 4, x_request = gas_transfer 6 5 108000000 0 56 3, x_raw = [9, 9]\<rparr>]\<rparr>)"
  using assms
  by (simp add: send_gas_def sign_and_send_gas_def paid_addresses paid_sign paid_run send_raw_def modify_def sample_node_def
      paid_codec del: sql_def)

lemma paid_funding:
  assumes "sessions s = sessions paid_world" "wallets s = wallets paid_world" "session_pools s = []"
  shows "fund_session_wallet_gas paid_env (show_hex 32 9) s = (Inr (), s\<lparr>calls := 14 + calls s, sent := sent s @
       [\<lparr>x_wallet = show_hex 32 4, x_request = gas_transfer 6 5 108000000 0 56 3, x_raw = [9, 9]\<rparr>]\<rparr>)"
  using assms
  by (simp add: fund_session_wallet_gas_def paid_session paid_addresses paid_deficit paid_gas paid_info(1,2) paid_run
      sample_node_answers del: session_info.simps sql_def grpc_def)

lemma paid_access: "ensure_session_access paid_env chief (show_hex 32 9) paid_world = (Inr (), paid_world\<lparr>calls := 1\<rparr>)"
  by (simp add: ensure_session_access_def need_def or_http_def paid_run may_access_def chief paid_world_def guarded_world_def
      empty_world_def sample_session_row_def)

theorem activation_funded_witness:
  "\<exists>r t x. update_session_status_route paid_env chief (show_hex 32 9) ''active'' paid_world = (r, t) \<and> sent t = [x] \<and>
     funds paid_env (show_hex 32 9) paid_world x"
proof -
  obtain r t where run: "update_session_status_route paid_env chief (show_hex 32 9) ''active'' paid_world = (r, t)"
    by (cases "update_session_status_route paid_env chief (show_hex 32 9) ''active'' paid_world")
  have "bare (ensure_session_access paid_env chief (show_hex 32 9)) paid_world = (Inr (), paid_world\<lparr>calls := 1\<rparr>)"
    by (simp add: bare_def map_err_def paid_access)
  then have "sent t \<noteq> []"
    using run by (auto simp: update_session_status_route_def chief rbind_def fund_if_started_def map_err_def paid_funding paid_empty
        dest!: answer_sends_nothing)
  then obtain x where "sent t = [x]" "funds paid_env (show_hex 32 9) paid_world x"
    using activation_funded [OF paid_law run] paid_empty by auto
  with run show ?thesis by blast
qed

lemma paid_export:
  "case fst (admin_export_user_wallet paid_env sample_web chief (show_hex 32 3) (show_hex 32 0) (Some ''123456'') paid_world) of
     Inl e \<Rightarrow> False | Inr answer \<Rightarrow> j_field ''private_key'' answer \<noteq> None"
  by code_simp

theorem key_export_guarded_witness:
  "\<exists>answer t. admin_export_user_wallet paid_env sample_web chief (show_hex 32 3) (show_hex 32 0) (Some ''123456'') paid_world =
       (Inr answer, t) \<and> passed_2fa paid_env sample_web chief ''123456'' paid_world \<and>
     exports_key paid_env (show_hex 32 0) (uuid_parse sample_lib (show_hex 32 3)) paid_world answer"
proof -
  obtain answer t where run: "admin_export_user_wallet paid_env sample_web chief (show_hex 32 3) (show_hex 32 0) (Some ''123456'')
      paid_world = (Inr answer, t)"
    using paid_export by (auto split: sum.splits) (metis prod.collapse)
  with key_export_guarded [OF paid_law, of sample_web chief "show_hex 32 0" "Some ''123456''" paid_world answer t "show_hex 32 3"]
  show ?thesis by (auto simp: paid_parts)
qed

definition trade_shown :: world where
  "trade_shown = paid_world\<lparr>trades := [sample_trade, sample_trade\<lparr>t_session := 10\<rparr>]\<rparr>"

theorem public_trades_shared_only_witness:
  "\<exists>rows total t. get_public_session_trades paid_env ''abc'' 500 trade_shown =
       (Inr (JObj [(''trades'', JArr (map (trade_json sample_lib) rows)), (''total_received'', total)]), t) \<and>
     rows \<noteq> [] \<and> (\<forall>x \<in> set rows. t_session x = 9)"
proof -
  let ?P = "\<lambda>r. s_slug r = Some ''abc'' \<and> s_sharing r"
  obtain answer t where run: "get_public_session_trades paid_env ''abc'' 500 trade_shown = (Inr answer, t)"
    by (simp add: get_public_session_trades_def trades_answer_def or_http_def paid_run)
  have row: "s_id r = 9" if "r \<in> set (sessions trade_shown)" for r
    using that by (simp add: trade_shown_def paid_world_def sample_session_row_def)
  have "sample_trade \<in> set (trades_where ?P trade_shown)"
    by (simp add: trades_where_def trade_shown_def paid_world_def sample_session_row_def sample_trade_def new_trade_row_def)
  then have "0 < length (trades_where ?P trade_shown)" by (rule length_pos_if_in_set)
  then have "0 < length (latest_trades ?P 200 trade_shown)" by (simp add: latest_trades_def del: length_greater_0_conv)
  moreover have shown: "trades_answer paid_env ?P 200 trade_shown = (Inr answer, t)"
    using run by (simp add: get_public_session_trades_def clamp_trades_limit_def)
  obtain rows where rows: "answer = JObj [(''trades'', JArr (map (trade_json (lib_of paid_env)) rows)),
        (''total_received'', JStr (total_received ?P trade_shown))]"
      "\<forall>x \<in> set rows. \<exists>r \<in> set (sessions trade_shown). s_id r = t_session x"
    using public_trades_shared_only [OF run] by blast
  moreover from this trades_answer_Inr [OF shown]
  have "map (trade_json (lib_of paid_env)) rows = map (trade_json (lib_of paid_env)) (latest_trades ?P 200 trade_shown)" by simp
  then have "length rows = length (latest_trades ?P 200 trade_shown)" by (rule map_eq_imp_length_eq)
  ultimately have "rows \<noteq> []" by auto
  moreover have "t_session x = 9" if "x \<in> set rows" for x using rows(2) row that by metis
  ultimately show ?thesis using run rows(1) unfolding paid_parts(1) by blast
qed

end
