(* ===== verification/Indexer.thy ===== *)
theory Indexer
  imports Events
begin

unbundle bit_operations_syntax

text \<open>
  The indexer (\<open>crates/indexer\<close>): the decoding of the logs of a block into swap events and deposits, the
  lookup of the tokens of a pool with its cache, the lookup of the wallets of users, and the poller that
  hands every block to the workers.  A lg is what alloy makes of it; the answers of the node about blocks are
  the parameter \<open>block_node\<close>.  The cache is a value that every step returns.
\<close>

section \<open>Logs\<close>

record evm_log =
  lg_address :: addr
  lg_topics :: "b256 list"
  lg_data :: "byte list"
  lg_tx :: "b256 option"
  lg_block :: "u64 option"
  lg_index :: "u64 option"

definition uniswap_v2_swap_sig :: b256 where
  "uniswap_v2_swap_sig = 0xd78ad95fa46c994b6551d0da85fc275fe613ce37657fb8d5e3d130840159d822"

definition uniswap_v3_swap_sig :: b256 where
  "uniswap_v3_swap_sig = 0xc42079f94a6350d7e6235f29174924f928cc2ac818eb64fed8004e115fbcca67"

definition erc20_transfer_sig :: b256 where
  "erc20_transfer_sig = 0xddf252ad1be2c89b69c2b068fc378daa952ba7f163c4a11628f55a4df523b3ef"

definition topic0 :: "evm_log \<Rightarrow> b256 option" where
  "topic0 lg = (case lg_topics lg of [] \<Rightarrow> None | t # ts \<Rightarrow> Some t)"

text \<open>The i-th word of the data, and the address in a word.\<close>

definition data_word :: "byte list \<Rightarrow> nat \<Rightarrow> u256" where
  "data_word data i = word_rcat (take 32 (drop (32 * i) data))"

definition from_word :: "b256 \<Rightarrow> addr" where
  "from_word w = ucast w"

section \<open>Swaps\<close>

definition swap_event ::
  "lib \<Rightarrow> string \<Rightarrow> evm_log \<Rightarrow> string \<Rightarrow> u64 \<Rightarrow> u32 \<Rightarrow> string \<Rightarrow> string \<Rightarrow> u256 \<Rightarrow> u256 \<Rightarrow> bool \<Rightarrow> dex_swap_event" where
  "swap_event L chain lg tx_hash block_number log_index pool_address dex_type amount_in amount_out token0_is_input =
     \<lparr>ev_chain = chain, ev_block_number = block_number, ev_tx_hash = tx_hash, ev_log_index = log_index,
      ev_pool_address = pool_address, ev_dex_type = dex_type, ev_token_in = [], ev_token_out = [],
      ev_amount_in = u256_show L amount_in, ev_amount_out = u256_show L amount_out,
      ev_sender = addr_debug L (from_word (lg_topics lg ! 1)), ev_recipient = addr_debug L (from_word (lg_topics lg ! 2)),
      ev_timestamp = 0, ev_token0_is_input = token0_is_input\<rparr>"

definition parse_v2_swap ::
  "lib \<Rightarrow> string \<Rightarrow> evm_log \<Rightarrow> string \<Rightarrow> u64 \<Rightarrow> u32 \<Rightarrow> string \<Rightarrow> dex_swap_event option" where
  "parse_v2_swap L chain lg tx_hash block_number log_index pool_address =
     (let data = lg_data lg in
      if length (lg_topics lg) < 3 then None
      else if length data < 128 then None
      else
        let amount0_in = data_word data 0; amount1_in = data_word data 1;
            amount0_out = data_word data 2; amount1_out = data_word data 3;
            token0_is_input = (amount0_in \<noteq> 0);
            (amount_in, amount_out) = (if token0_is_input then (amount0_in, amount1_out) else (amount1_in, amount0_out))
        in Some (swap_event L chain lg tx_hash block_number log_index pool_address ''uniswap_v2'' amount_in amount_out
                   token0_is_input))"

definition parse_v3_swap ::
  "lib \<Rightarrow> string \<Rightarrow> evm_log \<Rightarrow> string \<Rightarrow> u64 \<Rightarrow> u32 \<Rightarrow> string \<Rightarrow> dex_swap_event option" where
  "parse_v3_swap L chain lg tx_hash block_number log_index pool_address =
     (let data = lg_data lg in
      if length (lg_topics lg) < 3 then None
      else if length data < 160 then None
      else
        let amount0_raw = data_word data 0; amount1_raw = data_word data 1;
            amount0_negative = bit amount0_raw 255; amount1_negative = bit amount1_raw 255;
            token0_is_input = (\<not> amount0_negative);
            (amount_in, amount_out) =
              (if token0_is_input
               then (amount0_raw, if amount1_negative then NOT amount1_raw + 1 else amount1_raw)
               else (amount1_raw, NOT amount0_raw + 1))
        in Some (swap_event L chain lg tx_hash block_number log_index pool_address ''uniswap_v3'' amount_in amount_out
                   token0_is_input))"

text \<open>The parser never fails; a log it does not know gives nothing.\<close>

definition tx_hash_text :: "lib \<Rightarrow> evm_log \<Rightarrow> string" where
  "tx_hash_text L lg = opt_or [] (map_option (b256_debug L) (lg_tx lg))"

definition log_index32 :: "evm_log \<Rightarrow> u32" where
  "log_index32 lg = ucast (opt_or 0 (lg_index lg))"

definition parse_swap_log :: "lib \<Rightarrow> string \<Rightarrow> evm_log \<Rightarrow> dex_swap_event option" where
  "parse_swap_log L chain lg =
     (case topic0 lg of
        None \<Rightarrow> None
      | Some t \<Rightarrow>
          let tx_hash = tx_hash_text L lg; block_number = opt_or 0 (lg_block lg);
              log_index = log_index32 lg; pool_address = addr_debug L (lg_address lg) in
          if t = uniswap_v2_swap_sig then parse_v2_swap L chain lg tx_hash block_number log_index pool_address
          else if t = uniswap_v3_swap_sig then parse_v3_swap L chain lg tx_hash block_number log_index pool_address
          else None)"

section \<open>The tokens of a pool\<close>

text \<open>\<open>None\<close> under an address: it was tried and is not taken for a pool.\<close>

type_synonym token_cache = "addr \<rightharpoonup> (addr \<times> addr) option"

definition set_tokens :: "lib \<Rightarrow> evm_log \<Rightarrow> addr \<Rightarrow> addr \<Rightarrow> dex_swap_event \<Rightarrow> err + dex_swap_event" where
  "set_tokens L lg token0 token1 event =
     (let data = lg_data lg;
          as_input = (\<lambda>a b. event\<lparr>ev_token_in := addr_debug L a, ev_token_out := addr_debug L b\<rparr>) in
      if ev_dex_type event = ''uniswap_v2'' then
        if length data < 128 then Inl ''V2 swap log data too short''
        else if data_word data 0 \<noteq> 0 then Inr (as_input token0 token1) else Inr (as_input token1 token0)
      else if ev_dex_type event = ''uniswap_v3'' then
        if length data < 64 then Inl ''V3 swap log data too short''
        else if \<not> bit (data_word data 0) 255 then Inr (as_input token0 token1) else Inr (as_input token1 token0)
      else Inl (''Unsupported dex_type for token resolution: '' @ ev_dex_type event))"

definition pool_tokens :: "env \<Rightarrow> string \<Rightarrow> addr \<Rightarrow> token_cache \<Rightarrow> (world, err, (err + addr \<times> addr) \<times> token_cache) rt" where
  "pool_tokens E url pool cache =
     (case cache pool of
        Some (Some pair) \<Rightarrow> ret (Inr pair, cache)
      | Some None \<Rightarrow> ret (Inl ''address previously identified as non-pool'', cache)
      | None \<Rightarrow>
          rbind (attempt (remote E (rpc_token0 (node_of E) url pool))) (\<lambda>r0.
          rbind (attempt (remote E (rpc_token1 (node_of E) url pool))) (\<lambda>r1.
          ret (case (r0, r1) of
             (Inr t0, Inr t1) \<Rightarrow> (Inr (t0, t1), cache(pool \<mapsto> Some (t0, t1)))
           | _ \<Rightarrow> (Inl ''contract call to `token0`/`token1` failed; address is likely not a pool'', cache(pool \<mapsto> None))))))"

definition resolve_tokens_for_event ::
  "env \<Rightarrow> string \<Rightarrow> evm_log \<Rightarrow> dex_swap_event \<Rightarrow> token_cache \<Rightarrow> (world, err, (err + dex_swap_event) \<times> token_cache) rt" where
  "resolve_tokens_for_event E url lg event cache =
     rbind (pool_tokens E url (lg_address lg) cache) (\<lambda>(r, cache').
     ret (case r of Inl e \<Rightarrow> Inl e | Inr (token0, token1) \<Rightarrow> set_tokens (lib_of E) lg token0 token1 event, cache'))"

section \<open>Deposits\<close>

type_synonym wallet_lookup = "addr \<rightharpoonup> string \<times> string"

text \<open>The wallets of the users without the role of an administrator; of two with one address the later wins.\<close>

definition common_wallets :: "world \<Rightarrow> wallet_row list" where
  "common_wallets s = filter (\<lambda>w. list_ex (\<lambda>u. u_id u = w_user w \<and> u_role u = Common) (users s)) (wallets s)"

definition lookup_of :: "lib \<Rightarrow> wallet_row list \<Rightarrow> wallet_lookup" where
  "lookup_of L rows =
     fold (\<lambda>w m. case addr_parse L (w_address w) of
                   None \<Rightarrow> m
                 | Some a \<Rightarrow> m(a \<mapsto> (uuid_show L (w_id w), uuid_show L (w_user w)))) rows Map.empty"

definition refresh_wallet_lookup :: "env \<Rightarrow> (world, err, wallet_lookup) rt" where
  "refresh_wallet_lookup E = rbind (query E common_wallets) (\<lambda>rows. ret (lookup_of (lib_of E) rows))"

definition try_parse_deposit :: "lib \<Rightarrow> string \<Rightarrow> evm_log \<Rightarrow> wallet_lookup \<Rightarrow> deposit_event option" where
  "try_parse_deposit L chain lg wallet_lookup =
     (let data = lg_data lg in
      if length (lg_topics lg) < 3 then None
      else if length data < 32 then None
      else
        let to_addr = from_word (lg_topics lg ! 2) in
        case wallet_lookup to_addr of
          None \<Rightarrow> None
        | Some (wallet_id, user_id) \<Rightarrow>
            let from_addr = from_word (lg_topics lg ! 1); amount = data_word data 0 in
            Some \<lparr>de_chain = chain, de_block_number = opt_or 0 (lg_block lg), de_tx_hash = tx_hash_text L lg,
              de_log_index = log_index32 lg, de_token_address = addr_debug L (lg_address lg),
              de_from = addr_debug L from_addr, de_to = addr_debug L to_addr, de_amount = u256_show L amount,
              de_wallet_id = wallet_id, de_user_id = user_id\<rparr>)"

definition deposit_json :: "deposit_event \<Rightarrow> json" where
  "deposit_json d = JObj
     [(''chain'', JStr (de_chain d)), (''block_number'', JPos (de_block_number d)), (''tx_hash'', JStr (de_tx_hash d)),
      (''log_index'', JPos (ucast (de_log_index d))), (''token_address'', JStr (de_token_address d)),
      (''from'', JStr (de_from d)), (''to'', JStr (de_to d)), (''amount'', JStr (de_amount d)),
      (''wallet_id'', JStr (de_wallet_id d)), (''user_id'', JStr (de_user_id d))]"

section \<open>A lg and a block\<close>

definition process_receipt_log ::
  "env \<Rightarrow> string \<Rightarrow> string \<Rightarrow> u64 \<Rightarrow> wallet_lookup \<Rightarrow> evm_log \<Rightarrow> token_cache \<Rightarrow> (world, err, token_cache) rt" where
  "process_receipt_log E chain url block_timestamp wallet_lookup lg cache =
     (let L = lib_of E in
      case topic0 lg of
        None \<Rightarrow> ret cache
      | Some t \<Rightarrow>
          if t \<noteq> uniswap_v2_swap_sig \<and> t \<noteq> uniswap_v3_swap_sig \<and> t \<noteq> erc20_transfer_sig then ret cache
          else if t = erc20_transfer_sig then
            (case try_parse_deposit L chain lg wallet_lookup of
               None \<Rightarrow> ret cache
             | Some deposit \<Rightarrow> rbind (publish E subject_deposits (deposit_json deposit)) (\<lambda>_. ret cache))
          else
            (case parse_swap_log L chain lg of
               None \<Rightarrow> ret cache
             | Some event \<Rightarrow>
                 rbind (resolve_tokens_for_event E url lg (event\<lparr>ev_timestamp := block_timestamp\<rparr>) cache) (\<lambda>(r, cache').
                 case r of
                   Inl e \<Rightarrow> ret cache'
                 | Inr resolved \<Rightarrow> rbind (publish E subject_dex_swaps (event_json resolved)) (\<lambda>_. ret cache'))))"

fun process_logs ::
  "env \<Rightarrow> string \<Rightarrow> string \<Rightarrow> u64 \<Rightarrow> wallet_lookup \<Rightarrow> evm_log list \<Rightarrow> token_cache \<Rightarrow> (world, err, token_cache) rt" where
  "process_logs E chain url block_timestamp wallet_lookup [] cache = ret cache"
| "process_logs E chain url block_timestamp wallet_lookup (lg # logs) cache =
     rbind (process_receipt_log E chain url block_timestamp wallet_lookup lg cache)
       (process_logs E chain url block_timestamp wallet_lookup logs)"

text \<open>The answers of a node about blocks: the height, the time of a block, the logs of its receipts.\<close>

record block_node =
  block_height :: "string \<Rightarrow> nat \<Rightarrow> err + u64"
  block_time :: "string \<Rightarrow> u64 \<Rightarrow> nat \<Rightarrow> err + u64 option"
  block_receipts :: "string \<Rightarrow> u64 \<Rightarrow> nat \<Rightarrow> err + evm_log list list option"

definition process_block ::
  "env \<Rightarrow> block_node \<Rightarrow> string \<Rightarrow> string \<Rightarrow> u64 \<Rightarrow> wallet_lookup \<Rightarrow> u64 \<Rightarrow> token_cache \<Rightarrow> (world, err, token_cache) rt" where
  "process_block E B chain url max_block_age wallet_lookup block_number cache =
     rbind (map_err (\<lambda>e. ''Failed to fetch block '' @ show_nat (unat block_number)) (remote E (block_time B url block_number))) (\<lambda>block.
     case block of
       None \<Rightarrow> ret cache
     | Some block_timestamp \<Rightarrow>
         rbind (ask (\<lambda>n. Inr (unix_secs E n))) (\<lambda>now_secs.
         if max_block_age < sat_sub now_secs block_timestamp then ret cache
         else
           rbind (map_err (\<lambda>e. ''Failed to fetch receipts for block '' @ show_nat (unat block_number))
                    (remote E (block_receipts B url block_number))) (\<lambda>receipts.
           case receipts of
             None \<Rightarrow> ret cache
           | Some rs \<Rightarrow> process_logs E chain url block_timestamp wallet_lookup (concat rs) cache)))"

text \<open>A worker logs the failure of a block and goes on with the next one.\<close>

fun work_off ::
  "env \<Rightarrow> block_node \<Rightarrow> string \<Rightarrow> string \<Rightarrow> u64 \<Rightarrow> wallet_lookup \<Rightarrow> u64 list \<Rightarrow> token_cache \<Rightarrow> (world, err, token_cache) rt" where
  "work_off E B chain url max_block_age wallet_lookup [] cache = ret cache"
| "work_off E B chain url max_block_age wallet_lookup (b # bs) cache =
     rbind (attempt (process_block E B chain url max_block_age wallet_lookup b cache)) (\<lambda>r.
     work_off E B chain url max_block_age wallet_lookup bs (case r of Inl e \<Rightarrow> cache | Inr cache' \<Rightarrow> cache'))"

section \<open>The poller\<close>

text \<open>One round: the blocks it hands to the workers, and the last block handed over.\<close>

definition poll :: "err + u64 \<Rightarrow> u64 \<Rightarrow> u64 list \<times> u64" where
  "poll reply last_enqueued =
     (case reply of
        Inl e \<Rightarrow> ([], last_enqueued)
      | Inr latest_block \<Rightarrow>
          if last_enqueued < latest_block
          then (map of_nat [unat (last_enqueued + 1) ..< Suc (unat latest_block)], latest_block)
          else ([], last_enqueued))"

fun poll_all :: "(err + u64) list \<Rightarrow> u64 \<Rightarrow> u64 list \<times> u64" where
  "poll_all [] last_enqueued = ([], last_enqueued)"
| "poll_all (reply # replies) last_enqueued =
     (let (blocks, last1) = poll reply last_enqueued; (rest, last2) = poll_all replies last1 in (blocks @ rest, last2))"

definition index_start :: "env \<Rightarrow> block_node \<Rightarrow> string \<Rightarrow> string \<Rightarrow> (world, err, u64) rt" where
  "index_start E B chain rpc_url =
     (if \<not> url_ok (lib_of E) rpc_url then fail (''Invalid rpc_url for chain '' @ chain)
      else map_err (\<lambda>e. ''Failed to fetch initial block number'') (remote E (block_height B rpc_url)))"

definition indexed_chains :: "env \<Rightarrow> (string \<times> string) list" where
  "indexed_chains E =
     map (\<lambda>(name, c). (name, cc_rpc_url c))
       (filter (\<lambda>(name, c). cc_enabled c \<and> cc_rpc_url c \<noteq> []) (chain_entries (cfg E)))"

definition indexer_limits :: "env \<Rightarrow> nat \<times> nat \<times> u64 \<times> u64" where
  "indexer_limits E =
     (let I = indexer (cfg E) in
      (max (worker_count I) 1, max (block_queue_size I) 1, max (block_poll_interval_ms I) 1, max_block_age_secs I))"

section \<open>Amounts\<close>

lemma sign_bit: "bit (w :: u256) 255 \<longleftrightarrow> sint w < 0"
  using bit_last_iff [of w] by simp

lemma negated: "NOT (w :: u256) + 1 = - w"
  by (simp add: minus_eq_not_plus_1)

lemma sint_u256: "sint w = int (unat w) - (if bit w 255 then 2 ^ 256 else 0)" for w :: u256
proof -
  have "sint w = take_bit 256 (uint w) - 2 ^ 256 * of_bool (bit (uint w) 255)"
    by (simp add: sint_uint signed_take_bit_eq_take_bit_minus)
  moreover have "take_bit 256 (uint w) = uint w" using unsigned_less [of w, where ?'a = int] by (simp add: take_bit_int_eq_self_iff)
  ultimately show ?thesis by (simp add: bit_uint_iff)
qed

lemma unat_of_sint: "int (unat w) = (if 0 \<le> sint w then sint w else 2 ^ 256 + sint w)" for w :: u256
  using sint_u256 [of w] sign_bit [of w] by auto

lemma unat_of_negated:
  fixes w :: u256
  assumes "sint w < 0"
  shows "int (unat (- w)) = - sint w"
proof -
  have "w \<noteq> 0" using assms by auto
  then have "0 < uint w" "uint w < 2 ^ 256"
    using uint_0_iff [of w] unsigned_less [of w, where ?'a = int] by (simp_all add: order_less_le)
  then have "uint (- w) = 2 ^ 256 - uint w" by (simp add: uint_word_ariths zmod_zminus1_eq_if)
  then show ?thesis using unat_of_sint [of w] assms by simp
qed

definition sold :: "lib \<Rightarrow> dex_swap_event \<Rightarrow> int \<Rightarrow> bool" where
  "sold L ev n \<longleftrightarrow> (\<exists>w. ev_amount_in ev = u256_show L w \<and> int (unat w) = n)"
definition bought :: "lib \<Rightarrow> dex_swap_event \<Rightarrow> int \<Rightarrow> bool" where
  "bought L ev n \<longleftrightarrow> (\<exists>w. ev_amount_out ev = u256_show L w \<and> int (unat w) = n)"

text \<open>C20: The amounts of a V3 swap are read as two's complement: the token whose amount is not negative comes in, and the
  event says how much came in and how much went out, as positive numbers.  Only if both amounts are negative, which
  no swap produces, is the incoming amount the unsigned reading of a negative number.\<close>

theorem v3_amounts_correct:
  assumes "parse_swap_log L chain lg = Some ev" "topic0 lg = Some uniswap_v3_swap_sig"
  defines "a0 \<equiv> sint (data_word (lg_data lg) 0)" and "a1 \<equiv> sint (data_word (lg_data lg) 1)"
  shows "(0 \<le> a0 \<longrightarrow> ev_token0_is_input ev \<and> sold L ev a0 \<and> bought L ev \<bar>a1\<bar>) \<and>
    (a0 < 0 \<longrightarrow> \<not> ev_token0_is_input ev \<and> bought L ev (- a0) \<and> sold L ev (if 0 \<le> a1 then a1 else 2 ^ 256 + a1))"
proof -
  have other: "uniswap_v3_swap_sig \<noteq> uniswap_v2_swap_sig" by (simp add: uniswap_v3_swap_sig_def uniswap_v2_swap_sig_def)
  let ?w0 = "data_word (lg_data lg) 0" and ?w1 = "data_word (lg_data lg) 1"
  have ev: "ev_token0_is_input ev = (0 \<le> sint ?w0)"
      "ev_amount_in ev = u256_show L (if 0 \<le> sint ?w0 then ?w0 else ?w1)"
      "ev_amount_out ev = u256_show L (if 0 \<le> sint ?w0 then if sint ?w1 < 0 then - ?w1 else ?w1 else - ?w0)"
    using assms(1,2) other unfolding parse_swap_log_def parse_v3_swap_def sign_bit negated
    by (auto simp: Let_def swap_event_def split: if_splits)
  have w: "int (unat ?w0) = a0" if "0 \<le> a0" using that unat_of_sint [of ?w0] by (simp add: a0_def)
  show ?thesis
    using ev unat_of_sint [of ?w1] unat_of_negated [of ?w0] unat_of_negated [of ?w1] w
    by (auto simp: sold_def bought_def a0_def a1_def)
qed

section \<open>The poller\<close>

lemma poll_step:
  "poll reply start = (map of_nat [Suc (unat start) ..< Suc (unat (snd (poll reply start)))], snd (poll reply start)) \<and>
   start \<le> snd (poll reply start)"
proof (cases reply)
  case (Inr latest)
  show ?thesis
  proof (cases "start < latest")
    case True
    then have "unat (start + 1) = Suc (unat start)"
      using unsigned_less [of latest, where ?'a = nat] by (subst unat_add_small) (simp_all add: word_less_nat_alt)
    then show ?thesis using True Inr by (simp add: poll_def)
  qed (simp add: poll_def Inr)
qed (simp add: poll_def)

lemma snd_poll: "snd (poll reply start) = (case reply of Inl e \<Rightarrow> start | Inr b \<Rightarrow> max start b)"
  by (auto simp: poll_def max_def split: sum.splits)

lemma finite_heights: "finite {b :: u64. Inr b \<in> set (replies :: (err + u64) list)}"
proof -
  have "{b. Inr b \<in> set replies} = projr ` {x \<in> set replies. \<not> isl x}" by (force simp: image_iff)
  then show ?thesis by simp
qed

text \<open>C22: Every block is handed to the workers exactly once, in order and without a gap: whatever heights the node reports,
  also failures and heights that go back, the blocks enqueued are those behind the starting one up to the highest
  reported.\<close>

theorem blocks_enqueued_once:
  "poll_all replies start =
     (map of_nat [Suc (unat start) ..< Suc (unat (Max (insert start {b. Inr b \<in> set replies})))],
      Max (insert start {b. Inr b \<in> set replies}))"
proof (induction replies arbitrary: start)
  case (Cons reply replies)
  let ?max = "\<lambda>start replies :: (err + u64) list. Max (insert start {b. Inr b \<in> set replies})"
  obtain bs p where one: "poll reply start = (bs, p)" by (cases "poll reply start")
  have bs: "bs = map of_nat [Suc (unat start) ..< Suc (unat p)]" and p: "start \<le> p" "p = (case reply of Inl e \<Rightarrow> start | Inr b \<Rightarrow> max start b)"
    using poll_step [of reply start] snd_poll [of reply start] unfolding one by auto
  have "?max start (reply # replies) = ?max p replies"
  proof (cases reply)
    case (Inr b)
    have "{b. Inr b \<in> set (reply # replies)} = insert b {b. Inr b \<in> set replies}" using Inr by auto
    then have "?max start (reply # replies) = Max (insert start (insert b {b. Inr b \<in> set replies}))" by simp
    also have "\<dots> = Max (insert (max start b) {b. Inr b \<in> set replies})"
      by (cases "{b. Inr b \<in> set replies} = {}") (simp_all add: finite_heights Max_insert max.assoc)
    finally show ?thesis by (simp add: p Inr)
  qed (simp add: p)
  moreover have "p \<le> ?max p replies" using finite_heights by auto
  then have "[Suc (unat start) ..< Suc (unat p)] @ [Suc (unat p) ..< Suc (unat (?max p replies))] =
      [Suc (unat start) ..< Suc (unat (?max p replies))]"
    using p(1) upt_add_eq_append [of "Suc (unat start)" "Suc (unat p)" "unat (?max p replies) - unat p"] by (simp add: word_le_nat_alt)
  ultimately show ?case by (simp add: one Cons.IH bs map_append [symmetric] del: map_append upt_Suc)
qed simp

section \<open>Frame\<close>

context world_rel begin

lemma keeps_pool_tokens: "keeps R (pool_tokens E url pool cache)"
  unfolding pool_tokens_def by (intro keeps_world)

lemma keeps_log: "keeps R (process_receipt_log E chain url ts lookup lg cache)"
  unfolding process_receipt_log_def resolve_tokens_for_event_def Let_def by (intro keeps_pool_tokens keeps_world)

lemma keeps_logs: "keeps R (process_logs E chain url ts lookup logs cache)"
  by (induction logs arbitrary: cache) (auto intro: keeps_ret keeps_rbind keeps_log)

lemma keeps_block: "keeps R (process_block E B chain url age lookup n cache)"
  unfolding process_block_def by (intro keeps_logs keeps_world)

end

end
