(* ===== verification/IndexerSafe.thy ===== *)
theory IndexerSafe
  imports Indexer Submit "HOL-Library.Sublist"
begin

text \<open>
  What the indexer puts on the bus: each message comes from a log of a recent block, in the order of the logs,
  with the tokens the node named for the pool; which transfers are deposits; and what becomes of a pool whose
  tokens could not be read once.
\<close>

context world_rel begin

lemmas keeps_indexer = keeps_block

end

section \<open>What a block leads to\<close>

text \<open>The node has named these two tokens for a pool.\<close>

definition reported :: "env \<Rightarrow> string \<Rightarrow> addr \<Rightarrow> addr \<times> addr \<Rightarrow> bool" where
  "reported E url pool pair \<longleftrightarrow>
     (\<exists>n m. rpc_token0 (node_of E) url pool n = Inr (fst pair) \<and> rpc_token1 (node_of E) url pool m = Inr (snd pair))"

definition cache_ok :: "env \<Rightarrow> string \<Rightarrow> token_cache \<Rightarrow> bool" where
  "cache_ok E url cache \<longleftrightarrow> (\<forall>pool pair. cache pool = Some (Some pair) \<longrightarrow> reported E url pool pair)"

text \<open>The message that a log gives.\<close>

definition deposit_message :: "env \<Rightarrow> string \<Rightarrow> wallet_lookup \<Rightarrow> evm_log \<Rightarrow> string \<times> json \<Rightarrow> bool" where
  "deposit_message E chain lookup lg msg \<longleftrightarrow>
     topic0 lg = Some erc20_transfer_sig \<and>
     (\<exists>d. try_parse_deposit (lib_of E) chain lg lookup = Some d \<and> msg = (subject_deposits, deposit_json d))"

definition swap_message :: "env \<Rightarrow> string \<Rightarrow> string \<Rightarrow> u64 \<Rightarrow> evm_log \<Rightarrow> string \<times> json \<Rightarrow> bool" where
  "swap_message E chain url ts lg msg \<longleftrightarrow>
     (\<exists>ev token0 token1. parse_swap_log (lib_of E) chain lg = Some ev \<and> reported E url (lg_address lg) (token0, token1) \<and>
        fst msg = subject_dex_swaps \<and>
        event_of_json (snd msg) = Some (ev\<lparr>ev_timestamp := ts,
          ev_token_in := addr_debug (lib_of E) (if ev_token0_is_input ev then token0 else token1),
          ev_token_out := addr_debug (lib_of E) (if ev_token0_is_input ev then token1 else token0)\<rparr>))"

lemma set_tokens_v2:
  assumes "parse_v2_swap L chain lg h b i a = Some ev"
  shows "set_tokens L lg token0 token1 (ev\<lparr>ev_timestamp := ts\<rparr>) = Inr (ev\<lparr>ev_timestamp := ts,
    ev_token_in := addr_debug L (if ev_token0_is_input ev then token0 else token1),
    ev_token_out := addr_debug L (if ev_token0_is_input ev then token1 else token0)\<rparr>)"
  using assms by (cases "data_word (lg_data lg) 0 = 0")
    (auto simp: parse_v2_swap_def swap_event_def set_tokens_def Let_def split: if_splits)

lemma set_tokens_v3:
  assumes "parse_v3_swap L chain lg h b i a = Some ev"
  shows "set_tokens L lg token0 token1 (ev\<lparr>ev_timestamp := ts\<rparr>) = Inr (ev\<lparr>ev_timestamp := ts,
    ev_token_in := addr_debug L (if ev_token0_is_input ev then token0 else token1),
    ev_token_out := addr_debug L (if ev_token0_is_input ev then token1 else token0)\<rparr>)"
proof -
  have "\<not> length (lg_topics lg) < 3" "\<not> length (lg_data lg) < 160"
    using assms by (auto simp: parse_v3_swap_def Let_def split: if_splits)
  then show ?thesis
    using assms by (cases "bit (data_word (lg_data lg) 0) 255")
      (auto simp: parse_v3_swap_def swap_event_def set_tokens_def Let_def)
qed

lemma set_tokens_direction:
  assumes "parse_swap_log L chain lg = Some ev"
  shows "set_tokens L lg token0 token1 (ev\<lparr>ev_timestamp := ts\<rparr>) = Inr (ev\<lparr>ev_timestamp := ts,
    ev_token_in := addr_debug L (if ev_token0_is_input ev then token0 else token1),
    ev_token_out := addr_debug L (if ev_token0_is_input ev then token1 else token0)\<rparr>)"
  using assms set_tokens_v2 set_tokens_v3
  by (fastforce simp: parse_swap_log_def Let_def split: option.splits if_splits)

lemma pool_tokens_run:
  assumes "pool_tokens E url pool cache s = (r, t)" "cache_ok E url cache"
  obtains x cache' where "r = Inr (x, cache')" "published t = published s" "cache_ok E url cache'"
    "\<And>pair. x = Inr pair \<Longrightarrow> reported E url pool pair"
proof (cases "cache pool")
  case None
  obtain r0 r1 where r: "rpc_token0 (node_of E) url pool (calls s) = r0" "rpc_token1 (node_of E) url pool (Suc (calls s)) = r1"
    by blast
  show ?thesis
  proof (cases "isl r0 \<or> isl r1")
    case True
    then have "r = Inr (Inl ''contract call to `token0`/`token1` failed; address is likely not a pool'', cache(pool \<mapsto> None))"
        "published t = published s"
      using assms(1) None r by (auto simp: pool_tokens_def rt_simps remote_def split: sum.splits)
    moreover have "cache_ok E url (cache(pool \<mapsto> None))" using assms(2) by (simp add: cache_ok_def)
    ultimately show ?thesis using that by blast
  next
    case False
    then obtain t0 t1 where tokens: "r0 = Inr t0" "r1 = Inr t1" by (cases r0; cases r1) auto
    then have "r = Inr (Inr (t0, t1), cache(pool \<mapsto> Some (t0, t1)))" "published t = published s"
      using assms(1) None r by (auto simp: pool_tokens_def rt_simps remote_def)
    moreover have rep: "reported E url pool (t0, t1)" using tokens r by (auto simp: reported_def)
    moreover have "cache_ok E url (cache(pool \<mapsto> Some (t0, t1)))" using assms(2) rep by (simp add: cache_ok_def)
    ultimately show ?thesis using that by blast
  qed
next
  case (Some known)
  then show ?thesis using assms that by (cases known) (auto simp: pool_tokens_def cache_ok_def)
qed

definition log_message :: "env \<Rightarrow> string \<Rightarrow> string \<Rightarrow> u64 \<Rightarrow> wallet_lookup \<Rightarrow> evm_log \<Rightarrow> string \<times> json \<Rightarrow> bool" where
  "log_message E chain url ts lookup lg msg \<longleftrightarrow> deposit_message E chain lookup lg msg \<or> swap_message E chain url ts lg msg"

lemma published_one:
  assumes "rbind (publish E subject payload) (\<lambda>_. ret x) s = (r, t)"
  shows "r = Inr x \<and> published t \<in> {published s, published s @ [(subject, payload)]}"
  using assms by (cases "publish_fails E (calls s)") (auto simp: publish_def rbind_def)

lemma log_cases:
  obtains (nothing) "process_receipt_log E chain url ts lookup lg cache = ret cache"
    | (deposit) d where "topic0 lg = Some erc20_transfer_sig" "try_parse_deposit (lib_of E) chain lg lookup = Some d"
        "process_receipt_log E chain url ts lookup lg cache = rbind (publish E subject_deposits (deposit_json d)) (\<lambda>_. ret cache)"
    | (swap) ev where "parse_swap_log (lib_of E) chain lg = Some ev" "topic0 lg \<noteq> Some erc20_transfer_sig"
        "process_receipt_log E chain url ts lookup lg cache =
           rbind (resolve_tokens_for_event E url lg (ev\<lparr>ev_timestamp := ts\<rparr>) cache) (\<lambda>(r, cache').
             case r of Inl e \<Rightarrow> ret cache'
             | Inr resolved \<Rightarrow> rbind (publish E subject_dex_swaps (event_json resolved)) (\<lambda>_. ret cache'))"
proof (cases "topic0 lg")
  case (Some t)
  show ?thesis
  proof (cases "t = erc20_transfer_sig")
    case True
    then show ?thesis
      using Some that(1,2) by (cases "try_parse_deposit (lib_of E) chain lg lookup") (simp_all add: process_receipt_log_def Let_def)
  next
    case False
    then show ?thesis
    proof (cases "t = uniswap_v2_swap_sig \<or> t = uniswap_v3_swap_sig")
      case True
      then show ?thesis
        using Some False that(1,3) by (cases "parse_swap_log (lib_of E) chain lg") (auto simp: process_receipt_log_def Let_def)
    qed (use Some False that(1) in \<open>simp add: process_receipt_log_def Let_def\<close>)
  qed
qed (use that(1) in \<open>simp add: process_receipt_log_def\<close>)

lemma process_receipt_log_run:
  assumes run: "process_receipt_log E chain url ts lookup lg cache s = (r, t)" and ok: "cache_ok E url cache"
  shows "\<exists>cache'. r = Inr cache' \<and> cache_ok E url cache' \<and>
    (published t = published s \<or> (\<exists>msg. published t = published s @ [msg] \<and> log_message E chain url ts lookup lg msg))"
proof -
  let ?L = "lib_of E"
  show ?thesis
  proof (cases rule: log_cases [of E chain url ts lookup lg cache])
    case nothing
    then show ?thesis using run ok by simp
  next
    case (deposit d)
    have "r = Inr cache \<and> published t \<in> {published s, published s @ [(subject_deposits, deposit_json d)]}"
      by (rule published_one [OF run [unfolded deposit(3)]])
    then show ?thesis using ok deposit(1,2) by (auto simp: log_message_def deposit_message_def)
  next
    case (swap ev)
    obtain q u where tokens: "pool_tokens E url (lg_address lg) cache s = (q, u)" by (cases "pool_tokens E url (lg_address lg) cache s")
    obtain x cache' where x: "q = Inr (x, cache')" "published u = published s" "cache_ok E url cache'"
        "\<And>pair. x = Inr pair \<Longrightarrow> reported E url (lg_address lg) pair"
      by (rule pool_tokens_run [OF tokens ok]) metis
    show ?thesis
    proof (cases x)
      case (Inl e)
      then show ?thesis
        using run swap(3) tokens x by (auto simp: resolve_tokens_for_event_def rbind_def ret_def)
    next
      case (Inr pair)
      obtain token0 token1 where pair: "pair = (token0, token1)" by (cases pair)
      let ?ev = "ev\<lparr>ev_timestamp := ts, ev_token_in := addr_debug ?L (if ev_token0_is_input ev then token0 else token1),
          ev_token_out := addr_debug ?L (if ev_token0_is_input ev then token1 else token0)\<rparr>"
      have "rbind (publish E subject_dex_swaps (event_json ?ev)) (\<lambda>_. ret cache') u = (r, t)"
        using run swap(3) tokens x(1) Inr pair set_tokens_direction [OF swap(1), of token0 token1 ts]
        by (simp add: resolve_tokens_for_event_def rbind_def ret_def)
      from published_one [OF this]
      have "r = Inr cache'" "published t \<in> {published s, published s @ [(subject_dex_swaps, event_json ?ev)]}" using x(2) by auto
      moreover have "swap_message E chain url ts lg (subject_dex_swaps, event_json ?ev)"
        using swap(1) x(4) Inr pair unfolding swap_message_def by auto
      ultimately show ?thesis using x(3) by (auto simp: log_message_def)
    qed
  qed
qed

lemma process_logs_run:
  "process_logs E chain url ts lookup logs cache s = (r, t) \<Longrightarrow> cache_ok E url cache \<Longrightarrow>
    \<exists>cache' ls msgs. r = Inr cache' \<and> cache_ok E url cache' \<and> published t = published s @ msgs \<and> subseq ls logs \<and>
      list_all2 (log_message E chain url ts lookup) ls msgs"
proof (induction logs arbitrary: cache s)
  case (Cons lg logs)
  obtain q u where first: "process_receipt_log E chain url ts lookup lg cache s = (q, u)"
    by (cases "process_receipt_log E chain url ts lookup lg cache s")
  obtain cache1 where c1: "q = Inr cache1" "cache_ok E url cache1"
    "published u = published s \<or> (\<exists>msg. published u = published s @ [msg] \<and> log_message E chain url ts lookup lg msg)"
    using process_receipt_log_run [OF first Cons.prems(2)] by blast
  have "process_logs E chain url ts lookup logs cache1 u = (r, t)" using Cons.prems(1) first c1(1) by (simp add: rbind_def)
  then obtain cache' ls msgs where rest: "r = Inr cache'" "cache_ok E url cache'" "published t = published u @ msgs" "subseq ls logs"
      "list_all2 (log_message E chain url ts lookup) ls msgs"
    using Cons.IH [OF _ c1(2)] by blast
  from c1(3) show ?case
  proof
    assume "published u = published s"
    then show ?case using rest by (metis list_emb_Cons)
  next
    assume "\<exists>msg. published u = published s @ [msg] \<and> log_message E chain url ts lookup lg msg"
    then obtain msg where msg: "published u = published s @ [msg]" "log_message E chain url ts lookup lg msg" by blast
    have "published t = published s @ (msg # msgs)" "subseq (lg # ls) (lg # logs)"
      "list_all2 (log_message E chain url ts lookup) (lg # ls) (msg # msgs)"
      using rest msg by simp_all
    then show ?case using rest(1,2) by blast
  qed
qed (auto intro: exI [of _ "[]"])

text \<open>C18: A block leads only to messages about its own logs: no table changes and nothing is sent to a chain; a block
  that is not too old gives at most one message for each log, in the order of the logs, and each is either the
  deposit that a transfer to a known wallet makes, or the swap as decoded, stamped with the time of the block, with
  the tokens that the node named for the pool, the incoming one first; the engine reads exactly that event.\<close>

theorem block_publishes_only:
  assumes run: "process_block E B chain url age lookup n cache s = (r, t)" and ok: "cache_ok E url cache"
  shows "asks s t \<and> (\<forall>cache'. r = Inr cache' \<longrightarrow> cache_ok E url cache') \<and>
    (published t = published s \<or>
     (\<exists>ts rs ls msgs k. block_time B url n (calls s) = Inr (Some ts) \<and> sat_sub (unix_secs E (Suc (calls s))) ts \<le> age \<and>
        block_receipts B url n k = Inr (Some rs) \<and> published t = published s @ msgs \<and> subseq ls (concat rs) \<and>
        list_all2 (log_message E chain url ts lookup) ls msgs))"
proof -
  let ?time = "block_time B url n (calls s)" and ?receipts = "block_receipts B url n (Suc (Suc (calls s)))"
  let ?old = "\<lambda>ts. age < sat_sub (unix_secs E (Suc (calls s))) ts"
  have same: "asks s t" using keepsD [OF qry.keeps_indexer run] .
  show ?thesis
  proof (cases "\<exists>ts rs. ?time = Inr (Some ts) \<and> \<not> ?old ts \<and> ?receipts = Inr (Some rs)")
    case True
    then obtain ts rs where block: "?time = Inr (Some ts)" "\<not> ?old ts" "?receipts = Inr (Some rs)" by blast
    obtain u where u: "process_logs E chain url ts lookup (concat rs) cache u = (r, t)" "published u = published s"
      using run block by (auto simp: process_block_def rt_simps remote_def)
    from process_logs_run [OF u(1) ok] show ?thesis using u(2) same block by auto
  next
    case False
    then have "(\<forall>cache'. r = Inr cache' \<longrightarrow> cache_ok E url cache') \<and> published t = published s"
      using run ok by (auto simp: process_block_def rt_simps remote_def split: sum.splits option.splits if_splits)
    then show ?thesis using same by simp
  qed
qed

section \<open>A pool that was not found\<close>

definition muted :: "addr \<Rightarrow> evm_log list \<Rightarrow> evm_log list" where
  "muted p logs = filter (\<lambda>lg. lg_address lg \<noteq> p \<or> topic0 lg = Some erc20_transfer_sig) logs"

definition mute_node :: "addr \<Rightarrow> block_node \<Rightarrow> block_node" where
  "mute_node p B = B\<lparr>block_receipts := (\<lambda>url n k. map_sum id (map_option (map (muted p))) (block_receipts B url n k))\<rparr>"

definition given_up :: "addr \<Rightarrow> token_cache \<Rightarrow> bool" where
  "given_up p cache \<longleftrightarrow> cache p = Some None"

lemma rbind_ret: "rbind (ret x) f = f x"
  by (simp add: rbind_def ret_def)

lemma rbind_cong_yields:
  assumes "yields P m" "\<And>x. P x \<Longrightarrow> f x = g x"
  shows "rbind m f = rbind m g"
  using assms by (fastforce simp: fun_eq_iff rbind_def yields_def split: prod.splits sum.splits)

lemma silent_log:
  assumes "given_up (lg_address lg) cache" "topic0 lg \<noteq> Some erc20_transfer_sig"
  shows "process_receipt_log E chain url ts lookup lg cache = ret cache"
  by (cases rule: log_cases [of E chain url ts lookup lg cache])
    (use assms in \<open>simp_all add: given_up_def resolve_tokens_for_event_def pool_tokens_def rbind_ret\<close>)

lemma yields_pool_tokens: "given_up p cache \<Longrightarrow> yields (\<lambda>(x, cache'). given_up p cache') (pool_tokens E url pool cache)"
  unfolding pool_tokens_def
  by (auto simp: given_up_def intro!: yields_ret yields_rbind split: option.split sum.splits)

lemma yields_log: 
  assumes "given_up p cache"
  shows "yields (given_up p) (process_receipt_log E chain url ts lookup lg cache)"
proof (cases rule: log_cases [of E chain url ts lookup lg cache])
  case (swap ev)
  have "yields (\<lambda>(x, cache'). given_up p cache') (resolve_tokens_for_event E url lg (ev\<lparr>ev_timestamp := ts\<rparr>) cache)"
    unfolding resolve_tokens_for_event_def
    by (rule yields_rbind_dep [OF yields_pool_tokens [OF assms]]) (auto intro: yields_ret)
  then show ?thesis
    unfolding swap(3) by (rule yields_rbind_dep) (auto intro!: yields_ret yields_rbind split: sum.split)
qed (use assms in \<open>auto intro!: yields_ret yields_rbind\<close>)

lemma process_logs_muted:
  "given_up p cache \<Longrightarrow> process_logs E chain url ts lookup logs cache = process_logs E chain url ts lookup (muted p logs) cache"
proof (induction logs arbitrary: cache)
  case (Cons lg logs)
  show ?case
  proof (cases "lg_address lg = p \<and> topic0 lg \<noteq> Some erc20_transfer_sig")
    case True
    then show ?thesis using Cons silent_log [of lg cache] by (simp add: muted_def rbind_ret)
  next
    case False
    then have "muted p (lg # logs) = lg # muted p logs" by (auto simp: muted_def)
    then show ?thesis
      unfolding process_logs.simps by (simp only: process_logs.simps, intro rbind_cong_yields [OF yields_log [OF Cons.prems]] Cons.IH)
  qed
qed (simp add: muted_def)

lemma yields_logs: "given_up p cache \<Longrightarrow> yields (given_up p) (process_logs E chain url ts lookup logs cache)"
  by (induction logs arbitrary: cache) (auto intro: yields_ret yields_rbind_dep yields_log)

lemma yields_block:
  "given_up p cache \<Longrightarrow> yields (given_up p) (process_block E B chain url age lookup n cache)"
  unfolding process_block_def
  by (intro yields_rbind yields_if) (auto intro!: yields_ret yields_rbind yields_logs split: option.split)

lemma remote_map:
  "rbind (map_err g (remote E (\<lambda>k. map_sum id h (f k)))) F = rbind (map_err g (remote E f)) (\<lambda>x. F (h x))"
proof
  fix s
  show "rbind (map_err g (remote E (\<lambda>k. map_sum id h (f k)))) F s = rbind (map_err g (remote E f)) (\<lambda>x. F (h x)) s"
    by (cases "f (calls s)") (simp_all add: rbind_def map_err_def remote_def)
qed

lemma process_block_muted:
  assumes "given_up p cache"
  shows "process_block E B chain url age lookup n cache = process_block E (mute_node p B) chain url age lookup n cache"
proof -
  have logs: "process_logs E chain url ts lookup (concat rs) cache = process_logs E chain url ts lookup (concat (map (muted p) rs)) cache"
    for ts rs
    using process_logs_muted [OF assms, of E chain url ts lookup "concat rs"] by (simp add: muted_def [abs_def] filter_concat)
  show ?thesis by (simp add: process_block_def mute_node_def remote_map case_map_option comp_def logs [symmetric] cong: if_cong option.case_cong)
qed

lemma work_off_muted:
  "given_up p cache \<Longrightarrow> work_off E B chain url age lookup blocks cache = work_off E (mute_node p B) chain url age lookup blocks cache"
proof (induction blocks arbitrary: cache)
  case (Cons b blocks)
  have "yields (\<lambda>r. \<forall>cache'. r = Inr cache' \<longrightarrow> given_up p cache') (attempt (process_block E (mute_node p B) chain url age lookup b cache))"
    using yields_block [OF Cons.prems] by (simp add: yields_attempt)
  then show ?case
    unfolding work_off.simps process_block_muted [OF Cons.prems, of E B chain url age lookup b]
    by (rule rbind_cong_yields) (use Cons in \<open>auto split: sum.split\<close>)
qed simp

text \<open>C19: One failed call loses a pool: when the tokens of a pool that is not known yet cannot be read, be it for a timeout, the
  swap is skipped and the pool is remembered as no pool; from then on, whatever blocks follow, the indexer does exactly
  what it would do if the pool made no swaps at all.\<close>

theorem failed_lookup_silences_pool:
  assumes swap: "parse_swap_log (lib_of E) chain lg = Some ev" and unknown: "cache (lg_address lg) = None"
    and failed: "rpc_token0 (node_of E) url (lg_address lg) (calls s) = Inl e"
    and run: "process_receipt_log E chain url ts lookup lg cache s = (r, t)"
  shows "\<exists>cache'. r = Inr cache' \<and> published t = published s \<and>
    (\<forall>B age lookup blocks. work_off E B chain url age lookup blocks cache' =
       work_off E (mute_node (lg_address lg) B) chain url age lookup blocks cache')"
proof -
  have sig: "topic0 lg \<in> {Some uniswap_v2_swap_sig, Some uniswap_v3_swap_sig}"
    using swap by (auto simp: parse_swap_log_def Let_def split: option.splits if_splits)
  have "uniswap_v2_swap_sig \<noteq> erc20_transfer_sig" "uniswap_v3_swap_sig \<noteq> erc20_transfer_sig"
    by (simp_all add: uniswap_v3_swap_sig_def uniswap_v2_swap_sig_def erc20_transfer_sig_def)
  then have "r = Inr (cache(lg_address lg \<mapsto> None)) \<and> published t = published s"
    using sig swap run unknown failed
    by (auto simp: process_receipt_log_def resolve_tokens_for_event_def pool_tokens_def rt_simps remote_def Let_def)
  then show ?thesis using work_off_muted [of "lg_address lg" "cache(lg_address lg \<mapsto> None)"] by (auto simp: given_up_def)
qed

section \<open>Deposits\<close>

lemma lookup_of_fold:
  "(fold (\<lambda>w m. case addr_parse L (w_address w) of None \<Rightarrow> m
      | Some a \<Rightarrow> m(a \<mapsto> (uuid_show L (w_id w), uuid_show L (w_user w)))) rows m) a = Some x \<Longrightarrow>
    m a = Some x \<or> (\<exists>w \<in> set rows. addr_parse L (w_address w) = Some a \<and> x = (uuid_show L (w_id w), uuid_show L (w_user w)))"
  by (induction rows arbitrary: m) (fastforce split: option.splits if_splits)+

lemma lookup_of_keeps:
  "m a \<noteq> None \<or> (\<exists>w \<in> set rows. addr_parse L (w_address w) = Some a) \<Longrightarrow>
    (fold (\<lambda>w m. case addr_parse L (w_address w) of None \<Rightarrow> m
      | Some a \<Rightarrow> m(a \<mapsto> (uuid_show L (w_id w), uuid_show L (w_user w)))) rows m) a \<noteq> None"
proof (induction rows arbitrary: m)
  case (Cons w rows)
  show ?case
  proof (cases "addr_parse L (w_address w)")
    case None
    then have "m a \<noteq> None \<or> (\<exists>w \<in> set rows. addr_parse L (w_address w) = Some a)" using Cons.prems by auto
    then show ?thesis using Cons.IH [of m] by (simp add: None del: not_None_eq)
  next
    case (Some b)
    let ?m = "m(b \<mapsto> (uuid_show L (w_id w), uuid_show L (w_user w)))"
    have "?m a \<noteq> None \<or> (\<exists>w \<in> set rows. addr_parse L (w_address w) = Some a)" using Cons.prems Some by auto
    note this [THEN Cons.IH [where m = ?m]]
    then show ?thesis by (simp add: Some del: not_None_eq fun_upd_apply)
  qed
qed simp

text \<open>C21: A transfer is a deposit exactly if it has its topics and amount and its recipient is the address of a wallet of a user
  without the role of an administrator, as the table had it at the refresh; the deposit names such a wallet, its
  owner, the recipient and the amount.\<close>

theorem deposit_detected:
  fixes lg :: evm_log
  assumes "refresh_wallet_lookup E s = (Inr lookup, t)"
  defines "dest \<equiv> from_word (lg_topics lg ! 2)"
  shows "(try_parse_deposit (lib_of E) chain lg lookup \<noteq> None \<longleftrightarrow> 3 \<le> length (lg_topics lg) \<and> 32 \<le> length (lg_data lg) \<and>
      (\<exists>w \<in> set (common_wallets s). addr_parse (lib_of E) (w_address w) = Some dest)) \<and>
    (\<forall>d. try_parse_deposit (lib_of E) chain lg lookup = Some d \<longrightarrow>
      de_amount d = u256_show (lib_of E) (data_word (lg_data lg) 0) \<and> de_to d = addr_debug (lib_of E) dest \<and>
      (\<exists>w \<in> set (common_wallets s). addr_parse (lib_of E) (w_address w) = Some dest \<and>
         de_wallet_id d = uuid_show (lib_of E) (w_id w) \<and> de_user_id d = uuid_show (lib_of E) (w_user w)))"
proof -
  let ?L = "lib_of E"
  have lookup: "lookup = lookup_of ?L (common_wallets s)"
    using assms(1) by (auto simp: refresh_wallet_lookup_def query_def sql_def gets_def Let_def rbind_def common_wallets_def
        split: db_reply.splits)
  have some: "lookup dest \<noteq> None \<longleftrightarrow> (\<exists>w \<in> set (common_wallets s). addr_parse ?L (w_address w) = Some dest)"
    using lookup_of_keeps [of Map.empty dest "common_wallets s" ?L] lookup_of_fold [of ?L "common_wallets s" Map.empty dest]
    unfolding lookup lookup_of_def by fastforce
  have entry: "\<exists>w \<in> set (common_wallets s). addr_parse ?L (w_address w) = Some dest \<and> x = (uuid_show ?L (w_id w), uuid_show ?L (w_user w))"
    if "lookup dest = Some x" for x
    using lookup_of_fold [of ?L "common_wallets s" Map.empty dest x] that unfolding lookup lookup_of_def by simp
  show ?thesis
    using some entry
    by (auto simp: try_parse_deposit_def dest_def Let_def not_less split: option.split)
qed

section \<open>Witnesses\<close>

text \<open>A V3 swap of 5 units of the first token against 3 of the second.\<close>

definition sample_swap :: evm_log where
  "sample_swap = \<lparr>lg_address = 0xaa, lg_topics = [uniswap_v3_swap_sig, 1, 2],
     lg_data = replicate 31 0 @ [5] @ replicate 31 255 @ [253] @ replicate 96 0,
     lg_tx = Some 9, lg_block = Some 7, lg_index = Some 0\<rparr>"

lemma sample_swap_words: "sint (data_word (lg_data sample_swap) 0) = 5" "sint (data_word (lg_data sample_swap) 1) = - 3"
  by code_simp+

lemma sample_swap_parsed: "parse_swap_log sample_lib ''bsc'' sample_swap \<noteq> None"
  by code_simp

theorem v3_amounts_correct_witness:
  "\<exists>ev. parse_swap_log sample_lib ''bsc'' sample_swap = Some ev \<and> ev_token0_is_input ev \<and> sold sample_lib ev 5 \<and> bought sample_lib ev 3"
proof -
  obtain ev where ev: "parse_swap_log sample_lib ''bsc'' sample_swap = Some ev" using sample_swap_parsed by blast
  have "topic0 sample_swap = Some uniswap_v3_swap_sig" by (simp add: topic0_def sample_swap_def)
  from v3_amounts_correct [OF ev this] ev show ?thesis by (simp add: sample_swap_words del: One_nat_def)
qed

definition sample_blocks :: block_node where
  "sample_blocks = \<lparr>block_height = (\<lambda>url n. Inr 7), block_time = (\<lambda>url b n. Inr (Some 1700000000)),
     block_receipts = (\<lambda>url b n. Inr (Some [[sample_swap]]))\<rparr>"

lemma sample_block_run:
  "published (snd (process_block sample_env sample_blocks ''bsc'' ''http://node'' 60 Map.empty 7 Map.empty empty_world)) \<noteq> []"
proof -
  obtain ev where ev: "parse_swap_log sample_lib ''bsc'' sample_swap = Some ev" using sample_swap_parsed by blast
  have "topic0 sample_swap = Some uniswap_v3_swap_sig" by (simp add: topic0_def sample_swap_def)
  moreover have "uniswap_v3_swap_sig \<noteq> erc20_transfer_sig" by (simp add: uniswap_v3_swap_sig_def erc20_transfer_sig_def)
  ultimately show ?thesis
    using set_tokens_direction [OF ev]
    by (simp add: process_block_def sample_blocks_def process_receipt_log_def resolve_tokens_for_event_def pool_tokens_def ev
        rt_simps remote_def publish_def sample_parts Let_def sat_sub_def)
qed

theorem block_publishes_only_witness:
  "\<exists>msg. published (snd (process_block sample_env sample_blocks ''bsc'' ''http://node'' 60 Map.empty 7 Map.empty empty_world)) = [msg] \<and>
     log_message sample_env ''bsc'' ''http://node'' 1700000000 Map.empty sample_swap msg"
proof -
  let ?run = "process_block sample_env sample_blocks ''bsc'' ''http://node'' 60 Map.empty 7 Map.empty empty_world"
  obtain r t where run: "?run = (r, t)" by (cases ?run)
  have some: "published t \<noteq> []" "published empty_world = []" using sample_block_run run by (simp_all add: empty_world_def)
  have "cache_ok sample_env ''http://node'' Map.empty" by (simp add: cache_ok_def)
  from block_publishes_only [OF run this] some obtain ls msgs where
    msgs: "published t = msgs" "subseq ls [sample_swap]" "list_all2 (log_message sample_env ''bsc'' ''http://node'' 1700000000 Map.empty) ls msgs"
    by (auto simp: sample_blocks_def)
  have "ls = [sample_swap]" using msgs some(1) by (cases ls) (auto simp: subseq_Cons' split: if_splits)
  then obtain msg where "published t = [msg]" "log_message sample_env ''bsc'' ''http://node'' 1700000000 Map.empty sample_swap msg"
    using msgs by (auto simp: list_all2_Cons1)
  then show ?thesis using run by (intro exI [of _ msg]) simp
qed

text \<open>A node that does not answer.\<close>

definition deaf_env :: env where
  "deaf_env = sample_env\<lparr>node_of := sample_node\<lparr>rpc_token0 := (\<lambda>url pool n. Inl ''timeout'')\<rparr>\<rparr>"

theorem failed_lookup_silences_pool_witness:
  "\<exists>cache t. process_receipt_log deaf_env ''bsc'' ''http://node'' 1700000000 Map.empty sample_swap Map.empty empty_world = (Inr cache, t) \<and>
     published t = [] \<and> work_off deaf_env sample_blocks ''bsc'' ''http://node'' 60 Map.empty [8, 9] cache =
       work_off deaf_env (mute_node 0xaa sample_blocks) ''bsc'' ''http://node'' 60 Map.empty [8, 9] cache"
proof -
  let ?run = "process_receipt_log deaf_env ''bsc'' ''http://node'' 1700000000 Map.empty sample_swap Map.empty empty_world"
  obtain r t where run: "?run = (r, t)" by (cases ?run)
  obtain ev where ev: "parse_swap_log (lib_of deaf_env) ''bsc'' sample_swap = Some ev"
    using sample_swap_parsed by (auto simp: deaf_env_def sample_env_parts)
  have "rpc_token0 (node_of deaf_env) ''http://node'' (lg_address sample_swap) (calls empty_world) = Inl ''timeout''"
    by (simp add: deaf_env_def)
  from failed_lookup_silences_pool [OF ev _ this run] obtain cache' where
    "r = Inr cache'" "published t = published empty_world" "\<forall>B age lookup blocks. work_off deaf_env B ''bsc'' ''http://node'' age lookup blocks cache' =
       work_off deaf_env (mute_node (lg_address sample_swap) B) ''bsc'' ''http://node'' age lookup blocks cache'"
    by auto
  moreover have "lg_address sample_swap = 0xaa" "published empty_world = []" by (simp_all add: sample_swap_def empty_world_def)
  ultimately show ?thesis using run by (intro exI [of _ cache'] exI [of _ t]) (simp del: work_off.simps)
qed

definition sample_transfer :: evm_log where
  "sample_transfer = sample_swap\<lparr>lg_topics := [erc20_transfer_sig, 1, 5], lg_data := replicate 31 0 @ [5]\<rparr>"

theorem deposit_detected_witness:
  "\<exists>lookup t d. refresh_wallet_lookup sample_env wallet_world = (Inr lookup, t) \<and>
     try_parse_deposit sample_lib ''bsc'' sample_transfer lookup = Some d \<and> de_wallet_id d = uuid_show sample_lib 0"
proof -
  obtain lookup t where run: "refresh_wallet_lookup sample_env wallet_world = (Inr lookup, t)"
    by (simp add: refresh_wallet_lookup_def query_def sql_def gets_def rbind_def ret_def sample_env_parts Let_def)
  have w: "common_wallets wallet_world = [sample_wallet]"
    by (simp add: common_wallets_def wallet_world_def user_world_def sample_wallet_def sample_user_def)
  have "addr_parse sample_lib (w_address sample_wallet) = Some (from_word (lg_topics sample_transfer ! 2))" 
     "3 \<le> length (lg_topics sample_transfer)" "32 \<le> length (lg_data sample_transfer)" by code_simp+
  with deposit_detected [OF run, of "''bsc''" sample_transfer] run w show ?thesis
    by (auto simp: sample_env_parts sample_wallet_def)
qed
end
