(* ===== verification/Spec2Isabelle.thy ===== *)
theory Spec2Isabelle
  imports EngineSafe GatewaySafe IndexerSafe
begin

text \<open>
  Liquifier: a service that sells tokens on decentralised exchanges on behalf of its users, whenever
  somebody buys them.  The repository is a Rust workspace of services that share one PostgreSQL database,
  a NATS message bus and EVM nodes:

  \<^item> the indexer publishes every swap of a pool and every deposit on the bus;
  \<^item> the execution engine answers each swap with sales for the sessions that watch the pool;
  \<^item> the session service keeps sessions, discovers pools and computes swap paths;
  \<^item> the wallet service (KMS) creates wallets, signs with their encrypted keys and exports them;
  \<^item> the gateway serves users over HTTP: accounts, prices and everything in front of the other services.

  Every part is a shallow embedding: a handler of the code is a function of the environment \<open>env\<close> and a
  state \<open>world\<close>, in the monad \<open>rt\<close> of theory Prelude (state with an error sum), statement by statement.

  \<^bold>\<open>Theories.\<close>

  \<^item> Prelude: the monad, its inversion rules, \<open>keeps\<close> (a relation of states kept by a computation) and
    \<open>yields\<close> (what a successful run returns) with the locales \<open>state_rel\<close>, \<open>call_rel\<close>, the interface
    \<open>kv_cache\<close>, saturating words.  Text: Rust strings as byte lists, decimal and hexadecimal numbers.
    F64: IEEE binary64 as rounded rationals.
  \<^item> Config (\<open>crates/config\<close>): settings, defaults, startup validation.  Extern: what the program uses of
    third-party crates, of a node and of the environment, as parameters; nothing is assumed about them
    outside named hypotheses.  Schema (\<open>migrations\<close>): the tables as records, \<open>world\<close>, SQL statements
    that are served, refused or lost, remote calls, publishing; locales \<open>world_rel\<close> and \<open>world_inv\<close>.
    Sample: one concrete environment for the witnesses.
  \<^item> Tokens (\<open>crates/common/src/types.rs\<close>, \<open>retry.rs\<close>): events, lookups, native tokens, the retry loop.
    Proto: gRPC messages and failures.  Events: the swap event as JSON.
  \<^item> Kms (\<open>crates/kms\<close>): every wallet operation.
  \<^item> Impact, Route, Receipt, Ledger, Submit, Oracle, Engine (\<open>crates/execution-engine\<close>): price impact;
    routes and router calldata; receipts; the trade ledger and its reconciliation; building, signing,
    submitting, allowances, sweep and excess refund; oracle valuation; the handling of a message.
  \<^item> Pools, Paths, Sessions (\<open>crates/session-api\<close>): pool discovery; swap paths, default routes and the
    path cache; every operation on sessions.
  \<^item> Email, Auth, AbiText, PriceCache (\<open>crates/api-gateway\<close>): e-mails; tokens, accounts, second factor;
    the decoder of ABI strings; oracle pools, their Redis cache, token prices and metadata.  Refunds: asking for
    a refund, its confirmation by e-mail and the decision of an administrator.  Gateway: the routes in front of
    the other services, access to sessions, trades and listings.  Funding: the gas of a session that is
    activated, withdrawals, and the session of a user who only wants to sell.
  \<^item> Indexer (\<open>crates/indexer\<close>): decoding of swaps and deposits, the tokens of a pool with their cache, the
    work on a block and the poller.
  \<^item> EngineSafe, AuthSafe, GatewaySafe and IndexerSafe hold the theorems on the engine, the accounts, the
    routes of the gateway and the messages of the indexer, over the operations of all the parts they use.

  \<^bold>\<open>What is shown.\<close>  The wallet service keeps every stored key readable and exports it only to its owner.
  The engine sends only approvals of the configured router, swaps over it along the stored route and payments to the
  investor, for active sessions that watch the pool, within what the session has left; a stored route that it cannot
  read makes it skip the pool without a trace;
  acknowledged messages leave ledger and sold amounts in balance; but a message delivered again after a
  failure sells again, and a lost update is never repaired.  Submission, approval and sweep sign only the
  intended transactions, and a failed submission has seen three errors of the node.  Waiting for a receipt ends within its deadline.  Routes, paths and pools have the
  shapes their readers need.  Updates of sessions refine point updates of a map.  The accounts stay well
  formed over any sequence of calls, tokens are issued only after the checks, a sign-up leads to a login, and
  a sign-up can take over an administrator without second factor.  Refund requests stay well formed and are
  confirmed once, but what the engine asks for itself never reaches an administrator.  Behind the gateway money
  leaves a wallet only for an administrator with a second factor, or as gas for a session that is activated and
  within a bound; a key is exported only past the second factor; the public sees shared sessions only.  The
  indexer hands out every block once, and its messages are the swaps and deposits of recent blocks with the
  tokens the node named; but one failed call loses a pool until a restart.

  \<^bold>\<open>Relations and invariants.\<close>  A locale per interface (\<open>state_rel\<close>, \<open>call_rel\<close>, \<open>world_rel\<close>,
  \<open>mail_rel\<close>, \<open>cache_rel\<close>, \<open>account_rel\<close>, \<open>refund_rel\<close>, \<open>completion_rel\<close>, \<open>engine_rel\<close>) collects what a relation
  must satisfy to be kept by the operations of a part; each is interpreted on the relations the theorems
  need (equal tables, monotone ledger, transactions sent, balanced books, well-formed users).

  \<^bold>\<open>Bounds and fuel.\<close>  The retry loop runs at most its number of attempts; the wait for a receipt and for an
  allowance are recursions on the time left, with the measure proved to decrease because every poll sleeps.
  Machine integers keep their widths and wrap or saturate as the code does; \<open>NUMERIC\<close> columns round and
  overflow as PostgreSQL does.

  \<^bold>\<open>Not modelled.\<close>  Sockets, HTTP routing, TLS, NATS streams and the layered loading of the configuration
  are libraries the sources only call.  The background tasks are modelled per step, not as concurrent
  threads.  The HTML alternative of e-mails repeats the text.  The price
  writer for pricing (\<open>crates/common/src/pricing.rs\<close>), the websocket fan-out and the consumers of the gateway
  that turn bus messages into alert e-mails are not modelled.  The workers of the indexer share a cache; it is
  modelled log by log, as if one worker did all blocks.
\<close>

end
